theory Spec2Isabelle
  imports Main "HOL-Library.Word" "HOL-Library.Multiset" "HOL-Library.AList"
    "HOL-Library.Log_Nat"
begin

section \<open>I/O performance data collection of the car watchdog daemon\<close>

text \<open>
  A shallow embedding of \<^verbatim>\<open>watchdog/server/src/IoPerfCollection.cpp\<close>.
  The object \<^verbatim>\<open>IoPerfCollection\<close> becomes a record that every member function
  takes and returns; \<^verbatim>\<open>Result<void>\<close> becomes a sum whose left summand is the error.
  Everything read from outside the object during a call (the looper's clock, the files
  behind the three collectors, the name services, the file descriptor of a dump) is an
  argument of the function that reads it.
\<close>

subsection \<open>Machine types\<close>

type_synonym u32 = "32 word"
type_synonym u64 = "64 word"

text \<open>
  \<^verbatim>\<open>nsecs_t\<close> and \<^verbatim>\<open>std::chrono::nanoseconds::rep\<close> are signed 64-bit counts of
  nanoseconds: integers from \<open>- 2 ^ 63\<close> up to \<open>2 ^ 63 - 1\<close>. The code adds two of them
  in two places, the next deadline of a collection and the time of the message that ends
  a custom collection, and the interval and the maximum duration of a custom collection
  come from the caller. These sums are 64-bit sums: \<open>int64_add\<close> is the sum in two's
  complement, which is the sum of the integers whenever that is a 64-bit value. (Where
  it is not, C++ leaves the signed sum undefined; the model takes the value that wraps
  around.) \<^verbatim>\<open>size_t\<close> is a natural number; the only \<^verbatim>\<open>size_t\<close> arithmetic is a comparison.
\<close>

type_synonym nsecs = int

definition int64_add :: "nsecs \<Rightarrow> nsecs \<Rightarrow> nsecs" where
  "int64_add a b = sint ((word_of_int a :: 64 word) + word_of_int b)"

subsection \<open>Events, messages and errors\<close>

datatype CollectionEvent = INIT | BOOT_TIME | PERIODIC | CUSTOM | TERMINATED

datatype SwitchEvent = END_CUSTOM_COLLECTION

text \<open>
  \<^verbatim>\<open>Message::what\<close> is an \<^verbatim>\<open>int\<close>; the two enumerations are cast to it. A value that
  is neither is \<open>OtherWhat\<close>.
\<close>

datatype Message = CollectionWhat CollectionEvent | SwitchWhat SwitchEvent | OtherWhat int

text \<open>One constructor for each place where the source builds an \<^verbatim>\<open>Error()\<close>.\<close>

datatype error =
    CannotStartMoreThanOnce
  | NotBoottimeEvent CollectionEvent
  | BelowMinCollectionInterval
  | NotPeriodicEvent CollectionEvent
  | NoCustomCollectionRunning
  | FailedToWriteCollectorStatus string
  | FailedToWriteCustomReport
  | UnknownMessage Message
  | MaxCacheSizeZero CollectionEvent
  | IntervalTooShort CollectionEvent
  | CollectionFailed CollectionEvent error
  | NoCollectorsEnabled
  | FailedToCollectUidIoUsage string
  | FailedToCollectProcStats string
  | FailedToCollectProcessStats string

type_synonym 'a result = "error + 'a"

subsection \<open>Samples read from the collectors\<close>

datatype MetricType = READ_BYTES | WRITE_BYTES | FSYNC_COUNT

datatype UidState = FOREGROUND | BACKGROUND

record IoUsage =
  metrics :: "MetricType \<Rightarrow> UidState \<Rightarrow> u64"

record UidIoUsage =
  uid :: u32
  ios :: IoUsage

text \<open>
  Modelled from the spec: \<^verbatim>\<open>IoUsage::isZero\<close>, \<^verbatim>\<open>sumReadBytes\<close> and \<^verbatim>\<open>sumWriteBytes\<close>
  are declared in \<^verbatim>\<open>UidIoStats.h\<close>, which is not among the sources. The ranking keys
  are the "bytes read/written" of an entity: the foreground and background counters
  added in \<^verbatim>\<open>uint64_t\<close>; a usage is zero when all six counters are.
\<close>

definition mkIoUsage :: "u64 \<Rightarrow> u64 \<Rightarrow> u64 \<Rightarrow> u64 \<Rightarrow> u64 \<Rightarrow> u64 \<Rightarrow> IoUsage" where
  "mkIoUsage fgRd bgRd fgWr bgWr fgFsync bgFsync =
     \<lparr>metrics = (\<lambda>m s. case (m, s) of
          (READ_BYTES, FOREGROUND) \<Rightarrow> fgRd
        | (READ_BYTES, BACKGROUND) \<Rightarrow> bgRd
        | (WRITE_BYTES, FOREGROUND) \<Rightarrow> fgWr
        | (WRITE_BYTES, BACKGROUND) \<Rightarrow> bgWr
        | (FSYNC_COUNT, FOREGROUND) \<Rightarrow> fgFsync
        | (FSYNC_COUNT, BACKGROUND) \<Rightarrow> bgFsync)\<rparr>"

definition isZero :: "IoUsage \<Rightarrow> bool" where
  "isZero u \<longleftrightarrow>
     metrics u READ_BYTES FOREGROUND = 0 \<and> metrics u READ_BYTES BACKGROUND = 0 \<and>
     metrics u WRITE_BYTES FOREGROUND = 0 \<and> metrics u WRITE_BYTES BACKGROUND = 0 \<and>
     metrics u FSYNC_COUNT FOREGROUND = 0 \<and> metrics u FSYNC_COUNT BACKGROUND = 0"

definition sumReadBytes :: "IoUsage \<Rightarrow> u64" where
  "sumReadBytes u = metrics u READ_BYTES FOREGROUND + metrics u READ_BYTES BACKGROUND"

definition sumWriteBytes :: "IoUsage \<Rightarrow> u64" where
  "sumWriteBytes u = metrics u WRITE_BYTES FOREGROUND + metrics u WRITE_BYTES BACKGROUND"

record ProcStatInfo =
  ioWaitTime :: u64
  totalCpuTime :: u64
  ioBlockedProcessesCnt :: u32
  totalProcessesCnt :: u32

text \<open>
  Of a \<^verbatim>\<open>ProcessStats\<close> the code reads the owner, the major faults of the top-level
  process and the state of each thread. \<open>threads\<close> lists the states in the iteration
  order of the source's map of threads.
\<close>

record ProcessStats =
  puid :: int
  processMajorFaults :: u64
  threads :: "string list"

record UidProcessStats =
  upUid :: u64
  ioBlockedTasksCnt :: u32
  totalTasksCnt :: u32
  majorFaults :: u64

subsection \<open>The bounded insertion used by every ranking\<close>

text \<open>
  The four rankings run the same loop over a vector of \<open>N\<close> candidates:
  \<^verbatim>\<open>
  for (auto it = topN.begin(); it != topN.end(); ++it) {
      if (key(*it) > key(cur)) continue;
      topN.erase(topN.end() - 1);
      topN.emplace(it, &cur);
      break;
  }
  \<close>
  The candidates before \<^verbatim>\<open>it\<close> stay; from \<^verbatim>\<open>it\<close> on the vector loses its last element
  and gets \<^verbatim>\<open>cur\<close> in front. The loop is written once, over the key.
\<close>

fun topNInsert :: "('a \<Rightarrow> 'k::linorder) \<Rightarrow> 'a \<Rightarrow> 'a list \<Rightarrow> 'a list" where
  "topNInsert key cur [] = []"
| "topNInsert key cur (x # xs) =
     (if key x > key cur then x # topNInsert key cur xs else cur # butlast (x # xs))"

subsection \<open>Doubles\<close>

text \<open>
  A \<^verbatim>\<open>double\<close> is the rational number it stands for, and every operation rounds its
  exact result to the nearest number with a 53-bit significand, ties to even (IEEE 754
  binary64). Infinities, NaN and subnormal numbers are left out: the code divides only
  behind a test of the divisor, and its operands come from 64-bit integers.
\<close>

type_synonym double = rat

definition pow2 :: "int \<Rightarrow> rat" where
  "pow2 z = (if 0 \<le> z then 2 ^ nat z else 1 / 2 ^ nat (- z))"

text \<open>The \<open>e\<close> with \<open>2 ^ e \<le> \<bar>x\<bar> < 2 ^ (e + 1)\<close>, for \<open>x \<noteq> 0\<close>.\<close>

definition binade :: "rat \<Rightarrow> int" where
  "binade x =
     (let (p, q) = quotient_of \<bar>x\<bar>;
          d = int (floorlog 2 (nat p)) - int (floorlog 2 (nat q))
      in if pow2 d \<le> \<bar>x\<bar> then d else d - 1)"

definition roundHalfEven :: "rat \<Rightarrow> int" where
  "roundHalfEven q =
     (let n = \<lfloor>q\<rfloor>; r = q - of_int n
      in if r < 1 / 2 then n else if 1 / 2 < r then n + 1 else if even n then n else n + 1)"

definition fl :: "rat \<Rightarrow> double" where
  "fl x = (if x = 0 then 0
           else let ulp = pow2 (binade x - 52)
                in sgn x * of_int (roundHalfEven (\<bar>x\<bar> / ulp)) * ulp)"

text \<open>\<^verbatim>\<open>static_cast<double>\<close> of an unsigned and of a signed 64-bit integer.\<close>

definition double_of_u64 :: "u64 \<Rightarrow> double" where
  "double_of_u64 w = fl (of_nat (unat w))"

definition double_of_s64 :: "u64 \<Rightarrow> double" where
  "double_of_s64 w = fl (of_int (sint w))"

definition ddiv :: "double \<Rightarrow> double \<Rightarrow> double" where
  "ddiv a b = fl (a / b)"

definition dmul :: "double \<Rightarrow> double \<Rightarrow> double" where
  "dmul a b = fl (a * b)"

definition percentage :: "u64 \<Rightarrow> u64 \<Rightarrow> double" where
  "percentage numer denom =
     (if denom = 0 then 0 else dmul (ddiv (double_of_u64 numer) (double_of_u64 denom)) 100)"

subsection \<open>Records of a collection\<close>

text \<open>\<^verbatim>\<open>UidIoPerfData::Stats\<close>; the two arrays are indexed by \<^verbatim>\<open>UidState\<close>.\<close>

record UidIoPerfStats =
  userId :: u32
  packageName :: string
  bytes :: "u64 \<times> u64"
  fsync :: "u64 \<times> u64"

record UidIoPerfData =
  total :: "MetricType \<Rightarrow> UidState \<Rightarrow> u64"
  topNReads :: "UidIoPerfStats list"
  topNWrites :: "UidIoPerfStats list"

record SystemIoPerfData =
  cpuIoWaitTime :: u64
  sysTotalCpuTime :: u64
  sysIoBlockedProcessesCnt :: u32
  sysTotalProcessesCnt :: u32

text \<open>\<^verbatim>\<open>ProcessIoPerfData::Stats\<close>.\<close>

record ProcessIoPerfStats =
  pUserId :: u32
  pPackageName :: string
  count :: u64

record ProcessIoPerfData =
  topNIoBlockedUids :: "ProcessIoPerfStats list"
  topNIoBlockedUidsTotalTaskCnt :: "u64 list"
  topNMajorFaults :: "ProcessIoPerfStats list"
  totalMajorFaults :: u64
  majorFaultsPercentChange :: double

record IoPerfRecord =
  time :: int
  uidIoPerfData :: UidIoPerfData
  systemIoPerfData :: SystemIoPerfData
  processIoPerfData :: ProcessIoPerfData

text \<open>The value-initialised members of a fresh \<^verbatim>\<open>IoPerfRecord\<close>.\<close>

definition emptyUidIoPerfData :: UidIoPerfData where
  "emptyUidIoPerfData = \<lparr>total = (\<lambda>m s. 0), topNReads = [], topNWrites = []\<rparr>"

definition emptySystemIoPerfData :: SystemIoPerfData where
  "emptySystemIoPerfData =
     \<lparr>cpuIoWaitTime = 0, sysTotalCpuTime = 0, sysIoBlockedProcessesCnt = 0,
      sysTotalProcessesCnt = 0\<rparr>"

definition emptyProcessIoPerfData :: ProcessIoPerfData where
  "emptyProcessIoPerfData =
     \<lparr>topNIoBlockedUids = [], topNIoBlockedUidsTotalTaskCnt = [], topNMajorFaults = [],
      totalMajorFaults = 0, majorFaultsPercentChange = 0\<rparr>"

record CollectionInfo =
  interval :: nsecs
  maxCacheSize :: nat
  lastCollectionUptime :: nsecs
  records :: "IoPerfRecord list"

text \<open>\<^verbatim>\<open>mCustomCollection = {}\<close>: every member value-initialised.\<close>

definition emptyCollectionInfo :: CollectionInfo where
  "emptyCollectionInfo =
     \<lparr>interval = 0, maxCacheSize = 0, lastCollectionUptime = 0, records = []\<rparr>"

subsection \<open>The object and what surrounds it\<close>

text \<open>
  The constants of \<^verbatim>\<open>IoPerfCollection.h\<close>, which is not among the sources, are
  parameters. \<open>SIZE_MAX\<close> is \<^verbatim>\<open>std::numeric_limits<std::size_t>::max()\<close>.
\<close>

record Constants =
  kBoottimeCollectionInterval :: nsecs
  kPeriodicCollectionInterval :: nsecs
  kPeriodicCollectionBufferSize :: nat
  kMinCollectionInterval :: nsecs
  SIZE_MAX :: nat

text \<open>
  The looper holds the pending messages of the one handler, in the order of their
  times, and is woken by \<^verbatim>\<open>wake()\<close>; \<open>looperWakes\<close> counts these calls. The thread
  is reduced to whether it is joinable. A collector is reduced to \<^verbatim>\<open>enabled()\<close>, which
  is fixed when the collector is built.
\<close>

record IoPerfCollection =
  mCurrCollectionEvent :: CollectionEvent
  mBoottimeCollection :: CollectionInfo
  mPeriodicCollection :: CollectionInfo
  mCustomCollection :: CollectionInfo
  mTopNStatsPerCategory :: nat
  mUidToPackageNameMapping :: "u32 \<rightharpoonup> string"
  mLastMajorFaults :: u64
  mCollectionThreadJoinable :: bool
  looperMessages :: "(nsecs \<times> Message) list"
  looperWakes :: nat
  mUidIoStatsEnabled :: bool
  mProcStatEnabled :: bool
  mProcPidStatEnabled :: bool

text \<open>
  What one collection reads from outside: the wall clock, the result of each
  collector's \<^verbatim>\<open>collect()\<close> (an error message, or the sample; a map is given as the list
  of its values in iteration order), the order in which the hash map that
  \<^verbatim>\<open>getUidProcessStats\<close> builds is iterated (it rearranges the entries of the map),
  \<^verbatim>\<open>getpwuid\<close>, and the package manager's \<^verbatim>\<open>getNamesForUids\<close>, which is \<open>None\<close> when
  the manager cannot be retrieved or the call fails.
\<close>

record Sources =
  wallClock :: int
  uidIoStatsCollect :: "string + UidIoUsage list"
  procStatCollect :: "string + ProcStatInfo"
  procPidStatCollect :: "string + ProcessStats list"
  iterationOrder :: "(u32 \<times> UidProcessStats) list \<Rightarrow> (u32 \<times> UidProcessStats) list"
  getpwuid :: "u32 \<rightharpoonup> string"
  getNamesForUids :: "(u32 \<Rightarrow> string) option"

subsection \<open>The looper\<close>

text \<open>
  Modelled from the spec: \<^verbatim>\<open>LooperWrapper\<close> is declared in \<^verbatim>\<open>LooperWrapper.h\<close>, which is
  not among the sources. It is the "message queue + delayed timers" of the scheduler: a
  message is queued for a time, behind the messages that are due no later;
  \<^verbatim>\<open>sendMessage\<close> queues for the present; \<^verbatim>\<open>removeMessages\<close> drops every pending
  message of the handler, which is the only one.
\<close>

fun enqueueMessage :: "nsecs \<Rightarrow> Message \<Rightarrow> (nsecs \<times> Message) list \<Rightarrow> (nsecs \<times> Message) list" where
  "enqueueMessage t m [] = [(t, m)]"
| "enqueueMessage t m ((u, n) # q) =
     (if u \<le> t then (u, n) # enqueueMessage t m q else (t, m) # (u, n) # q)"

definition sendMessageAtTime :: "nsecs \<Rightarrow> Message \<Rightarrow> IoPerfCollection \<Rightarrow> IoPerfCollection" where
  "sendMessageAtTime t m s = s\<lparr>looperMessages := enqueueMessage t m (looperMessages s)\<rparr>"

definition sendMessage :: "nsecs \<Rightarrow> Message \<Rightarrow> IoPerfCollection \<Rightarrow> IoPerfCollection" where
  "sendMessage now m s = sendMessageAtTime now m s"

definition removeMessages :: "IoPerfCollection \<Rightarrow> IoPerfCollection" where
  "removeMessages s = s\<lparr>looperMessages := []\<rparr>"

definition wake :: "IoPerfCollection \<Rightarrow> IoPerfCollection" where
  "wake s = s\<lparr>looperWakes := Suc (looperWakes s)\<rparr>"

subsection \<open>Names of UIDs\<close>

text \<open>
  \<^verbatim>\<open>AID_APP_START\<close>, \<^verbatim>\<open>AID_USER_OFFSET\<close> and \<^verbatim>\<open>multiuser_get_user_id\<close> are those of
  the platform's \<^verbatim>\<open>cutils\<close>; \<^verbatim>\<open>std::to_string\<close> of an unsigned integer is its decimal
  numeral.
\<close>

definition AID_APP_START :: u32 where
  "AID_APP_START = 10000"

definition AID_USER_OFFSET :: u32 where
  "AID_USER_OFFSET = 100000"

definition multiuser_get_user_id :: "u32 \<Rightarrow> u32" where
  "multiuser_get_user_id u = u div AID_USER_OFFSET"

function to_string :: "nat \<Rightarrow> string" where
  "to_string n =
     (if n < 10 then [char_of (48 + n)]
      else to_string (n div 10) @ [char_of (48 + n mod 10)])"
  by pat_completeness auto
termination
  by (relation "measure (\<lambda>n. n)") auto

declare to_string.simps [simp del]

text \<open>
  \<^verbatim>\<open>updateUidToPackageNameMapping\<close>. Its callers only log the error it may return, so
  the model returns the mapping alone. The set of UIDs is a list without repetitions.
\<close>

definition updateUidToPackageNameMapping ::
  "Sources \<Rightarrow> u32 list \<Rightarrow> (u32 \<rightharpoonup> string) \<Rightarrow> (u32 \<rightharpoonup> string)" where
  "updateUidToPackageNameMapping src uids mapping =
     (let native = fold (\<lambda>u m. if AID_APP_START \<le> u then m
                               else (case getpwuid src u of
                                       None \<Rightarrow> m
                                     | Some pw_name \<Rightarrow> m(u \<mapsto> pw_name))) uids mapping;
          appUids = filter (\<lambda>u. AID_APP_START \<le> u) uids
      in if appUids = [] then native
         else (case getNamesForUids src of
                 None \<Rightarrow> native
               | Some packageNames \<Rightarrow>
                   fold (\<lambda>u m. if packageNames u \<noteq> [] then m(u \<mapsto> packageNames u) else m)
                     appUids native))"

subsection \<open>Per-UID I/O\<close>

definition tempUsage :: UidIoUsage where
  "tempUsage = \<lparr>uid = 0, ios = \<lparr>metrics = (\<lambda>m s. 0)\<rparr>\<rparr>"

text \<open>What the loop over the usage records updates.\<close>

record UidIoLoop =
  accTotal :: "MetricType \<Rightarrow> UidState \<Rightarrow> u64"
  accTopNReads :: "UidIoUsage list"
  accTopNWrites :: "UidIoUsage list"
  accUnmappedUids :: "u32 list"

fun uidIoUsageLoop :: "(u32 \<rightharpoonup> string) \<Rightarrow> UidIoUsage list \<Rightarrow> UidIoLoop \<Rightarrow> UidIoLoop" where
  "uidIoUsageLoop names [] acc = acc"
| "uidIoUsageLoop names (curUsage # rest) acc =
     (if isZero (ios curUsage) then uidIoUsageLoop names rest acc
      else uidIoUsageLoop names rest
        \<lparr>accTotal = (\<lambda>m s. accTotal acc m s + metrics (ios curUsage) m s),
         accTopNReads = topNInsert (\<lambda>u. sumReadBytes (ios u)) curUsage (accTopNReads acc),
         accTopNWrites = topNInsert (\<lambda>u. sumWriteBytes (ios u)) curUsage (accTopNWrites acc),
         accUnmappedUids =
           (if names (uid curUsage) = None then List.insert (uid curUsage) (accUnmappedUids acc)
            else accUnmappedUids acc)\<rparr>)"

definition uidIoStats ::
  "MetricType \<Rightarrow> (u32 \<rightharpoonup> string) \<Rightarrow> UidIoUsage \<Rightarrow> UidIoPerfStats" where
  "uidIoStats metric names usage =
     \<lparr>userId = multiuser_get_user_id (uid usage),
      packageName = (case names (uid usage) of
                       Some name \<Rightarrow> name
                     | None \<Rightarrow> to_string (unat (uid usage))),
      bytes = (metrics (ios usage) metric FOREGROUND, metrics (ios usage) metric BACKGROUND),
      fsync = (metrics (ios usage) FSYNC_COUNT FOREGROUND,
               metrics (ios usage) FSYNC_COUNT BACKGROUND)\<rparr>"

text \<open>
  The two conversion loops, which stop at the first candidate whose usage is zero;
  \<open>metric\<close> is \<open>READ_BYTES\<close> in the first and \<open>WRITE_BYTES\<close> in the second.
\<close>

fun convertTopNUsage ::
  "MetricType \<Rightarrow> (u32 \<rightharpoonup> string) \<Rightarrow> UidIoUsage list \<Rightarrow> UidIoPerfStats list" where
  "convertTopNUsage metric names [] = []"
| "convertTopNUsage metric names (usage # rest) =
     (if isZero (ios usage) then []
      else uidIoStats metric names usage # convertTopNUsage metric names rest)"

definition collectUidIoPerfDataLocked ::
  "Sources \<Rightarrow> IoPerfCollection \<Rightarrow> UidIoPerfData
     \<Rightarrow> unit result \<times> IoPerfCollection \<times> UidIoPerfData" where
  "collectUidIoPerfDataLocked src s out =
     (if \<not> mUidIoStatsEnabled s then (Inr (), s, out)
      else case uidIoStatsCollect src of
        Inl e \<Rightarrow> (Inl (FailedToCollectUidIoUsage e), s, out)
      | Inr usage \<Rightarrow>
          (let acc = uidIoUsageLoop (mUidToPackageNameMapping s) usage
                 \<lparr>accTotal = total out,
                  accTopNReads = replicate (mTopNStatsPerCategory s) tempUsage,
                  accTopNWrites = replicate (mTopNStatsPerCategory s) tempUsage,
                  accUnmappedUids = []\<rparr>;
               names = updateUidToPackageNameMapping src (accUnmappedUids acc)
                 (mUidToPackageNameMapping s)
           in (Inr (), s\<lparr>mUidToPackageNameMapping := names\<rparr>,
               out
                 \<lparr>total := accTotal acc,
                  topNReads := topNReads out
                    @ convertTopNUsage READ_BYTES names (accTopNReads acc),
                  topNWrites := topNWrites out
                    @ convertTopNUsage WRITE_BYTES names (accTopNWrites acc)\<rparr>)))"

subsection \<open>System-wide I/O\<close>

definition collectSystemIoPerfDataLocked ::
  "Sources \<Rightarrow> IoPerfCollection \<Rightarrow> SystemIoPerfData \<Rightarrow> unit result \<times> SystemIoPerfData" where
  "collectSystemIoPerfDataLocked src s out =
     (if \<not> mProcStatEnabled s then (Inr (), out)
      else case procStatCollect src of
        Inl e \<Rightarrow> (Inl (FailedToCollectProcStats e), out)
      | Inr procStatInfo \<Rightarrow>
          (Inr (), out
             \<lparr>cpuIoWaitTime := ioWaitTime procStatInfo,
              sysTotalCpuTime := totalCpuTime procStatInfo,
              sysIoBlockedProcessesCnt := ioBlockedProcessesCnt procStatInfo,
              sysTotalProcessesCnt := totalProcessesCnt procStatInfo\<rparr>))"

subsection \<open>Per-process I/O\<close>

definition tempStats :: UidProcessStats where
  "tempStats = \<lparr>upUid = 0, ioBlockedTasksCnt = 0, totalTasksCnt = 0, majorFaults = 0\<rparr>"

text \<open>
  \<^verbatim>\<open>getUidProcessStats\<close>. The map it builds is an association list; a new UID goes to
  the end. The source's map is a hash map, which iterates in an order of its own: the
  loop over the map goes through the list as \<open>iterationOrder\<close> rearranges it.
\<close>

fun getUidProcessStatsLoop ::
  "ProcessStats list \<Rightarrow> (u32 \<times> UidProcessStats) list \<Rightarrow> (u32 \<times> UidProcessStats) list" where
  "getUidProcessStatsLoop [] m = m"
| "getUidProcessStatsLoop (stats # rest) m =
     (if puid stats < 0 then getUidProcessStatsLoop rest m
      else
        (let k = (word_of_int (puid stats) :: u32);
             cur = (case map_of m k of
                      None \<Rightarrow> tempStats\<lparr>upUid := ucast k\<rparr>
                    | Some c \<Rightarrow> c);
             upd = cur
               \<lparr>majorFaults := majorFaults cur + processMajorFaults stats,
                totalTasksCnt := totalTasksCnt cur + of_nat (length (threads stats)),
                ioBlockedTasksCnt :=
                  fold (\<lambda>state cnt. cnt + (if state = ''D'' then 1 else 0)) (threads stats)
                    (ioBlockedTasksCnt cur)\<rparr>
         in getUidProcessStatsLoop rest (AList.update k upd m)))"

definition getUidProcessStats :: "ProcessStats list \<Rightarrow> (u32 \<times> UidProcessStats) list" where
  "getUidProcessStats processStats = getUidProcessStatsLoop processStats []"

record ProcessLoop =
  accTotalMajorFaults :: u64
  accTopNIoBlockedUids :: "UidProcessStats list"
  accTopNMajorFaults :: "UidProcessStats list"
  accUnmappedProcessUids :: "u32 list"

fun uidProcessStatsLoop ::
  "(u32 \<rightharpoonup> string) \<Rightarrow> UidProcessStats list \<Rightarrow> ProcessLoop \<Rightarrow> ProcessLoop" where
  "uidProcessStatsLoop names [] acc = acc"
| "uidProcessStatsLoop names (curStats # rest) acc =
     uidProcessStatsLoop names rest
       \<lparr>accTotalMajorFaults = accTotalMajorFaults acc + majorFaults curStats,
        accTopNIoBlockedUids = topNInsert ioBlockedTasksCnt curStats (accTopNIoBlockedUids acc),
        accTopNMajorFaults = topNInsert majorFaults curStats (accTopNMajorFaults acc),
        accUnmappedProcessUids =
          (if names (ucast (upUid curStats)) = None
           then List.insert (ucast (upUid curStats)) (accUnmappedProcessUids acc)
           else accUnmappedProcessUids acc)\<rparr>"

definition processIoStats ::
  "(u32 \<rightharpoonup> string) \<Rightarrow> u64 \<Rightarrow> UidProcessStats \<Rightarrow> ProcessIoPerfStats" where
  "processIoStats names cnt it =
     \<lparr>pUserId = multiuser_get_user_id (ucast (upUid it)),
      pPackageName = (case names (ucast (upUid it)) of
                        Some name \<Rightarrow> name
                      | None \<Rightarrow> to_string (unat (upUid it))),
      count = cnt\<rparr>"

text \<open>
  The conversion of the I/O-blocked ranking fills two vectors in step; the model pairs
  their elements.
\<close>

fun convertTopNIoBlockedUids ::
  "(u32 \<rightharpoonup> string) \<Rightarrow> UidProcessStats list \<Rightarrow> (ProcessIoPerfStats \<times> u64) list" where
  "convertTopNIoBlockedUids names [] = []"
| "convertTopNIoBlockedUids names (it # rest) =
     (if ioBlockedTasksCnt it = 0 then []
      else (processIoStats names (ucast (ioBlockedTasksCnt it)) it, ucast (totalTasksCnt it))
           # convertTopNIoBlockedUids names rest)"

fun convertTopNMajorFaults ::
  "(u32 \<rightharpoonup> string) \<Rightarrow> UidProcessStats list \<Rightarrow> ProcessIoPerfStats list" where
  "convertTopNMajorFaults names [] = []"
| "convertTopNMajorFaults names (it # rest) =
     (if majorFaults it = 0 then []
      else processIoStats names (majorFaults it) it # convertTopNMajorFaults names rest)"

definition collectProcessIoPerfDataLocked ::
  "Sources \<Rightarrow> IoPerfCollection \<Rightarrow> ProcessIoPerfData
     \<Rightarrow> unit result \<times> IoPerfCollection \<times> ProcessIoPerfData" where
  "collectProcessIoPerfDataLocked src s out =
     (if \<not> mProcPidStatEnabled s then (Inr (), s, out)
      else case procPidStatCollect src of
        Inl e \<Rightarrow> (Inl (FailedToCollectProcessStats e), s, out)
      | Inr processStats \<Rightarrow>
          (let acc = uidProcessStatsLoop (mUidToPackageNameMapping s)
                 (map snd (iterationOrder src (getUidProcessStats processStats)))
                 \<lparr>accTotalMajorFaults = 0,
                  accTopNIoBlockedUids = replicate (mTopNStatsPerCategory s) tempStats,
                  accTopNMajorFaults = replicate (mTopNStatsPerCategory s) tempStats,
                  accUnmappedProcessUids = []\<rparr>;
               names = updateUidToPackageNameMapping src (accUnmappedProcessUids acc)
                 (mUidToPackageNameMapping s);
               blocked = convertTopNIoBlockedUids names (accTopNIoBlockedUids acc);
               change =
                 (if mLastMajorFaults s = 0 then 0
                  else dmul (ddiv (double_of_s64 (accTotalMajorFaults acc - mLastMajorFaults s))
                                  (double_of_u64 (mLastMajorFaults s))) 100)
           in (Inr (),
               s\<lparr>mUidToPackageNameMapping := names,
                 mLastMajorFaults := accTotalMajorFaults acc\<rparr>,
               out
                 \<lparr>topNIoBlockedUids := topNIoBlockedUids out @ map fst blocked,
                  topNIoBlockedUidsTotalTaskCnt :=
                    topNIoBlockedUidsTotalTaskCnt out @ map snd blocked,
                  topNMajorFaults := topNMajorFaults out
                    @ convertTopNMajorFaults names (accTopNMajorFaults acc),
                  totalMajorFaults := accTotalMajorFaults acc,
                  majorFaultsPercentChange := change\<rparr>)))"

subsection \<open>One collection\<close>

text \<open>
  \<^verbatim>\<open>collectLocked\<close> and \<^verbatim>\<open>processCollectionEvent\<close> get a pointer to one of the three
  \<^verbatim>\<open>CollectionInfo\<close> members of the object. The pointer is the name of the member.
\<close>

datatype CollectionInfoRef = BoottimeRef | PeriodicRef | CustomRef

fun deref :: "CollectionInfoRef \<Rightarrow> IoPerfCollection \<Rightarrow> CollectionInfo" where
  "deref BoottimeRef s = mBoottimeCollection s"
| "deref PeriodicRef s = mPeriodicCollection s"
| "deref CustomRef s = mCustomCollection s"

fun assign :: "CollectionInfoRef \<Rightarrow> CollectionInfo \<Rightarrow> IoPerfCollection \<Rightarrow> IoPerfCollection" where
  "assign BoottimeRef info s = s\<lparr>mBoottimeCollection := info\<rparr>"
| "assign PeriodicRef info s = s\<lparr>mPeriodicCollection := info\<rparr>"
| "assign CustomRef info s = s\<lparr>mCustomCollection := info\<rparr>"

text \<open>
  The end of \<^verbatim>\<open>collectLocked\<close>:
  \<^verbatim>\<open>
  if (collectionInfo->records.size() > collectionInfo->maxCacheSize) {
      collectionInfo->records.erase(collectionInfo->records.begin());
  }
  collectionInfo->records.emplace_back(record);
  \<close>
\<close>

definition cacheRecord :: "IoPerfRecord \<Rightarrow> CollectionInfo \<Rightarrow> CollectionInfo" where
  "cacheRecord rcd info =
     (let kept = (if length (records info) > maxCacheSize info then tl (records info)
                  else records info)
      in info\<lparr>records := kept @ [rcd]\<rparr>)"

definition collectLocked ::
  "Sources \<Rightarrow> CollectionInfoRef \<Rightarrow> IoPerfCollection \<Rightarrow> unit result \<times> IoPerfCollection" where
  "collectLocked src collectionInfo s =
     (if \<not> mUidIoStatsEnabled s \<and> \<not> mProcStatEnabled s \<and> \<not> mProcPidStatEnabled s
      then (Inl NoCollectorsEnabled, s)
      else case collectSystemIoPerfDataLocked src s emptySystemIoPerfData of
        (Inl e, _) \<Rightarrow> (Inl e, s)
      | (Inr _, sys) \<Rightarrow>
          (case collectProcessIoPerfDataLocked src s emptyProcessIoPerfData of
             (Inl e, s1, _) \<Rightarrow> (Inl e, s1)
           | (Inr _, s1, proc) \<Rightarrow>
               (case collectUidIoPerfDataLocked src s1 emptyUidIoPerfData of
                  (Inl e, s2, _) \<Rightarrow> (Inl e, s2)
                | (Inr _, s2, uidIo) \<Rightarrow>
                    (Inr (),
                     assign collectionInfo
                       (cacheRecord
                          \<lparr>time = wallClock src, uidIoPerfData = uidIo,
                           systemIoPerfData = sys, processIoPerfData = proc\<rparr>
                          (deref collectionInfo s2)) s2))))"

definition processCollectionEvent ::
  "Constants \<Rightarrow> Sources \<Rightarrow> CollectionEvent \<Rightarrow> CollectionInfoRef \<Rightarrow> IoPerfCollection
     \<Rightarrow> unit result \<times> IoPerfCollection" where
  "processCollectionEvent K src event info s =
     (if mCurrCollectionEvent s \<noteq> event then (Inr (), s)
      else if maxCacheSize (deref info s) = 0 then (Inl (MaxCacheSizeZero event), s)
      else if interval (deref info s) < kMinCollectionInterval K
        then (Inl (IntervalTooShort event), s)
      else case collectLocked src info s of
        (Inl e, s1) \<Rightarrow> (Inl (CollectionFailed event e), s1)
      | (Inr _, s1) \<Rightarrow>
          (let t = int64_add (lastCollectionUptime (deref info s1)) (interval (deref info s1));
               s2 = assign info ((deref info s1)\<lparr>lastCollectionUptime := t\<rparr>) s1
           in (Inr (), sendMessageAtTime t (CollectionWhat event) s2)))"

text \<open>
  The tail of \<^verbatim>\<open>handleMessage\<close>, reached by every case that sets \<^verbatim>\<open>result\<close>: an error
  ends the collection.
\<close>

fun terminateOnError :: "unit result \<times> IoPerfCollection \<Rightarrow> IoPerfCollection" where
  "terminateOnError (Inl e, s) = wake (removeMessages (s\<lparr>mCurrCollectionEvent := TERMINATED\<rparr>))"
| "terminateOnError (Inr _, s) = s"

text \<open>\<open>now\<close> is what \<^verbatim>\<open>mHandlerLooper->now()\<close> returns during the call.\<close>

fun handleMessage ::
  "Constants \<Rightarrow> Sources \<Rightarrow> nsecs \<Rightarrow> Message \<Rightarrow> IoPerfCollection \<Rightarrow> IoPerfCollection" where
  "handleMessage K src now (CollectionWhat BOOT_TIME) s =
     terminateOnError (processCollectionEvent K src BOOT_TIME BoottimeRef s)"
| "handleMessage K src now (CollectionWhat PERIODIC) s =
     terminateOnError (processCollectionEvent K src PERIODIC PeriodicRef s)"
| "handleMessage K src now (CollectionWhat CUSTOM) s =
     terminateOnError (processCollectionEvent K src CUSTOM CustomRef s)"
| "handleMessage K src now (SwitchWhat END_CUSTOM_COLLECTION) s =
     (if mCurrCollectionEvent s \<noteq> CUSTOM then s
      else sendMessage now (CollectionWhat PERIODIC)
             ((removeMessages (s\<lparr>mCustomCollection := emptyCollectionInfo\<rparr>))
                \<lparr>mCurrCollectionEvent := PERIODIC,
                 mPeriodicCollection :=
                   (mPeriodicCollection s)\<lparr>lastCollectionUptime := now\<rparr>\<rparr>))"
| "handleMessage K src now message s = terminateOnError (Inl (UnknownMessage message), s)"

subsection \<open>The public operations\<close>

text \<open>
  \<^verbatim>\<open>start()\<close> up to its return: the check, the two collection infos, and the thread,
  which is joinable from then on.
\<close>

definition start :: "Constants \<Rightarrow> IoPerfCollection \<Rightarrow> unit result \<times> IoPerfCollection" where
  "start K s =
     (if mCurrCollectionEvent s \<noteq> INIT \<or> mCollectionThreadJoinable s
      then (Inl CannotStartMoreThanOnce, s)
      else (Inr (),
            s\<lparr>mBoottimeCollection :=
                \<lparr>interval = kBoottimeCollectionInterval K, maxCacheSize = SIZE_MAX K,
                 lastCollectionUptime = 0, records = []\<rparr>,
              mPeriodicCollection :=
                \<lparr>interval = kPeriodicCollectionInterval K,
                 maxCacheSize = kPeriodicCollectionBufferSize K,
                 lastCollectionUptime = 0, records = []\<rparr>,
              mCollectionThreadJoinable := True\<rparr>))"

text \<open>The first block of the thread that \<^verbatim>\<open>start()\<close> creates.\<close>

definition collectionThreadEntry :: "nsecs \<Rightarrow> IoPerfCollection \<Rightarrow> IoPerfCollection" where
  "collectionThreadEntry now s =
     (if mCurrCollectionEvent s \<noteq> INIT then s
      else sendMessage now (CollectionWhat BOOT_TIME)
             (s\<lparr>mCurrCollectionEvent := BOOT_TIME,
                mBoottimeCollection := (mBoottimeCollection s)\<lparr>lastCollectionUptime := now\<rparr>\<rparr>))"

text \<open>
  \<^verbatim>\<open>terminate()\<close>. Joining the thread is reduced to its effect on the object: the thread
  is no longer joinable.
\<close>

definition terminate :: "IoPerfCollection \<Rightarrow> IoPerfCollection" where
  "terminate s =
     (if mCurrCollectionEvent s = TERMINATED then s
      else (let s1 = s\<lparr>mCurrCollectionEvent := TERMINATED\<rparr>
            in if mCollectionThreadJoinable s1
               then (wake (removeMessages s1))\<lparr>mCollectionThreadJoinable := False\<rparr>
               else s1))"

definition onBootFinished :: "nsecs \<Rightarrow> IoPerfCollection \<Rightarrow> unit result \<times> IoPerfCollection" where
  "onBootFinished now s =
     (if mCurrCollectionEvent s \<noteq> BOOT_TIME
      then (Inl (NotBoottimeEvent (mCurrCollectionEvent s)), s)
      else (Inr (),
            sendMessage now (CollectionWhat PERIODIC)
              ((removeMessages s)
                 \<lparr>mCurrCollectionEvent := PERIODIC,
                  mPeriodicCollection :=
                    (mPeriodicCollection s)\<lparr>lastCollectionUptime := now\<rparr>\<rparr>)))"

definition startCustomCollection ::
  "Constants \<Rightarrow> nsecs \<Rightarrow> nsecs \<Rightarrow> nsecs \<Rightarrow> IoPerfCollection
     \<Rightarrow> unit result \<times> IoPerfCollection" where
  "startCustomCollection K now ival maxDuration s =
     (if ival < kMinCollectionInterval K \<or> maxDuration < kMinCollectionInterval K
      then (Inl BelowMinCollectionInterval, s)
      else if mCurrCollectionEvent s \<noteq> PERIODIC
      then (Inl (NotPeriodicEvent (mCurrCollectionEvent s)), s)
      else (Inr (),
            sendMessage now (CollectionWhat CUSTOM)
              ((sendMessageAtTime (int64_add now maxDuration) (SwitchWhat END_CUSTOM_COLLECTION)
                  (removeMessages
                     (s\<lparr>mCustomCollection :=
                          \<lparr>interval = ival, maxCacheSize = SIZE_MAX K,
                           lastCollectionUptime = now, records = []\<rparr>\<rparr>)))
                 \<lparr>mCurrCollectionEvent := CUSTOM\<rparr>)))"

text \<open>
  \<^verbatim>\<open>dumpCollectorsStatusLocked\<close> writes one line for each disabled collector, and
  \<^verbatim>\<open>endCustomCollection\<close> then writes the report. Of the file descriptor the model
  keeps whether writing to it succeeds.
\<close>

definition dumpCollectorsStatusLocked :: "bool \<Rightarrow> IoPerfCollection \<Rightarrow> unit result" where
  "dumpCollectorsStatusLocked fdWritable s =
     (if \<not> mUidIoStatsEnabled s \<and> \<not> fdWritable
        then Inl (FailedToWriteCollectorStatus ''UidIoStats'')
      else if \<not> mProcStatEnabled s \<and> \<not> fdWritable
        then Inl (FailedToWriteCollectorStatus ''ProcStat'')
      else if \<not> mProcPidStatEnabled s \<and> \<not> fdWritable
        then Inl (FailedToWriteCollectorStatus ''ProcPidStat'')
      else Inr ())"

definition endCustomCollection ::
  "nsecs \<Rightarrow> bool \<Rightarrow> IoPerfCollection \<Rightarrow> unit result \<times> IoPerfCollection" where
  "endCustomCollection now fdWritable s =
     (if mCurrCollectionEvent s \<noteq> CUSTOM then (Inl NoCustomCollectionRunning, s)
      else (let s1 = sendMessage now (SwitchWhat END_CUSTOM_COLLECTION) (removeMessages s)
            in case dumpCollectorsStatusLocked fdWritable s1 of
                 Inl e \<Rightarrow> (Inl e, s1)
               | Inr _ \<Rightarrow>
                   if \<not> fdWritable then (Inl FailedToWriteCustomReport, s1)
                   else (Inr (), s1)))"

subsection \<open>Sample inputs\<close>

text \<open>
  Concrete constants, samples and states, used to run the operations. The states are
  those the operations produce from a freshly constructed object.
\<close>

definition sampleConstants :: Constants where
  "sampleConstants =
     \<lparr>kBoottimeCollectionInterval = 1000000000, kPeriodicCollectionInterval = 10000000000,
      kPeriodicCollectionBufferSize = 180, kMinCollectionInterval = 1000000000,
      SIZE_MAX = 18446744073709551615\<rparr>"

definition sampleSources :: Sources where
  "sampleSources =
     \<lparr>wallClock = 1600000000,
      uidIoStatsCollect =
        Inr [\<lparr>uid = 1001234, ios = mkIoUsage 3000 0 500 0 20 0\<rparr>,
             \<lparr>uid = 1009, ios = mkIoUsage 0 0 0 30000 0 300\<rparr>],
      procStatCollect =
        Inr \<lparr>ioWaitTime = 1100, totalCpuTime = 26900, ioBlockedProcessesCnt = 5,
             totalProcessesCnt = 22\<rparr>,
      procPidStatCollect =
        Inr [\<lparr>puid = 1001234, processMajorFaults = 220, threads = [''D'', ''S'']\<rparr>,
             \<lparr>puid = 1009, processMajorFaults = 600, threads = [''S'']\<rparr>],
      iterationOrder = (\<lambda>entries. entries),
      getpwuid = [1009 \<mapsto> ''mount''],
      getNamesForUids = Some (\<lambda>u. if u = 1001234 then ''com.example.maps'' else [])\<rparr>"

definition constructed :: IoPerfCollection where
  "constructed =
     \<lparr>mCurrCollectionEvent = INIT, mBoottimeCollection = emptyCollectionInfo,
      mPeriodicCollection = emptyCollectionInfo, mCustomCollection = emptyCollectionInfo,
      mTopNStatsPerCategory = 2, mUidToPackageNameMapping = Map.empty, mLastMajorFaults = 0,
      mCollectionThreadJoinable = False, looperMessages = [], looperWakes = 0,
      mUidIoStatsEnabled = True, mProcStatEnabled = True, mProcPidStatEnabled = True\<rparr>"

definition bootState :: IoPerfCollection where
  "bootState = collectionThreadEntry 0 (snd (start sampleConstants constructed))"

definition periodicState :: IoPerfCollection where
  "periodicState = snd (onBootFinished 5000000000 bootState)"

definition customState :: IoPerfCollection where
  "customState =
     snd (startCustomCollection sampleConstants 7000000000 2000000000 60000000000 periodicState)"

text \<open>A periodic collection whose buffer size is 0.\<close>

definition zeroCacheConstants :: Constants where
  "zeroCacheConstants = sampleConstants\<lparr>kPeriodicCollectionBufferSize := 0\<rparr>"

definition zeroCacheState :: IoPerfCollection where
  "zeroCacheState =
     snd (onBootFinished 5000000000
       (collectionThreadEntry 0 (snd (start zeroCacheConstants constructed))))"

text \<open>A sample in which the only active UID has written and has read nothing.\<close>

definition writeOnlySources :: Sources where
  "writeOnlySources =
     sampleSources\<lparr>uidIoStatsCollect := Inr [\<lparr>uid = 1009, ios = mkIoUsage 0 0 0 30000 0 0\<rparr>]\<rparr>"

text \<open>
  A periodic collection whose cache holds one record at most, before and after its first
  collection.
\<close>

definition smallCacheConstants :: Constants where
  "smallCacheConstants = sampleConstants\<lparr>kPeriodicCollectionBufferSize := 1\<rparr>"

definition smallCacheState :: IoPerfCollection where
  "smallCacheState =
     snd (onBootFinished 5000000000
       (collectionThreadEntry 0 (snd (start smallCacheConstants constructed))))"

definition smallCacheState1 :: IoPerfCollection where
  "smallCacheState1 =
     handleMessage smallCacheConstants sampleSources 5000000000 (CollectionWhat PERIODIC)
       smallCacheState"

text \<open>The collector of \<^verbatim>\<open>/proc/stat\<close> fails to read.\<close>

definition failingSources :: Sources where
  "failingSources = sampleSources\<lparr>procStatCollect := Inl ''read failed''\<rparr>"

text \<open>
  The boot-time collection of an object whose collector of \<^verbatim>\<open>/proc/[pid]\<close> is disabled.
\<close>

definition partialState :: IoPerfCollection where
  "partialState =
     collectionThreadEntry 0
       (snd (start sampleConstants (constructed\<lparr>mProcPidStatEnabled := False\<rparr>)))"

text \<open>The custom collection after its first collection.\<close>

definition customState1 :: IoPerfCollection where
  "customState1 =
     handleMessage sampleConstants sampleSources 7000000000 (CollectionWhat CUSTOM) customState"

section \<open>Properties\<close>

subsection \<open>64-bit sums\<close>

lemma int64_add_in_range:
  assumes "- (2 ^ 63) \<le> a + b" and "a + b < 2 ^ 63"
  shows "int64_add a b = a + b"
proof -
  have "(word_of_int a :: 64 word) + word_of_int b = word_of_int (a + b)"
    by simp
  then show ?thesis
    using assms
    by (simp add: int64_add_def sint_sbintrunc' signed_take_bit_int_eq_self del: of_int_add)
qed

lemma int64_add_bounds: "- (2 ^ 63) \<le> int64_add a b" "int64_add a b < 2 ^ 63"
  using sint_ge [of "(word_of_int a :: 64 word) + word_of_int b"]
    sint_lt [of "(word_of_int a :: 64 word) + word_of_int b"]
  by (simp_all add: int64_add_def)

subsection \<open>The sample states\<close>

lemma bootState_unfold:
  "bootState = constructed
     \<lparr>mCurrCollectionEvent := BOOT_TIME,
      mBoottimeCollection :=
        \<lparr>interval = 1000000000, maxCacheSize = 18446744073709551615,
         lastCollectionUptime = 0, records = []\<rparr>,
      mPeriodicCollection :=
        \<lparr>interval = 10000000000, maxCacheSize = 180, lastCollectionUptime = 0, records = []\<rparr>,
      mCollectionThreadJoinable := True,
      looperMessages := [(0, CollectionWhat BOOT_TIME)]\<rparr>"
  by (simp add: bootState_def start_def constructed_def collectionThreadEntry_def
      sendMessage_def sendMessageAtTime_def sampleConstants_def)

lemma periodicState_unfold:
  "periodicState = bootState
     \<lparr>mCurrCollectionEvent := PERIODIC,
      mPeriodicCollection :=
        \<lparr>interval = 10000000000, maxCacheSize = 180, lastCollectionUptime = 5000000000,
         records = []\<rparr>,
      looperMessages := [(5000000000, CollectionWhat PERIODIC)]\<rparr>"
  by (simp add: periodicState_def onBootFinished_def bootState_unfold constructed_def
      sendMessage_def sendMessageAtTime_def removeMessages_def)

lemma customState_unfold:
  "customState = periodicState
     \<lparr>mCurrCollectionEvent := CUSTOM,
      mCustomCollection :=
        \<lparr>interval = 2000000000, maxCacheSize = 18446744073709551615,
         lastCollectionUptime = 7000000000, records = []\<rparr>,
      looperMessages := [(7000000000, CollectionWhat CUSTOM),
                         (67000000000, SwitchWhat END_CUSTOM_COLLECTION)]\<rparr>"
  by (simp add: customState_def startCustomCollection_def periodicState_unfold bootState_unfold
      constructed_def sampleConstants_def sendMessage_def sendMessageAtTime_def removeMessages_def
      int64_add_in_range)

lemmas sample_states = customState_unfold periodicState_unfold bootState_unfold constructed_def

lemma zeroCacheState_unfold:
  "zeroCacheState =
     periodicState\<lparr>mPeriodicCollection := (mPeriodicCollection periodicState)\<lparr>maxCacheSize := 0\<rparr>\<rparr>"
  by (simp add: zeroCacheState_def zeroCacheConstants_def sampleConstants_def start_def
      constructed_def collectionThreadEntry_def onBootFinished_def sendMessage_def
      sendMessageAtTime_def removeMessages_def periodicState_unfold bootState_unfold)

lemma partialState_unfold: "partialState = bootState\<lparr>mProcPidStatEnabled := False\<rparr>"
  by (simp add: partialState_def sampleConstants_def start_def constructed_def
      collectionThreadEntry_def sendMessage_def sendMessageAtTime_def bootState_unfold)

lemma smallCacheState_unfold:
  "smallCacheState = constructed
     \<lparr>mCurrCollectionEvent := PERIODIC,
      mBoottimeCollection :=
        \<lparr>interval = 1000000000, maxCacheSize = 18446744073709551615,
         lastCollectionUptime = 0, records = []\<rparr>,
      mPeriodicCollection :=
        \<lparr>interval = 10000000000, maxCacheSize = 1, lastCollectionUptime = 5000000000,
         records = []\<rparr>,
      mCollectionThreadJoinable := True,
      looperMessages := [(5000000000, CollectionWhat PERIODIC)]\<rparr>"
  by (simp add: smallCacheState_def smallCacheConstants_def sampleConstants_def start_def
      constructed_def collectionThreadEntry_def onBootFinished_def sendMessage_def
      sendMessageAtTime_def removeMessages_def)

lemma sampleSources_succeed:
  "\<not> isl (procStatCollect sampleSources)" "\<not> isl (procPidStatCollect sampleSources)"
  "\<not> isl (uidIoStatsCollect sampleSources)"
  by (simp_all add: sampleSources_def)

lemma partialState_facts:
  "mCurrCollectionEvent partialState = BOOT_TIME"
  "maxCacheSize (mBoottimeCollection partialState) = 18446744073709551615"
  "interval (mBoottimeCollection partialState) = 1000000000"
  "records (mBoottimeCollection partialState) = []"
  "mUidIoStatsEnabled partialState" "mProcStatEnabled partialState"
  "\<not> mProcPidStatEnabled partialState"
  by (simp_all add: partialState_unfold sample_states)

lemma replicate_two: "replicate 2 x = [x, x]"
  by (simp add: numeral_2_eq_2)

lemma topN_bootState: "mTopNStatsPerCategory bootState = 2" "mUidIoStatsEnabled bootState"
  "mProcPidStatEnabled bootState" "mUidToPackageNameMapping bootState = Map.empty"
  "mLastMajorFaults bootState = 0"
  by (simp_all add: sample_states)

text \<open>The facts that evaluate the two collections with rankings on the samples.\<close>

lemmas uid_eval = collectUidIoPerfDataLocked_def topN_bootState Let_def
  emptyUidIoPerfData_def isZero_def mkIoUsage_def tempUsage_def sumReadBytes_def
  sumWriteBytes_def uidIoStats_def replicate_two sampleSources_def

lemmas proc_eval = collectProcessIoPerfDataLocked_def topN_bootState Let_def
  emptyProcessIoPerfData_def tempStats_def processIoStats_def replicate_two
  getUidProcessStats_def sampleSources_def

subsection \<open>What a collection changes\<close>

lemma collectSystem_isl:
  "isl (fst (collectSystemIoPerfDataLocked src s out)) \<longleftrightarrow>
     mProcStatEnabled s \<and> isl (procStatCollect src)"
  by (simp add: collectSystemIoPerfDataLocked_def split: sum.splits)

lemma collectProcess_state:
  "collectProcessIoPerfDataLocked src s out = (r, s', out') \<Longrightarrow>
     s' = s\<lparr>mUidToPackageNameMapping := mUidToPackageNameMapping s',
            mLastMajorFaults := mLastMajorFaults s'\<rparr>"
  by (auto simp: collectProcessIoPerfDataLocked_def Let_def split: if_splits sum.splits)

lemma collectProcess_isl:
  "isl (fst (collectProcessIoPerfDataLocked src s out)) \<longleftrightarrow>
     mProcPidStatEnabled s \<and> isl (procPidStatCollect src)"
  by (simp add: collectProcessIoPerfDataLocked_def Let_def split: sum.splits)

lemma collectProcess_enabled:
  "collectProcessIoPerfDataLocked src s out = (r, s', out') \<Longrightarrow>
     mUidIoStatsEnabled s' = mUidIoStatsEnabled s"
  by (auto simp: collectProcessIoPerfDataLocked_def Let_def split: if_splits sum.splits)

lemma collectUid_state:
  "collectUidIoPerfDataLocked src s out = (r, s', out') \<Longrightarrow>
     s' = s\<lparr>mUidToPackageNameMapping := mUidToPackageNameMapping s'\<rparr>"
  by (auto simp: collectUidIoPerfDataLocked_def Let_def split: if_splits sum.splits)

lemma collectUid_isl:
  "isl (fst (collectUidIoPerfDataLocked src s out)) \<longleftrightarrow>
     mUidIoStatsEnabled s \<and> isl (uidIoStatsCollect src)"
  by (simp add: collectUidIoPerfDataLocked_def Let_def split: sum.splits)

lemma disabled_collectors_leave_defaults:
  "\<not> mProcStatEnabled s \<Longrightarrow>
     collectSystemIoPerfDataLocked src s out = (r, out') \<Longrightarrow> out' = out"
  "\<not> mProcPidStatEnabled s \<Longrightarrow>
     collectProcessIoPerfDataLocked src s pout = (r', s', pout') \<Longrightarrow> pout' = pout"
  "\<not> mUidIoStatsEnabled s \<Longrightarrow>
     collectUidIoPerfDataLocked src s uout = (r'', s'', uout') \<Longrightarrow> uout' = uout"
  by (auto simp: collectSystemIoPerfDataLocked_def collectProcessIoPerfDataLocked_def
      collectUidIoPerfDataLocked_def)

lemma deref_names_faults [simp]:
  "deref info (s\<lparr>mUidToPackageNameMapping := n\<rparr>) = deref info s"
  "deref info (s\<lparr>mLastMajorFaults := f\<rparr>) = deref info s"
  by (cases info; simp)+

lemma deref_assign [simp]: "deref info (assign info x s) = x"
  by (cases info) simp_all

lemma assign_frame [simp]:
  "mCurrCollectionEvent (assign info x s) = mCurrCollectionEvent s"
  "looperMessages (assign info x s) = looperMessages s"
  "looperWakes (assign info x s) = looperWakes s"
  by (cases info; simp)+

lemma cacheRecord_frame [simp]:
  "interval (cacheRecord r i) = interval i"
  "maxCacheSize (cacheRecord r i) = maxCacheSize i"
  "lastCollectionUptime (cacheRecord r i) = lastCollectionUptime i"
  by (simp_all add: cacheRecord_def Let_def)

lemma records_cacheRecord:
  "records (cacheRecord rcd info) =
     (if length (records info) > maxCacheSize info then tl (records info) else records info)
     @ [rcd]"
  by (simp add: cacheRecord_def Let_def)

text \<open>
  Whatever \<^verbatim>\<open>collectLocked\<close> returns, it has touched the name mapping and the last
  count of major faults at most, and, when it succeeds, the records of its collection.
\<close>

lemma collectLocked_cases:
  assumes "collectLocked src info s = (r, s')"
  shows "\<exists>names faults.
           (isl r \<and> s' = s\<lparr>mUidToPackageNameMapping := names, mLastMajorFaults := faults\<rparr>) \<or>
           (\<exists>rcd. r = Inr () \<and>
              s' = assign info (cacheRecord rcd (deref info s))
                     (s\<lparr>mUidToPackageNameMapping := names, mLastMajorFaults := faults\<rparr>))"
proof (cases "\<not> mUidIoStatsEnabled s \<and> \<not> mProcStatEnabled s \<and> \<not> mProcPidStatEnabled s")
  case True
  with assms have "r = Inl NoCollectorsEnabled" "s' = s"
    by (auto simp: collectLocked_def)
  then have "isl r \<and> s' = s\<lparr>mUidToPackageNameMapping := mUidToPackageNameMapping s,
      mLastMajorFaults := mLastMajorFaults s\<rparr>"
    by simp
  then show ?thesis by blast
next
  case False
  obtain r0 sys where sys: "collectSystemIoPerfDataLocked src s emptySystemIoPerfData = (r0, sys)"
    by (cases "collectSystemIoPerfDataLocked src s emptySystemIoPerfData")
  obtain r1 s1 proc where
    proc: "collectProcessIoPerfDataLocked src s emptyProcessIoPerfData = (r1, s1, proc)"
    by (cases "collectProcessIoPerfDataLocked src s emptyProcessIoPerfData")
  obtain r2 s2 uidIo where
    uidIo: "collectUidIoPerfDataLocked src s1 emptyUidIoPerfData = (r2, s2, uidIo)"
    by (cases "collectUidIoPerfDataLocked src s1 emptyUidIoPerfData")
  have s1: "s1 = s\<lparr>mUidToPackageNameMapping := mUidToPackageNameMapping s1,
            mLastMajorFaults := mLastMajorFaults s1\<rparr>"
    by (rule collectProcess_state [OF proc])
  have s2: "s2 = s1\<lparr>mUidToPackageNameMapping := mUidToPackageNameMapping s2\<rparr>"
    by (rule collectUid_state [OF uidIo])
  have s2': "s2 = s\<lparr>mUidToPackageNameMapping := mUidToPackageNameMapping s2,
            mLastMajorFaults := mLastMajorFaults s1\<rparr>"
    by (subst s2, subst s1) simp
  have same: "s = s\<lparr>mUidToPackageNameMapping := mUidToPackageNameMapping s,
      mLastMajorFaults := mLastMajorFaults s\<rparr>"
    by simp
  show ?thesis
  proof (cases r0)
    case (Inl e)
    with assms False sys have "isl r" "s' = s"
      by (auto simp: collectLocked_def)
    with same show ?thesis by metis
  next
    case r0: (Inr u0)
    show ?thesis
    proof (cases r1)
      case (Inl e)
      with assms False sys r0 proc have "isl r" "s' = s1"
        by (auto simp: collectLocked_def)
      with s1 show ?thesis by metis
    next
      case r1: (Inr u1)
      show ?thesis
      proof (cases r2)
        case (Inl e)
        with assms False sys r0 proc r1 uidIo have "isl r" "s' = s2"
          by (auto simp: collectLocked_def)
        with s2' show ?thesis by metis
      next
        case r2: (Inr u2)
        with assms False sys r0 proc r1 uidIo have "r = Inr ()"
          and "s' = assign info (cacheRecord \<lparr>time = wallClock src, uidIoPerfData = uidIo,
                           systemIoPerfData = sys, processIoPerfData = proc\<rparr> (deref info s2)) s2"
          by (auto simp: collectLocked_def)
        moreover have "deref info s2 = deref info s"
          by (subst s2') simp
        ultimately show ?thesis using s2' by metis
      qed
    qed
  qed
qed

lemma collectLocked_frame:
  assumes "collectLocked src info s = (r, s')"
  shows "mCurrCollectionEvent s' = mCurrCollectionEvent s"
    and "looperMessages s' = looperMessages s"
    and "looperWakes s' = looperWakes s"
    and "interval (deref info s') = interval (deref info s)"
    and "maxCacheSize (deref info s') = maxCacheSize (deref info s)"
    and "lastCollectionUptime (deref info s') = lastCollectionUptime (deref info s)"
proof -
  from collectLocked_cases [OF assms] obtain names faults where
    "s' = s\<lparr>mUidToPackageNameMapping := names, mLastMajorFaults := faults\<rparr> \<or>
     (\<exists>rcd. s' = assign info (cacheRecord rcd (deref info s))
        (s\<lparr>mUidToPackageNameMapping := names, mLastMajorFaults := faults\<rparr>))"
    by blast
  then consider
    (failed) "s' = s\<lparr>mUidToPackageNameMapping := names, mLastMajorFaults := faults\<rparr>"
    | (cached) rcd where "s' = assign info (cacheRecord rcd (deref info s))
        (s\<lparr>mUidToPackageNameMapping := names, mLastMajorFaults := faults\<rparr>)"
    by blast
  then show "mCurrCollectionEvent s' = mCurrCollectionEvent s"
    and "looperMessages s' = looperMessages s"
    and "looperWakes s' = looperWakes s"
    and "interval (deref info s') = interval (deref info s)"
    and "maxCacheSize (deref info s') = maxCacheSize (deref info s)"
    and "lastCollectionUptime (deref info s') = lastCollectionUptime (deref info s)"
    by (cases; simp)+
qed

lemma collectLocked_success:
  assumes "collectLocked src info s = (Inr u, s')"
  shows "\<exists>sys s1 proc s2 uidIo.
           collectSystemIoPerfDataLocked src s emptySystemIoPerfData = (Inr (), sys) \<and>
           collectProcessIoPerfDataLocked src s emptyProcessIoPerfData = (Inr (), s1, proc) \<and>
           collectUidIoPerfDataLocked src s1 emptyUidIoPerfData = (Inr (), s2, uidIo) \<and>
           s' = assign info
                  (cacheRecord
                     \<lparr>time = wallClock src, uidIoPerfData = uidIo, systemIoPerfData = sys,
                      processIoPerfData = proc\<rparr> (deref info s2)) s2"
  using assms
  by (auto simp: collectLocked_def split: if_splits prod.splits sum.splits)

text \<open>When \<^verbatim>\<open>collectLocked\<close> fails.\<close>

lemma collectLocked_isl:
  "isl (fst (collectLocked src info s)) \<longleftrightarrow>
     (\<not> mUidIoStatsEnabled s \<and> \<not> mProcStatEnabled s \<and> \<not> mProcPidStatEnabled s) \<or>
     (mProcStatEnabled s \<and> isl (procStatCollect src)) \<or>
     (mProcPidStatEnabled s \<and> isl (procPidStatCollect src)) \<or>
     (mUidIoStatsEnabled s \<and> isl (uidIoStatsCollect src))"
proof -
  obtain r0 sys where sys: "collectSystemIoPerfDataLocked src s emptySystemIoPerfData = (r0, sys)"
    by (cases "collectSystemIoPerfDataLocked src s emptySystemIoPerfData")
  obtain r1 s1 proc where
    proc: "collectProcessIoPerfDataLocked src s emptyProcessIoPerfData = (r1, s1, proc)"
    by (cases "collectProcessIoPerfDataLocked src s emptyProcessIoPerfData")
  obtain r2 s2 uidIo where
    uidIo: "collectUidIoPerfDataLocked src s1 emptyUidIoPerfData = (r2, s2, uidIo)"
    by (cases "collectUidIoPerfDataLocked src s1 emptyUidIoPerfData")
  have r0: "isl r0 \<longleftrightarrow> mProcStatEnabled s \<and> isl (procStatCollect src)"
    using collectSystem_isl [of src s emptySystemIoPerfData] sys by simp
  have r1: "isl r1 \<longleftrightarrow> mProcPidStatEnabled s \<and> isl (procPidStatCollect src)"
    using collectProcess_isl [of src s emptyProcessIoPerfData] proc by simp
  have "isl r2 \<longleftrightarrow> mUidIoStatsEnabled s1 \<and> isl (uidIoStatsCollect src)"
    using collectUid_isl [of src s1 emptyUidIoPerfData] uidIo by simp
  then have r2: "isl r2 \<longleftrightarrow> mUidIoStatsEnabled s \<and> isl (uidIoStatsCollect src)"
    using collectProcess_enabled [OF proc] by simp
  have "isl (fst (collectLocked src info s)) \<longleftrightarrow>
     (\<not> mUidIoStatsEnabled s \<and> \<not> mProcStatEnabled s \<and> \<not> mProcPidStatEnabled s) \<or>
     isl r0 \<or> isl r1 \<or> isl r2"
    by (cases r0; cases r1; cases r2) (simp_all add: collectLocked_def sys proc uidIo)
  with r0 r1 r2 show ?thesis by simp
qed

lemma tick_succeeds:
  assumes "mCurrCollectionEvent s = event"
    and "maxCacheSize (deref info s) \<noteq> 0"
    and "kMinCollectionInterval K \<le> interval (deref info s)"
    and "\<not> isl (fst (collectLocked src info s))"
  shows "fst (processCollectionEvent K src event info s) = Inr ()"
  using assms
  by (cases "collectLocked src info s")
     (auto simp: processCollectionEvent_def Let_def split: sum.splits)

text \<open>
  What handling the message of the current collection event does to the object, when the
  configuration is valid: it ends the collection if \<^verbatim>\<open>collectLocked\<close> fails, and caches
  a record and schedules the next collection if it succeeds.
\<close>

lemma handleMessage_tick:
  assumes "(event, info) \<in> {(BOOT_TIME, BoottimeRef), (PERIODIC, PeriodicRef), (CUSTOM, CustomRef)}"
  shows "handleMessage K src now (CollectionWhat event) s
           = terminateOnError (processCollectionEvent K src event info s)"
  using assms by auto

lemma tick_failure_state:
  assumes "mCurrCollectionEvent s = event"
    and "(event, info) \<in> {(BOOT_TIME, BoottimeRef), (PERIODIC, PeriodicRef), (CUSTOM, CustomRef)}"
    and "maxCacheSize (deref info s) \<noteq> 0"
    and "kMinCollectionInterval K \<le> interval (deref info s)"
    and "isl (fst (collectLocked src info s))"
  shows "\<exists>names faults.
           handleMessage K src now (CollectionWhat event) s
             = s\<lparr>mUidToPackageNameMapping := names, mLastMajorFaults := faults,
                 mCurrCollectionEvent := TERMINATED, looperMessages := [],
                 looperWakes := Suc (looperWakes s)\<rparr>"
proof -
  obtain r s1 where c: "collectLocked src info s = (r, s1)"
    by (cases "collectLocked src info s")
  with assms(5) obtain e where r: "r = Inl e"
    by (cases r) auto
  from collectLocked_cases [OF c] r obtain names faults where
    s1: "s1 = s\<lparr>mUidToPackageNameMapping := names, mLastMajorFaults := faults\<rparr>"
    by auto
  have "processCollectionEvent K src event info s = (Inl (CollectionFailed event e), s1)"
    using assms(1,3,4) c r by (simp add: processCollectionEvent_def)
  then have "handleMessage K src now (CollectionWhat event) s
      = s\<lparr>mUidToPackageNameMapping := names, mLastMajorFaults := faults,
                 mCurrCollectionEvent := TERMINATED, looperMessages := [],
                 looperWakes := Suc (looperWakes s)\<rparr>"
    by (simp add: handleMessage_tick [OF assms(2)] s1 wake_def removeMessages_def)
  then show ?thesis by blast
qed

lemma tick_success_state:
  assumes "mCurrCollectionEvent s = event"
    and "(event, info) \<in> {(BOOT_TIME, BoottimeRef), (PERIODIC, PeriodicRef), (CUSTOM, CustomRef)}"
    and "maxCacheSize (deref info s) \<noteq> 0"
    and "kMinCollectionInterval K \<le> interval (deref info s)"
    and "\<not> isl (fst (collectLocked src info s))"
  shows "\<exists>rcd names faults.
           time rcd = wallClock src \<and>
           (\<not> mProcStatEnabled s \<longrightarrow> systemIoPerfData rcd = emptySystemIoPerfData) \<and>
           (\<not> mProcPidStatEnabled s \<longrightarrow> processIoPerfData rcd = emptyProcessIoPerfData) \<and>
           (\<not> mUidIoStatsEnabled s \<longrightarrow> uidIoPerfData rcd = emptyUidIoPerfData) \<and>
           handleMessage K src now (CollectionWhat event) s
             = (assign info
                  ((cacheRecord rcd (deref info s))
                     \<lparr>lastCollectionUptime :=
                        int64_add (lastCollectionUptime (deref info s)) (interval (deref info s))\<rparr>) s)
                \<lparr>mUidToPackageNameMapping := names, mLastMajorFaults := faults,
                 looperMessages :=
                   enqueueMessage (int64_add (lastCollectionUptime (deref info s)) (interval (deref info s)))
                     (CollectionWhat event) (looperMessages s)\<rparr>"
proof -
  obtain r s1 where c: "collectLocked src info s = (r, s1)"
    by (cases "collectLocked src info s")
  with assms(5) have r: "r = Inr ()"
    by (cases r) auto
  from collectLocked_success [OF c [unfolded r]] obtain sys p1 proc p2 uidIo where
    sys: "collectSystemIoPerfDataLocked src s emptySystemIoPerfData = (Inr (), sys)" and
    proc: "collectProcessIoPerfDataLocked src s emptyProcessIoPerfData = (Inr (), p1, proc)" and
    uidIo: "collectUidIoPerfDataLocked src p1 emptyUidIoPerfData = (Inr (), p2, uidIo)" and
    s1: "s1 = assign info
                  (cacheRecord
                     \<lparr>time = wallClock src, uidIoPerfData = uidIo, systemIoPerfData = sys,
                      processIoPerfData = proc\<rparr> (deref info p2)) p2"
    by blast
  let ?rcd = "\<lparr>time = wallClock src, uidIoPerfData = uidIo, systemIoPerfData = sys,
                      processIoPerfData = proc\<rparr>"
  have p1: "p1 = s\<lparr>mUidToPackageNameMapping := mUidToPackageNameMapping p1,
            mLastMajorFaults := mLastMajorFaults p1\<rparr>"
    by (rule collectProcess_state [OF proc])
  have p2: "p2 = p1\<lparr>mUidToPackageNameMapping := mUidToPackageNameMapping p2\<rparr>"
    by (rule collectUid_state [OF uidIo])
  have p2': "p2 = s\<lparr>mUidToPackageNameMapping := mUidToPackageNameMapping p2,
            mLastMajorFaults := mLastMajorFaults p1\<rparr>"
    by (subst p2, subst p1) simp
  have d: "deref info p2 = deref info s"
    by (subst p2') simp
  have e1: "mUidIoStatsEnabled p1 = mUidIoStatsEnabled s"
    by (rule collectProcess_enabled [OF proc])
  have defaults:
    "\<not> mProcStatEnabled s \<longrightarrow> sys = emptySystemIoPerfData"
    "\<not> mProcPidStatEnabled s \<longrightarrow> proc = emptyProcessIoPerfData"
    "\<not> mUidIoStatsEnabled s \<longrightarrow> uidIo = emptyUidIoPerfData"
    using disabled_collectors_leave_defaults(1) [OF _ sys]
      disabled_collectors_leave_defaults(2) [OF _ proc]
      disabled_collectors_leave_defaults(3) [OF _ uidIo] e1 by auto
  have "processCollectionEvent K src event info s
      = (Inr (), sendMessageAtTime
          (int64_add (lastCollectionUptime (deref info s1)) (interval (deref info s1))) (CollectionWhat event)
          (assign info ((deref info s1)\<lparr>lastCollectionUptime :=
             int64_add (lastCollectionUptime (deref info s1)) (interval (deref info s1))\<rparr>) s1))"
    using assms(1,3,4) c r by (simp add: processCollectionEvent_def Let_def)
  then have "handleMessage K src now (CollectionWhat event) s
      = sendMessageAtTime
          (int64_add (lastCollectionUptime (deref info s1)) (interval (deref info s1))) (CollectionWhat event)
          (assign info ((deref info s1)\<lparr>lastCollectionUptime :=
             int64_add (lastCollectionUptime (deref info s1)) (interval (deref info s1))\<rparr>) s1)"
    by (simp add: handleMessage_tick [OF assms(2)])
  also have "\<dots> = (assign info
                  ((cacheRecord ?rcd (deref info s))
                     \<lparr>lastCollectionUptime :=
                        int64_add (lastCollectionUptime (deref info s)) (interval (deref info s))\<rparr>) s)
                \<lparr>mUidToPackageNameMapping := mUidToPackageNameMapping p2,
                 mLastMajorFaults := mLastMajorFaults p1,
                 looperMessages :=
                   enqueueMessage (int64_add (lastCollectionUptime (deref info s)) (interval (deref info s)))
                     (CollectionWhat event) (looperMessages s)\<rparr>"
    unfolding s1 d by (subst (1 2 3 4) p2', cases info) (simp_all add: sendMessageAtTime_def)
  finally show ?thesis
    using defaults by (intro exI [of _ ?rcd]) auto
qed

lemma smallCacheState1_facts:
  "mCurrCollectionEvent smallCacheState1 = PERIODIC"
  "maxCacheSize (mPeriodicCollection smallCacheState1) = 1"
  "length (records (mPeriodicCollection smallCacheState1)) = 1"
  "mProcStatEnabled smallCacheState1"
proof -
  have "\<not> isl (fst (collectLocked sampleSources PeriodicRef smallCacheState))"
    by (simp add: collectLocked_isl sampleSources_succeed smallCacheState_unfold constructed_def)
  from tick_success_state [of smallCacheState PERIODIC PeriodicRef smallCacheConstants
      sampleSources 5000000000, OF _ _ _ _ this]
  obtain rcd names faults where
    eq: "smallCacheState1 = (assign PeriodicRef
        ((cacheRecord rcd (deref PeriodicRef smallCacheState))
           \<lparr>lastCollectionUptime :=
              int64_add (lastCollectionUptime (deref PeriodicRef smallCacheState))
                (interval (deref PeriodicRef smallCacheState))\<rparr>) smallCacheState)
      \<lparr>mUidToPackageNameMapping := names, mLastMajorFaults := faults,
       looperMessages :=
         enqueueMessage (int64_add (lastCollectionUptime (deref PeriodicRef smallCacheState))
             (interval (deref PeriodicRef smallCacheState)))
           (CollectionWhat PERIODIC) (looperMessages smallCacheState)\<rparr>"
    unfolding smallCacheState1_def
    by (auto simp: smallCacheState_unfold smallCacheConstants_def sampleConstants_def)
  show "mCurrCollectionEvent smallCacheState1 = PERIODIC"
    "maxCacheSize (mPeriodicCollection smallCacheState1) = 1"
    "length (records (mPeriodicCollection smallCacheState1)) = 1"
    "mProcStatEnabled smallCacheState1"
    unfolding eq
    by (simp_all add: smallCacheState_unfold records_cacheRecord constructed_def)
qed

lemma customState1_records:
  "mCurrCollectionEvent customState1 = CUSTOM"
  "length (records (mCustomCollection customState1)) = 1"
  "mPeriodicCollection customState1 = mPeriodicCollection customState"
proof -
  have "\<not> isl (fst (collectLocked sampleSources CustomRef customState))"
    by (simp add: collectLocked_isl sampleSources_succeed sample_states)
  from tick_success_state [of customState CUSTOM CustomRef sampleConstants
      sampleSources 7000000000, OF _ _ _ _ this]
  obtain rcd names faults where
    eq: "customState1 = (assign CustomRef
        ((cacheRecord rcd (deref CustomRef customState))
           \<lparr>lastCollectionUptime :=
              int64_add (lastCollectionUptime (deref CustomRef customState))
                (interval (deref CustomRef customState))\<rparr>) customState)
      \<lparr>mUidToPackageNameMapping := names, mLastMajorFaults := faults,
       looperMessages :=
         enqueueMessage (int64_add (lastCollectionUptime (deref CustomRef customState))
             (interval (deref CustomRef customState)))
           (CollectionWhat CUSTOM) (looperMessages customState)\<rparr>"
    unfolding customState1_def
    by (auto simp: sample_states sampleConstants_def)
  show "mCurrCollectionEvent customState1 = CUSTOM"
    "length (records (mCustomCollection customState1)) = 1"
    "mPeriodicCollection customState1 = mPeriodicCollection customState"
    unfolding eq by (simp_all add: sample_states records_cacheRecord)
qed

subsection \<open>The cache of records\<close>

text \<open>
  Claim C1 says that the cache never holds more than \<^verbatim>\<open>maxCacheSize\<close> records. The code
  erases the oldest record only when the cache already holds more than \<^verbatim>\<open>maxCacheSize\<close>
  records, so a successful \<^verbatim>\<open>collectLocked\<close> on a cache that holds exactly
  \<^verbatim>\<open>maxCacheSize\<close> records evicts nothing: the cache then holds \<^verbatim>\<open>maxCacheSize + 1\<close>
  records, the old ones and the new one. From then on each collection evicts the oldest
  record and the cache stays at \<^verbatim>\<open>maxCacheSize + 1\<close> records.
\<close>

theorem cache_grows_past_maxCacheSize:
  assumes "collectLocked src info s = (Inr u, s')"
  shows "(length (records (deref info s)) = maxCacheSize (deref info s) \<longrightarrow>
            length (records (deref info s')) = maxCacheSize (deref info s') + 1 \<and>
            butlast (records (deref info s')) = records (deref info s)) \<and>
         (length (records (deref info s)) = maxCacheSize (deref info s) + 1 \<longrightarrow>
            length (records (deref info s')) = maxCacheSize (deref info s') + 1 \<and>
            butlast (records (deref info s')) = tl (records (deref info s)))"
proof -
  from collectLocked_cases [OF assms(1)] obtain names faults rcd where
    "s' = assign info (cacheRecord rcd (deref info s))
            (s\<lparr>mUidToPackageNameMapping := names, mLastMajorFaults := faults\<rparr>)"
    by auto
  then have "deref info s' = cacheRecord rcd (deref info s)"
    by simp
  then show ?thesis
    by (simp add: records_cacheRecord)
qed

theorem cache_grows_past_maxCacheSize_witness:
  "maxCacheSize (mPeriodicCollection smallCacheState1) = 1 \<and>
   length (records (mPeriodicCollection smallCacheState1)) = 1 \<and>
   fst (collectLocked sampleSources PeriodicRef smallCacheState1) = Inr () \<and>
   maxCacheSize (mPeriodicCollection
     (snd (collectLocked sampleSources PeriodicRef smallCacheState1))) = 1 \<and>
   length (records (mPeriodicCollection
     (snd (collectLocked sampleSources PeriodicRef smallCacheState1)))) = 2"
proof -
  have "\<not> isl (fst (collectLocked sampleSources PeriodicRef smallCacheState1))"
    by (simp add: collectLocked_isl sampleSources_succeed smallCacheState1_facts)
  then have ok: "fst (collectLocked sampleSources PeriodicRef smallCacheState1) = Inr ()"
    by (cases "fst (collectLocked sampleSources PeriodicRef smallCacheState1)") auto
  then have c: "collectLocked sampleSources PeriodicRef smallCacheState1
      = (Inr (), snd (collectLocked sampleSources PeriodicRef smallCacheState1))"
    by (metis prod.collapse)
  have "length (records (deref PeriodicRef smallCacheState1))
      = maxCacheSize (deref PeriodicRef smallCacheState1)"
    by (simp add: smallCacheState1_facts)
  with cache_grows_past_maxCacheSize [OF c] collectLocked_frame(5) [OF c] ok
  show ?thesis
    by (simp add: smallCacheState1_facts)
qed

subsection \<open>The rankings\<close>

text \<open>The bounded insertion keeps the length and the descending order.\<close>

lemma length_topNInsert [simp]: "length (topNInsert key cur xs) = length xs"
  by (induction xs) auto

lemma set_topNInsert: "set (topNInsert key cur xs) \<subseteq> insert cur (set xs)"
proof (induction xs)
  case Nil
  then show ?case by simp
next
  case (Cons x xs)
  have "set (butlast (x # xs)) \<subseteq> set (x # xs)"
    by (meson in_set_butlastD subsetI)
  with Cons show ?case by auto
qed

lemma sorted_butlast_desc:
  "sorted_wrt R xs \<Longrightarrow> sorted_wrt R (butlast xs)"
  by (induction xs) (auto dest: in_set_butlastD)

lemma sorted_topNInsert:
  assumes "sorted_wrt (\<lambda>a b. key b \<le> key a) xs"
  shows "sorted_wrt (\<lambda>a b. key b \<le> key a) (topNInsert key cur xs)"
  using assms
proof (induction xs)
  case Nil
  then show ?case by simp
next
  case (Cons x xs)
  show ?case
  proof (cases "key cur < key x")
    case True
    have "\<forall>y\<in>set (topNInsert key cur xs). key y \<le> key x"
      using set_topNInsert [of key cur xs] Cons.prems True by auto
    with Cons True show ?thesis by simp
  next
    case False
    have "\<forall>y\<in>set (butlast (x # xs)). key y \<le> key cur"
      using Cons.prems False by (auto dest!: in_set_butlastD)
    moreover have "sorted_wrt (\<lambda>a b. key b \<le> key a) (butlast (x # xs))"
      by (rule sorted_butlast_desc [OF Cons.prems])
    ultimately show ?thesis using False by simp
  qed
qed

lemma topNInsert_unchanged:
  "\<forall>x\<in>set xs. key cur < key x \<Longrightarrow> topNInsert key cur xs = xs"
  by (induction xs) auto

lemma mset_topNInsert:
  "\<exists>x\<in>set xs. key x \<le> key cur \<Longrightarrow>
     mset (topNInsert key cur xs) = add_mset cur (mset (butlast xs))"
proof (induction xs)
  case Nil
  then show ?case by simp
next
  case (Cons x xs)
  show ?case
  proof (cases "key cur < key x")
    case True
    with Cons.prems have ex: "\<exists>x\<in>set xs. key x \<le> key cur" by auto
    then have "xs \<noteq> []" by auto
    with Cons.IH [OF ex] True show ?thesis by simp
  next
    case False
    then show ?thesis by simp
  qed
qed

lemma last_is_minimum:
  "sorted_wrt (\<lambda>a b. key b \<le> key (a::'a)) xs \<Longrightarrow> x \<in> set xs \<Longrightarrow> key (last xs) \<le> (key x :: 'k::linorder)"
proof (induction xs)
  case Nil
  then show ?case by simp
next
  case (Cons y ys)
  then show ?case by (cases "ys = []") auto
qed

text \<open>
  The candidates start as \<open>N\<close> copies of a placeholder. When no entity ranks below the
  placeholder, the placeholders that remain are at the end.
\<close>

lemma butlast_Cons_replicate: "butlast (x # replicate j x) = replicate j x"
proof -
  have "x # replicate j x = replicate j x @ [x]"
    by (simp add: replicate_append_same)
  then show ?thesis
    by (simp only: butlast_snoc)
qed

lemma butlast_append_Cons_replicate:
  "butlast (es @ x # replicate j x) = es @ replicate j x"
  using butlast_Cons_replicate [of x j] by (simp add: butlast_append)

lemma topNInsert_placeholders:
  assumes "key temp \<le> key cur"
  shows "\<exists>es' k'. topNInsert key cur (es @ replicate k temp) = es' @ replicate k' temp \<and>
           set es' \<subseteq> insert cur (set es)"
proof (induction es)
  case Nil
  show ?case
  proof (cases k)
    case 0
    then show ?thesis by simp
  next
    case (Suc j)
    have "\<not> key cur < key temp"
      using assms by simp
    then have "topNInsert key cur (temp # replicate j temp)
        = cur # butlast (temp # replicate j temp)"
      by simp
    then have "topNInsert key cur ([] @ replicate k temp) = [cur] @ replicate j temp"
      by (simp add: Suc butlast_Cons_replicate del: butlast.simps)
    moreover have "set [cur] \<subseteq> insert cur (set [])"
      by simp
    ultimately show ?thesis by blast
  qed
next
  case (Cons x es)
  show ?case
  proof (cases "key cur < key x")
    case True
    from Cons obtain es' k' where
      "topNInsert key cur (es @ replicate k temp) = es' @ replicate k' temp"
      "set es' \<subseteq> insert cur (set es)"
      by blast
    with True have "topNInsert key cur ((x # es) @ replicate k temp) = (x # es') @ replicate k' temp
        \<and> set (x # es') \<subseteq> insert cur (set (x # es))"
      by auto
    then show ?thesis by blast
  next
    case False
    show ?thesis
    proof (cases k)
      case 0
      with False have "topNInsert key cur ((x # es) @ replicate k temp)
          = (cur # butlast (x # es)) @ replicate 0 temp"
        by simp
      moreover have "set (cur # butlast (x # es)) \<subseteq> insert cur (set (x # es))"
        by (auto dest: in_set_butlastD)
      ultimately show ?thesis by blast
    next
      case (Suc j)
      have "butlast ((x # es) @ temp # replicate j temp) = (x # es) @ replicate j temp"
        by (rule butlast_append_Cons_replicate)
      moreover have "topNInsert key cur ((x # es) @ temp # replicate j temp)
          = cur # butlast ((x # es) @ temp # replicate j temp)"
        using False by simp
      ultimately have "topNInsert key cur ((x # es) @ replicate k temp)
          = (cur # x # es) @ replicate j temp"
        by (simp add: Suc del: butlast.simps)
      moreover have "set (cur # x # es) \<subseteq> insert cur (set (x # es))"
        by auto
      ultimately show ?thesis by blast
    qed
  qed
qed

lemma length_fold_topNInsert [simp]: "length (fold (topNInsert key) cs xs) = length xs"
  by (induction cs arbitrary: xs) auto

lemma sorted_fold_topNInsert:
  "sorted_wrt (\<lambda>a b. key b \<le> key a) xs \<Longrightarrow>
     sorted_wrt (\<lambda>a b. key b \<le> key a) (fold (topNInsert key) cs xs)"
  by (induction cs arbitrary: xs) (auto intro: sorted_topNInsert)

lemma fold_topNInsert_placeholders:
  assumes "\<forall>c\<in>set cs. key temp \<le> key c"
  shows "\<exists>es' k'. fold (topNInsert key) cs (es @ replicate k temp) = es' @ replicate k' temp \<and>
           set es' \<subseteq> set cs \<union> set es"
  using assms
proof (induction cs arbitrary: es k)
  case Nil
  then show ?case by auto
next
  case (Cons c cs)
  then have "key temp \<le> key c" by simp
  from topNInsert_placeholders [of key temp c es k, OF this] obtain es1 k1 where
    1: "topNInsert key c (es @ replicate k temp) = es1 @ replicate k1 temp"
    and 2: "set es1 \<subseteq> insert c (set es)"
    by blast
  from Cons.prems have "\<forall>c\<in>set cs. key temp \<le> key c" by simp
  from Cons.IH [OF this, of es1 k1] obtain es' k' where
    "fold (topNInsert key) cs (es1 @ replicate k1 temp) = es' @ replicate k' temp"
    "set es' \<subseteq> set cs \<union> set es1"
    by blast
  with 1 2 have "fold (topNInsert key) (c # cs) (es @ replicate k temp) = es' @ replicate k' temp
      \<and> set es' \<subseteq> set (c # cs) \<union> set es"
    by auto
  then show ?case by blast
qed

lemma sorted_replicate: "sorted_wrt (\<lambda>a b. key b \<le> key (a::'a)) (replicate n (x::'a))"
  for key :: "'a \<Rightarrow> 'k::linorder"
  by (induction n) auto

text \<open>An insertion never lets an entity below a lower bound of the ranking in.\<close>

lemma topNInsert_lower_bound:
  "\<forall>e\<in>set xs. b \<le> key e \<Longrightarrow> \<forall>e\<in>set (topNInsert key cur xs). b \<le> key e"
proof (induction xs)
  case Nil
  then show ?case by simp
next
  case (Cons x xs)
  show ?case
  proof (cases "key cur < key x")
    case True
    with Cons show ?thesis by simp
  next
    case False
    have "\<forall>e\<in>set (butlast (x # xs)). b \<le> key e"
      using Cons.prems by (auto dest!: in_set_butlastD)
    moreover have "b \<le> key cur"
      using Cons.prems False by (meson list.set_intros(1) not_less order_trans)
    ultimately show ?thesis
      using False by simp
  qed
qed

lemma fold_topNInsert_lower_bound:
  "\<forall>e\<in>set xs. b \<le> key e \<Longrightarrow> \<forall>e\<in>set (fold (topNInsert key) cs xs). b \<le> key e"
proof (induction cs arbitrary: xs)
  case Nil
  then show ?case by simp
next
  case (Cons c cs)
  from topNInsert_lower_bound [OF Cons.prems]
  have "\<forall>e\<in>set (topNInsert key c xs). b \<le> key e" .
  from Cons.IH [OF this] show ?case by simp
qed

text \<open>One insertion into a full ranking drops a least element of the ranking and the entity.\<close>

lemma topNInsert_drops_least:
  assumes "sorted_wrt (\<lambda>a b. key b \<le> key a) xs"
  shows "\<exists>d. add_mset d (mset (topNInsert key cur xs)) = add_mset cur (mset xs) \<and>
           (\<forall>e\<in>set (topNInsert key cur xs). key d \<le> key e)"
proof (cases "\<exists>x\<in>set xs. key x \<le> key cur")
  case True
  then obtain x where x: "x \<in> set xs" "key x \<le> key cur"
    by blast
  then have ne: "xs \<noteq> []"
    by auto
  have m: "mset (topNInsert key cur xs) = add_mset cur (mset (butlast xs))"
    by (rule mset_topNInsert [OF True])
  have "add_mset (last xs) (mset (butlast xs)) = mset xs"
    using ne by (metis append_butlast_last_id mset.simps(2) mset_append union_mset_add_mset_right
        add.right_neutral mset.simps(1))
  then have 1: "add_mset (last xs) (mset (topNInsert key cur xs)) = add_mset cur (mset xs)"
    by (simp add: m)
  have least: "\<forall>e\<in>set xs. key (last xs) \<le> key e"
    using last_is_minimum [OF assms] by blast
  then have "key (last xs) \<le> key cur"
    using x by (meson order_trans)
  with least have "\<forall>e\<in>set (topNInsert key cur xs). key (last xs) \<le> key e"
    using set_topNInsert [of key cur xs] by auto
  with 1 show ?thesis by blast
next
  case False
  then have all: "\<forall>x\<in>set xs. key cur < key x"
    by auto
  then have "topNInsert key cur xs = xs"
    by (rule topNInsert_unchanged)
  with all show ?thesis
    by (intro exI [of _ cur]) auto
qed

text \<open>
  An insertion while a placeholder remains: the entity joins the ranking and one
  placeholder leaves.
\<close>

lemma topNInsert_takes_placeholder:
  assumes "key temp \<le> key cur"
  shows "\<exists>es'. topNInsert key cur (es @ replicate (Suc j) temp) = es' @ replicate j temp \<and>
           mset es' = add_mset cur (mset es)"
proof (induction es)
  case Nil
  have "\<not> key cur < key temp"
    using assms by simp
  then have "topNInsert key cur (temp # replicate j temp) = cur # butlast (temp # replicate j temp)"
    by simp
  then have "topNInsert key cur ([] @ replicate (Suc j) temp) = [cur] @ replicate j temp"
    by (simp add: butlast_Cons_replicate del: butlast.simps)
  then show ?case
    by (intro exI [of _ "[cur]"]) simp
next
  case (Cons x es)
  show ?case
  proof (cases "key cur < key x")
    case True
    from Cons obtain es' where
      "topNInsert key cur (es @ replicate (Suc j) temp) = es' @ replicate j temp"
      "mset es' = add_mset cur (mset es)"
      by blast
    with True show ?thesis
      by (intro exI [of _ "x # es'"]) simp
  next
    case False
    have "butlast ((x # es) @ temp # replicate j temp) = (x # es) @ replicate j temp"
      by (rule butlast_append_Cons_replicate)
    moreover have "topNInsert key cur ((x # es) @ temp # replicate j temp)
        = cur # butlast ((x # es) @ temp # replicate j temp)"
      using False by simp
    ultimately have "topNInsert key cur ((x # es) @ replicate (Suc j) temp)
        = (cur # x # es) @ replicate j temp"
      by (simp del: butlast.simps)
    then show ?thesis
      by (intro exI [of _ "cur # x # es"]) simp
  qed
qed

text \<open>
  The ranking after the loop: the entities that are neither in the ranking nor
  placeholders were dropped, each is at most every entity of the ranking, and none is
  dropped while a placeholder remains.
\<close>

lemma fold_topNInsert_selects:
  assumes "\<forall>c\<in>set cs. key temp \<le> key c"
    and "sorted_wrt (\<lambda>a b. key b \<le> key a) (es @ replicate k temp)"
  shows "\<exists>es' k' D.
           fold (topNInsert key) cs (es @ replicate k temp) = es' @ replicate k' temp \<and>
           mset es' + mset D = mset cs + mset es \<and>
           (\<forall>d\<in>set D. \<forall>e\<in>set es'. key d \<le> key e) \<and>
           length es' + k' = length es + k \<and> k' \<le> k \<and> (0 < k' \<longrightarrow> D = [])"
  using assms
proof (induction cs arbitrary: es k)
  case Nil
  show ?case
    by (intro exI [of _ es] exI [of _ k] exI [of _ "[]"]) simp
next
  case (Cons c cs)
  have c: "key temp \<le> key c" and cs: "\<forall>c\<in>set cs. key temp \<le> key c"
    using Cons.prems(1) by simp_all
  have srt: "sorted_wrt (\<lambda>a b. key b \<le> key a) (topNInsert key c (es @ replicate k temp))"
    by (rule sorted_topNInsert [OF Cons.prems(2)])
  show ?case
  proof (cases k)
    case (Suc j)
    from topNInsert_takes_placeholder [of key temp c es j, OF c] obtain es1 where
      1: "topNInsert key c (es @ replicate (Suc j) temp) = es1 @ replicate j temp" and
      m1: "mset es1 = add_mset c (mset es)"
      by blast
    from Cons.IH [OF cs, of es1 j] srt obtain es' k' D where
      f: "fold (topNInsert key) cs (es1 @ replicate j temp) = es' @ replicate k' temp" and
      m: "mset es' + mset D = mset cs + mset es1" and
      d: "\<forall>d\<in>set D. \<forall>e\<in>set es'. key d \<le> key e" and
      l: "length es' + k' = length es1 + j" "k' \<le> j" "0 < k' \<longrightarrow> D = []"
      unfolding Suc 1 by blast
    have "length es1 = Suc (length es)"
      using m1 by (metis size_mset size_add_mset)
    then have l': "length es' + k' = length es + k" "k' \<le> k"
      using l by (simp_all add: Suc)
    have "fold (topNInsert key) (c # cs) (es @ replicate k temp)
        = fold (topNInsert key) cs (topNInsert key c (es @ replicate (Suc j) temp))"
      unfolding Suc by (simp del: replicate.simps)
    then have f': "fold (topNInsert key) (c # cs) (es @ replicate k temp)
        = es' @ replicate k' temp"
      unfolding 1 f .
    have m': "mset es' + mset D = mset (c # cs) + mset es"
      using m m1 by simp
    from f' m' d l' l(3) show ?thesis by blast
  next
    case 0
    let ?es1 = "topNInsert key c es"
    have s0: "sorted_wrt (\<lambda>a b. key b \<le> key a) es"
      using Cons.prems(2) by (simp add: 0)
    from topNInsert_drops_least [OF s0, of c] obtain d1 where
      m1: "add_mset d1 (mset ?es1) = add_mset c (mset es)" and
      d1: "\<forall>e\<in>set ?es1. key d1 \<le> key e"
      by blast
    have s1: "sorted_wrt (\<lambda>a b. key b \<le> key a) (?es1 @ replicate 0 temp)"
      using srt by (simp add: 0)
    from Cons.IH [OF cs s1] obtain es' k' D where
      f: "fold (topNInsert key) cs (?es1 @ replicate 0 temp) = es' @ replicate k' temp" and
      m: "mset es' + mset D = mset cs + mset ?es1" and
      d: "\<forall>d\<in>set D. \<forall>e\<in>set es'. key d \<le> key e" and
      l: "length es' + k' = length ?es1 + 0" "k' \<le> 0" "0 < k' \<longrightarrow> D = []"
      by blast
    have k': "k' = 0"
      using l(2) by simp
    have "\<forall>e\<in>set (fold (topNInsert key) cs ?es1). key d1 \<le> key e"
      by (rule fold_topNInsert_lower_bound [OF d1])
    then have d1': "\<forall>e\<in>set es'. key d1 \<le> key e"
      using f by (simp add: k')
    have "mset es' + mset (d1 # D) = add_mset d1 (mset cs + mset ?es1)"
      using m by simp
    also have "\<dots> = mset cs + add_mset d1 (mset ?es1)"
      by simp
    also have "\<dots> = mset (c # cs) + mset es"
      by (simp add: m1)
    finally have m': "mset es' + mset (d1 # D) = mset (c # cs) + mset es" .
    have "fold (topNInsert key) (c # cs) (es @ replicate k temp) = es' @ replicate k' temp \<and>
       mset es' + mset (d1 # D) = mset (c # cs) + mset es \<and>
       (\<forall>d\<in>set (d1 # D). \<forall>e\<in>set es'. key d \<le> key e) \<and>
       length es' + k' = length es + k \<and> k' \<le> k \<and> (0 < k' \<longrightarrow> d1 # D = [])"
      using f m' d d1' l by (simp add: 0 k')
    then show ?thesis by blast
  qed
qed

text \<open>The two rankings of the UIDs by their I/O.\<close>

lemma uidIoUsageLoop_reads:
  "accTopNReads (uidIoUsageLoop names usage acc)
     = fold (topNInsert (\<lambda>u. sumReadBytes (ios u))) (filter (\<lambda>u. \<not> isZero (ios u)) usage)
         (accTopNReads acc)"
  by (induction usage arbitrary: acc) auto

lemma uidIoUsageLoop_writes:
  "accTopNWrites (uidIoUsageLoop names usage acc)
     = fold (topNInsert (\<lambda>u. sumWriteBytes (ios u))) (filter (\<lambda>u. \<not> isZero (ios u)) usage)
         (accTopNWrites acc)"
  by (induction usage arbitrary: acc) auto

lemma isZero_tempUsage [simp]: "isZero (ios tempUsage)"
  "sumReadBytes (ios tempUsage) = 0" "sumWriteBytes (ios tempUsage) = 0"
  by (simp_all add: isZero_def tempUsage_def sumReadBytes_def sumWriteBytes_def)

lemma convertTopNUsage_replicate [simp]:
  "convertTopNUsage metric names (replicate k tempUsage) = []"
  by (cases k) simp_all

lemma convertTopNUsage_placeholders:
  "\<forall>u\<in>set es. \<not> isZero (ios u) \<Longrightarrow>
     convertTopNUsage metric names (es @ replicate k tempUsage) = map (uidIoStats metric names) es"
  by (induction es) simp_all

lemma ranking_of_usage:
  fixes key :: "UidIoUsage \<Rightarrow> u64" and usage :: "UidIoUsage list" and n :: nat
  assumes "key tempUsage = 0"
  defines "cands \<equiv> fold (topNInsert key) (filter (\<lambda>u. \<not> isZero (ios u)) usage)
    (replicate n tempUsage)"
  shows "\<exists>es. convertTopNUsage metric names cands = map (uidIoStats metric names) es \<and>
           length es \<le> n \<and> sorted_wrt (\<lambda>a b. key b \<le> key a) es \<and>
           (\<forall>e\<in>set es. \<not> isZero (ios e) \<and> e \<in> set usage)"
proof -
  have "\<forall>c\<in>set (filter (\<lambda>u. \<not> isZero (ios u)) usage). key tempUsage \<le> key c"
    by (simp add: assms(1))
  from fold_topNInsert_placeholders [OF this, of "[]" n] obtain es k where
    c: "cands = es @ replicate k tempUsage" and
    es: "set es \<subseteq> set (filter (\<lambda>u. \<not> isZero (ios u)) usage)"
    unfolding cands_def by auto
  have "sorted_wrt (\<lambda>a b. key b \<le> key a) cands"
    unfolding cands_def by (intro sorted_fold_topNInsert sorted_replicate)
  then have s: "sorted_wrt (\<lambda>a b. key b \<le> key a) es"
    by (simp add: c sorted_wrt_append)
  have "length cands = n"
    by (simp add: cands_def)
  then have l: "length es \<le> n"
    by (simp add: c)
  have "convertTopNUsage metric names cands = map (uidIoStats metric names) es"
    unfolding c using es by (intro convertTopNUsage_placeholders) auto
  with s l es show ?thesis by auto
qed

lemma collectUid_rankings:
  assumes "collectUidIoPerfDataLocked src s emptyUidIoPerfData = (r, s', out)"
  shows "\<exists>rs ws.
           topNReads out = map (uidIoStats READ_BYTES (mUidToPackageNameMapping s')) rs \<and>
           topNWrites out = map (uidIoStats WRITE_BYTES (mUidToPackageNameMapping s')) ws \<and>
           length rs \<le> mTopNStatsPerCategory s \<and> length ws \<le> mTopNStatsPerCategory s \<and>
           sorted_wrt (\<lambda>a b. sumReadBytes (ios b) \<le> sumReadBytes (ios a)) rs \<and>
           sorted_wrt (\<lambda>a b. sumWriteBytes (ios b) \<le> sumWriteBytes (ios a)) ws \<and>
           (\<forall>e\<in>set rs \<union> set ws. \<not> isZero (ios e))"
proof (cases "mUidIoStatsEnabled s \<and> \<not> isl (uidIoStatsCollect src)")
  case False
  with assms have "out = emptyUidIoPerfData"
    by (auto simp: collectUidIoPerfDataLocked_def split: sum.splits if_splits)
  then have "topNReads out = map (uidIoStats READ_BYTES (mUidToPackageNameMapping s')) [] \<and>
           topNWrites out = map (uidIoStats WRITE_BYTES (mUidToPackageNameMapping s')) []"
    by (simp add: emptyUidIoPerfData_def)
  then show ?thesis
    by (intro exI [of _ "[]"]) simp
next
  case True
  then obtain usage where usage: "uidIoStatsCollect src = Inr usage"
    by (cases "uidIoStatsCollect src") auto
  let ?n = "mTopNStatsPerCategory s"
  let ?names = "mUidToPackageNameMapping s'"
  from assms True usage have
    rd: "topNReads out = convertTopNUsage READ_BYTES ?names
           (fold (topNInsert (\<lambda>u. sumReadBytes (ios u))) (filter (\<lambda>u. \<not> isZero (ios u)) usage)
              (replicate ?n tempUsage))" and
    wr: "topNWrites out = convertTopNUsage WRITE_BYTES ?names
           (fold (topNInsert (\<lambda>u. sumWriteBytes (ios u))) (filter (\<lambda>u. \<not> isZero (ios u)) usage)
              (replicate ?n tempUsage))"
    by (auto simp: collectUidIoPerfDataLocked_def Let_def emptyUidIoPerfData_def
        uidIoUsageLoop_reads uidIoUsageLoop_writes)
  from ranking_of_usage [of "\<lambda>u. sumReadBytes (ios u)" READ_BYTES ?names usage ?n]
  obtain rs where rs: "topNReads out = map (uidIoStats READ_BYTES ?names) rs"
    "length rs \<le> ?n" "sorted_wrt (\<lambda>a b. sumReadBytes (ios b) \<le> sumReadBytes (ios a)) rs"
    "\<forall>e\<in>set rs. \<not> isZero (ios e)"
    unfolding rd by auto
  from ranking_of_usage [of "\<lambda>u. sumWriteBytes (ios u)" WRITE_BYTES ?names usage ?n]
  obtain ws where ws: "topNWrites out = map (uidIoStats WRITE_BYTES ?names) ws"
    "length ws \<le> ?n" "sorted_wrt (\<lambda>a b. sumWriteBytes (ios b) \<le> sumWriteBytes (ios a)) ws"
    "\<forall>e\<in>set ws. \<not> isZero (ios e)"
    unfolding wr by auto
  from rs ws show ?thesis by blast
qed

lemma ranking_selects_usage:
  fixes key :: "UidIoUsage \<Rightarrow> u64" and usage :: "UidIoUsage list" and n :: nat
  assumes "key tempUsage = 0"
  defines "nz \<equiv> filter (\<lambda>u. \<not> isZero (ios u)) usage"
  defines "cands \<equiv> fold (topNInsert key) nz (replicate n tempUsage)"
  shows "\<exists>es D. convertTopNUsage metric names cands = map (uidIoStats metric names) es \<and>
           mset es + mset D = mset nz \<and>
           (\<forall>d\<in>set D. \<forall>e\<in>set es. key d \<le> key e) \<and>
           length es = min n (length nz)"
proof -
  have k: "\<forall>c\<in>set nz. key tempUsage \<le> key c"
    by (simp add: assms(1))
  have s: "sorted_wrt (\<lambda>a b. key b \<le> key a) ([] @ replicate n tempUsage)"
    by (simp add: sorted_replicate)
  from fold_topNInsert_selects [OF k s] obtain es k' D where
    c: "cands = es @ replicate k' tempUsage" and
    m: "mset es + mset D = mset nz" and
    d: "\<forall>d\<in>set D. \<forall>e\<in>set es. key d \<le> key e" and
    l: "length es + k' = n" "0 < k' \<longrightarrow> D = []"
    unfolding cands_def by auto
  have "set_mset (mset es) \<subseteq> set_mset (mset nz)"
    unfolding m [symmetric] by simp
  then have "\<forall>u\<in>set es. \<not> isZero (ios u)"
    by (auto simp: nz_def)
  then have 1: "convertTopNUsage metric names cands = map (uidIoStats metric names) es"
    unfolding c by (rule convertTopNUsage_placeholders)
  have "size (mset es + mset D) = size (mset nz)"
    by (simp only: m)
  then have "length es + length D = length nz"
    by simp
  with l have "length es = min n (length nz)"
    by (cases "k' = 0") auto
  with 1 m d show ?thesis by blast
qed

lemma collectUid_selection:
  assumes "collectUidIoPerfDataLocked src s emptyUidIoPerfData = (r, s', out)"
    and "mUidIoStatsEnabled s" and "uidIoStatsCollect src = Inr usage"
  shows "\<exists>rs ws dr dw.
           topNReads out = map (uidIoStats READ_BYTES (mUidToPackageNameMapping s')) rs \<and>
           topNWrites out = map (uidIoStats WRITE_BYTES (mUidToPackageNameMapping s')) ws \<and>
           mset rs + mset dr = mset (filter (\<lambda>u. \<not> isZero (ios u)) usage) \<and>
           mset ws + mset dw = mset (filter (\<lambda>u. \<not> isZero (ios u)) usage) \<and>
           (\<forall>d\<in>set dr. \<forall>e\<in>set rs. sumReadBytes (ios d) \<le> sumReadBytes (ios e)) \<and>
           (\<forall>d\<in>set dw. \<forall>e\<in>set ws. sumWriteBytes (ios d) \<le> sumWriteBytes (ios e)) \<and>
           length rs = min (mTopNStatsPerCategory s) (length (filter (\<lambda>u. \<not> isZero (ios u)) usage)) \<and>
           length ws = min (mTopNStatsPerCategory s) (length (filter (\<lambda>u. \<not> isZero (ios u)) usage))"
proof -
  let ?n = "mTopNStatsPerCategory s"
  let ?names = "mUidToPackageNameMapping s'"
  from assms have
    rd: "topNReads out = convertTopNUsage READ_BYTES ?names
           (fold (topNInsert (\<lambda>u. sumReadBytes (ios u))) (filter (\<lambda>u. \<not> isZero (ios u)) usage)
              (replicate ?n tempUsage))" and
    wr: "topNWrites out = convertTopNUsage WRITE_BYTES ?names
           (fold (topNInsert (\<lambda>u. sumWriteBytes (ios u))) (filter (\<lambda>u. \<not> isZero (ios u)) usage)
              (replicate ?n tempUsage))"
    by (auto simp: collectUidIoPerfDataLocked_def Let_def emptyUidIoPerfData_def
        uidIoUsageLoop_reads uidIoUsageLoop_writes)
  from ranking_selects_usage [of "\<lambda>u. sumReadBytes (ios u)" READ_BYTES ?names usage ?n]
  obtain rs dr where rs: "topNReads out = map (uidIoStats READ_BYTES ?names) rs"
    "mset rs + mset dr = mset (filter (\<lambda>u. \<not> isZero (ios u)) usage)"
    "\<forall>d\<in>set dr. \<forall>e\<in>set rs. sumReadBytes (ios d) \<le> sumReadBytes (ios e)"
    "length rs = min ?n (length (filter (\<lambda>u. \<not> isZero (ios u)) usage))"
    unfolding rd by auto
  from ranking_selects_usage [of "\<lambda>u. sumWriteBytes (ios u)" WRITE_BYTES ?names usage ?n]
  obtain ws dw where ws: "topNWrites out = map (uidIoStats WRITE_BYTES ?names) ws"
    "mset ws + mset dw = mset (filter (\<lambda>u. \<not> isZero (ios u)) usage)"
    "\<forall>d\<in>set dw. \<forall>e\<in>set ws. sumWriteBytes (ios d) \<le> sumWriteBytes (ios e)"
    "length ws = min ?n (length (filter (\<lambda>u. \<not> isZero (ios u)) usage))"
    unfolding wr by auto
  from rs ws show ?thesis by blast
qed

lemma collectUid_disabled:
  assumes "collectUidIoPerfDataLocked src s emptyUidIoPerfData = (r, s', out)"
    and "\<not> mUidIoStatsEnabled s"
  shows "topNReads out = [] \<and> topNWrites out = []"
  using assms by (auto simp: collectUidIoPerfDataLocked_def emptyUidIoPerfData_def)

lemma bytes_uidIoStats:
  "fst (bytes (uidIoStats READ_BYTES names u)) + snd (bytes (uidIoStats READ_BYTES names u))
     = sumReadBytes (ios u)"
  "fst (bytes (uidIoStats WRITE_BYTES names u)) + snd (bytes (uidIoStats WRITE_BYTES names u))
     = sumWriteBytes (ios u)"
  by (simp_all add: uidIoStats_def sumReadBytes_def sumWriteBytes_def)

text \<open>The two rankings of the UIDs by their processes.\<close>

lemma unat_ucast_u32_u64: "unat (ucast (a :: u32) :: u64) = unat a"
proof -
  have "unat a < 2 ^ 32"
    using unsigned_less [of a, where 'a = nat] by simp
  then have "unat a < 2 ^ 64"
    by (rule less_trans) simp
  then show ?thesis
    by (simp add: unsigned_ucast_eq take_bit_nat_eq_self)
qed

lemma ucast_u32_u64_le: "(ucast (a :: u32) :: u64) \<le> ucast (b :: u32) \<longleftrightarrow> a \<le> b"
  by (simp add: word_le_nat_alt unat_ucast_u32_u64)

lemma ucast_u32_u64_eq_0: "(ucast (a :: u32) :: u64) = 0 \<longleftrightarrow> a = 0"
  by (metis unat_eq_zero unat_ucast_u32_u64)

lemma uidProcessStatsLoop_blocked:
  "accTopNIoBlockedUids (uidProcessStatsLoop names stats acc)
     = fold (topNInsert ioBlockedTasksCnt) stats (accTopNIoBlockedUids acc)"
  by (induction stats arbitrary: acc) auto

lemma uidProcessStatsLoop_faults:
  "accTopNMajorFaults (uidProcessStatsLoop names stats acc)
     = fold (topNInsert majorFaults) stats (accTopNMajorFaults acc)"
  by (induction stats arbitrary: acc) auto

lemma length_convertTopNMajorFaults: "length (convertTopNMajorFaults names xs) \<le> length xs"
  by (induction xs) auto

lemma set_convertTopNMajorFaults:
  "st \<in> set (convertTopNMajorFaults names xs) \<Longrightarrow>
     count st \<noteq> 0 \<and> (\<exists>it\<in>set xs. count st = majorFaults it)"
  by (induction xs) (auto simp: processIoStats_def split: if_splits)

lemma sorted_convertTopNMajorFaults:
  "sorted_wrt (\<lambda>a b. majorFaults b \<le> majorFaults a) xs \<Longrightarrow>
     sorted_wrt (\<lambda>a b. count b \<le> count a) (convertTopNMajorFaults names xs)"
proof (induction xs)
  case Nil
  then show ?case by simp
next
  case (Cons x xs)
  have "\<forall>st\<in>set (convertTopNMajorFaults names xs). count st \<le> majorFaults x"
    using Cons.prems set_convertTopNMajorFaults [of _ names xs] by fastforce
  with Cons show ?case
    by (simp add: processIoStats_def)
qed

lemma length_convertTopNIoBlockedUids: "length (convertTopNIoBlockedUids names xs) \<le> length xs"
  by (induction xs) auto

lemma set_convertTopNIoBlockedUids:
  "st \<in> set (convertTopNIoBlockedUids names xs) \<Longrightarrow>
     count (fst st) \<noteq> 0 \<and> (\<exists>it\<in>set xs. count (fst st) = ucast (ioBlockedTasksCnt it))"
  by (induction xs) (auto simp: processIoStats_def ucast_u32_u64_eq_0 split: if_splits)

lemma sorted_convertTopNIoBlockedUids:
  "sorted_wrt (\<lambda>a b. ioBlockedTasksCnt b \<le> ioBlockedTasksCnt a) xs \<Longrightarrow>
     sorted_wrt (\<lambda>a b. count b \<le> count a) (map fst (convertTopNIoBlockedUids names xs))"
proof (induction xs)
  case Nil
  then show ?case by simp
next
  case (Cons x xs)
  have "\<forall>st\<in>set (convertTopNIoBlockedUids names xs).
      count (fst st) \<le> ucast (ioBlockedTasksCnt x)"
    using Cons.prems set_convertTopNIoBlockedUids [of _ names xs]
    by (fastforce simp: ucast_u32_u64_le)
  with Cons show ?case
    by (simp add: processIoStats_def)
qed

lemma collectProcess_rankings:
  assumes "collectProcessIoPerfDataLocked src s emptyProcessIoPerfData = (r, s', out)"
  shows "length (topNIoBlockedUids out) \<le> mTopNStatsPerCategory s \<and>
         length (topNMajorFaults out) \<le> mTopNStatsPerCategory s \<and>
         sorted_wrt (\<lambda>a b. count b \<le> count a) (topNIoBlockedUids out) \<and>
         sorted_wrt (\<lambda>a b. count b \<le> count a) (topNMajorFaults out) \<and>
         (\<forall>st\<in>set (topNIoBlockedUids out) \<union> set (topNMajorFaults out). count st \<noteq> 0)"
proof (cases "mProcPidStatEnabled s \<and> \<not> isl (procPidStatCollect src)")
  case False
  with assms have "out = emptyProcessIoPerfData"
    by (auto simp: collectProcessIoPerfDataLocked_def split: sum.splits if_splits)
  then show ?thesis
    by (simp add: emptyProcessIoPerfData_def)
next
  case True
  then obtain processStats where ps: "procPidStatCollect src = Inr processStats"
    by (cases "procPidStatCollect src") auto
  let ?n = "mTopNStatsPerCategory s"
  let ?names = "mUidToPackageNameMapping s'"
  let ?stats = "map snd (iterationOrder src (getUidProcessStats processStats))"
  let ?blocked = "fold (topNInsert ioBlockedTasksCnt) ?stats (replicate ?n tempStats)"
  let ?faults = "fold (topNInsert majorFaults) ?stats (replicate ?n tempStats)"
  from assms True ps have
    b: "topNIoBlockedUids out = map fst (convertTopNIoBlockedUids ?names ?blocked)" and
    f: "topNMajorFaults out = convertTopNMajorFaults ?names ?faults"
    by (auto simp: collectProcessIoPerfDataLocked_def Let_def emptyProcessIoPerfData_def
        uidProcessStatsLoop_blocked uidProcessStatsLoop_faults)
  have "length (topNIoBlockedUids out) \<le> length ?blocked"
    unfolding b using length_convertTopNIoBlockedUids [of ?names ?blocked] by simp
  then have 1: "length (topNIoBlockedUids out) \<le> ?n" by simp
  have "length (topNMajorFaults out) \<le> length ?faults"
    unfolding f by (rule length_convertTopNMajorFaults)
  then have 2: "length (topNMajorFaults out) \<le> ?n" by simp
  have 3: "sorted_wrt (\<lambda>a b. count b \<le> count a) (topNIoBlockedUids out)"
    unfolding b by (intro sorted_convertTopNIoBlockedUids sorted_fold_topNInsert sorted_replicate)
  have 4: "sorted_wrt (\<lambda>a b. count b \<le> count a) (topNMajorFaults out)"
    unfolding f by (intro sorted_convertTopNMajorFaults sorted_fold_topNInsert sorted_replicate)
  have 5: "\<forall>st\<in>set (topNIoBlockedUids out). count st \<noteq> 0"
    unfolding b using set_convertTopNIoBlockedUids [of _ ?names ?blocked] by auto
  have 6: "\<forall>st\<in>set (topNMajorFaults out). count st \<noteq> 0"
    unfolding f using set_convertTopNMajorFaults [of _ ?names ?faults] by auto
  from 1 2 3 4 5 6 show ?thesis by auto
qed

text \<open>
  Claim C3, as amended. For every sample, each of the four lists has at most
  \<^verbatim>\<open>mTopNStatsPerCategory\<close> entries and is in descending order of its ranked value (the
  sum of the foreground and background bytes read, or written; the number of I/O-blocked
  tasks; the number of major faults). The lists of I/O-blocked UIDs and of major faults
  have no entry whose ranked value is 0. The lists of readers and of writers are empty
  when the collector of the per-UID I/O is disabled. When it is enabled and has read the
  usage records \<open>usage\<close>, each of the two lists is made, entry by entry, from usage
  records of \<open>usage\<close> that are not all zero, none taken more often than it occurs there;
  it has \<^verbatim>\<open>mTopNStatsPerCategory\<close> entries, or all the records of \<open>usage\<close> that are not
  all zero when these are fewer; and the ranked value of every such record that is left
  out is at most that of every entry. The ranked value of an entry may be 0. Inserting an
  entity whose value exceeds that of the last candidate of a ranking in descending order
  removes exactly that last candidate, which is a minimum, and keeps the order.
\<close>

theorem topN_rankings:
  "(collectUidIoPerfDataLocked src s emptyUidIoPerfData = (r, s', uidIo) \<longrightarrow>
      length (topNReads uidIo) \<le> mTopNStatsPerCategory s \<and>
      length (topNWrites uidIo) \<le> mTopNStatsPerCategory s \<and>
      sorted_wrt (\<lambda>a b. fst (bytes b) + snd (bytes b) \<le> fst (bytes a) + snd (bytes a))
        (topNReads uidIo) \<and>
      sorted_wrt (\<lambda>a b. fst (bytes b) + snd (bytes b) \<le> fst (bytes a) + snd (bytes a))
        (topNWrites uidIo) \<and>
      (\<not> mUidIoStatsEnabled s \<longrightarrow> topNReads uidIo = [] \<and> topNWrites uidIo = []) \<and>
      (mUidIoStatsEnabled s \<and> uidIoStatsCollect src = Inr usage \<longrightarrow>
         (\<exists>rs ws dr dw.
            topNReads uidIo = map (uidIoStats READ_BYTES (mUidToPackageNameMapping s')) rs \<and>
            topNWrites uidIo = map (uidIoStats WRITE_BYTES (mUidToPackageNameMapping s')) ws \<and>
            mset rs + mset dr = mset (filter (\<lambda>u. \<not> isZero (ios u)) usage) \<and>
            mset ws + mset dw = mset (filter (\<lambda>u. \<not> isZero (ios u)) usage) \<and>
            (\<forall>d\<in>set dr. \<forall>e\<in>set rs. sumReadBytes (ios d) \<le> sumReadBytes (ios e)) \<and>
            (\<forall>d\<in>set dw. \<forall>e\<in>set ws. sumWriteBytes (ios d) \<le> sumWriteBytes (ios e)) \<and>
            length rs
              = min (mTopNStatsPerCategory s) (length (filter (\<lambda>u. \<not> isZero (ios u)) usage)) \<and>
            length ws
              = min (mTopNStatsPerCategory s) (length (filter (\<lambda>u. \<not> isZero (ios u)) usage))))) \<and>
   (collectProcessIoPerfDataLocked src p emptyProcessIoPerfData = (r', p', proc) \<longrightarrow>
      length (topNIoBlockedUids proc) \<le> mTopNStatsPerCategory p \<and>
      length (topNMajorFaults proc) \<le> mTopNStatsPerCategory p \<and>
      sorted_wrt (\<lambda>a b. count b \<le> count a) (topNIoBlockedUids proc) \<and>
      sorted_wrt (\<lambda>a b. count b \<le> count a) (topNMajorFaults proc) \<and>
      (\<forall>st\<in>set (topNIoBlockedUids proc) \<union> set (topNMajorFaults proc). count st \<noteq> 0)) \<and>
   (sorted_wrt (\<lambda>a b. key b \<le> key a) xs \<and> xs \<noteq> [] \<and> key (last xs) < key cur \<longrightarrow>
      mset (topNInsert key cur xs) = add_mset cur (mset (butlast xs)) \<and>
      (\<forall>x\<in>set xs. key (last xs) \<le> key x) \<and>
      sorted_wrt (\<lambda>a b. key b \<le> key a) (topNInsert key cur xs))"
proof (intro conjI impI)
  assume a: "collectUidIoPerfDataLocked src s emptyUidIoPerfData = (r, s', uidIo)"
  from collectUid_rankings [OF a] obtain rs ws where
    rs: "topNReads uidIo = map (uidIoStats READ_BYTES (mUidToPackageNameMapping s')) rs" and
    ws: "topNWrites uidIo = map (uidIoStats WRITE_BYTES (mUidToPackageNameMapping s')) ws" and
    l: "length rs \<le> mTopNStatsPerCategory s" "length ws \<le> mTopNStatsPerCategory s" and
    srt: "sorted_wrt (\<lambda>a b. sumReadBytes (ios b) \<le> sumReadBytes (ios a)) rs"
      "sorted_wrt (\<lambda>a b. sumWriteBytes (ios b) \<le> sumWriteBytes (ios a)) ws"
    by blast
  show "length (topNReads uidIo) \<le> mTopNStatsPerCategory s"
    using l by (simp add: rs)
  show "length (topNWrites uidIo) \<le> mTopNStatsPerCategory s"
    using l by (simp add: ws)
  show "sorted_wrt (\<lambda>a b. fst (bytes b) + snd (bytes b) \<le> fst (bytes a) + snd (bytes a))
        (topNReads uidIo)"
    using srt(1) by (simp add: rs sorted_wrt_map bytes_uidIoStats)
  show "sorted_wrt (\<lambda>a b. fst (bytes b) + snd (bytes b) \<le> fst (bytes a) + snd (bytes a))
        (topNWrites uidIo)"
    using srt(2) by (simp add: ws sorted_wrt_map bytes_uidIoStats)
  {
    assume "\<not> mUidIoStatsEnabled s"
    from collectUid_disabled [OF a this]
    show "topNReads uidIo = []" "topNWrites uidIo = []"
      by simp_all
  }
  {
    assume "mUidIoStatsEnabled s \<and> uidIoStatsCollect src = Inr usage"
    then have e: "mUidIoStatsEnabled s" and u: "uidIoStatsCollect src = Inr usage"
      by simp_all
    show "\<exists>rs ws dr dw.
            topNReads uidIo = map (uidIoStats READ_BYTES (mUidToPackageNameMapping s')) rs \<and>
            topNWrites uidIo = map (uidIoStats WRITE_BYTES (mUidToPackageNameMapping s')) ws \<and>
            mset rs + mset dr = mset (filter (\<lambda>u. \<not> isZero (ios u)) usage) \<and>
            mset ws + mset dw = mset (filter (\<lambda>u. \<not> isZero (ios u)) usage) \<and>
            (\<forall>d\<in>set dr. \<forall>e\<in>set rs. sumReadBytes (ios d) \<le> sumReadBytes (ios e)) \<and>
            (\<forall>d\<in>set dw. \<forall>e\<in>set ws. sumWriteBytes (ios d) \<le> sumWriteBytes (ios e)) \<and>
            length rs
              = min (mTopNStatsPerCategory s) (length (filter (\<lambda>u. \<not> isZero (ios u)) usage)) \<and>
            length ws
              = min (mTopNStatsPerCategory s) (length (filter (\<lambda>u. \<not> isZero (ios u)) usage))"
      by (rule collectUid_selection [OF a e u])
  }
next
  assume a: "collectProcessIoPerfDataLocked src p emptyProcessIoPerfData = (r', p', proc)"
  note b = collectProcess_rankings [OF a]
  show "length (topNIoBlockedUids proc) \<le> mTopNStatsPerCategory p"
    "length (topNMajorFaults proc) \<le> mTopNStatsPerCategory p"
    "sorted_wrt (\<lambda>a b. count b \<le> count a) (topNIoBlockedUids proc)"
    "sorted_wrt (\<lambda>a b. count b \<le> count a) (topNMajorFaults proc)"
    "\<forall>st\<in>set (topNIoBlockedUids proc) \<union> set (topNMajorFaults proc). count st \<noteq> 0"
    using b by blast+
next
  assume a: "sorted_wrt (\<lambda>a b. key b \<le> key a) xs \<and> xs \<noteq> [] \<and> key (last xs) < key cur"
  then have "\<exists>x\<in>set xs. key x \<le> key cur"
    by (intro bexI [of _ "last xs"]) auto
  then show "mset (topNInsert key cur xs) = add_mset cur (mset (butlast xs))"
    by (rule mset_topNInsert)
  show "\<forall>x\<in>set xs. key (last xs) \<le> key x"
    using a last_is_minimum [of key xs] by blast
  show "sorted_wrt (\<lambda>a b. key b \<le> key a) (topNInsert key cur xs)"
    using a by (intro sorted_topNInsert) simp
qed

theorem topN_rankings_witness:
  "map bytes (topNReads (snd (snd
     (collectUidIoPerfDataLocked sampleSources bootState emptyUidIoPerfData))))
     = [(3000, 0), (0, 0)] \<and>
   map bytes (topNWrites (snd (snd
     (collectUidIoPerfDataLocked sampleSources bootState emptyUidIoPerfData))))
     = [(0, 30000), (500, 0)] \<and>
   length (topNReads (snd (snd
     (collectUidIoPerfDataLocked sampleSources bootState emptyUidIoPerfData))))
     \<le> mTopNStatsPerCategory bootState \<and>
   mUidIoStatsEnabled bootState \<and>
   uidIoStatsCollect sampleSources
     = Inr [\<lparr>uid = 1001234, ios = mkIoUsage 3000 0 500 0 20 0\<rparr>,
            \<lparr>uid = 1009, ios = mkIoUsage 0 0 0 30000 0 300\<rparr>] \<and>
   length (topNReads (snd (snd
     (collectUidIoPerfDataLocked sampleSources bootState emptyUidIoPerfData))))
     = min (mTopNStatsPerCategory bootState)
         (length (filter (\<lambda>u. \<not> isZero (ios u))
            [\<lparr>uid = 1001234, ios = mkIoUsage 3000 0 500 0 20 0\<rparr>,
             \<lparr>uid = 1009, ios = mkIoUsage 0 0 0 30000 0 300\<rparr>])) \<and>
   map count (topNMajorFaults (snd (snd
     (collectProcessIoPerfDataLocked sampleSources bootState emptyProcessIoPerfData))))
     = [600, 220] \<and>
   map count (topNIoBlockedUids (snd (snd
     (collectProcessIoPerfDataLocked sampleSources bootState emptyProcessIoPerfData))))
     = [1] \<and>
   length (topNMajorFaults (snd (snd
     (collectProcessIoPerfDataLocked sampleSources bootState emptyProcessIoPerfData))))
     \<le> mTopNStatsPerCategory bootState \<and>
   topNInsert (\<lambda>x::nat. x) 2 [5, 3, 1] = [5, 3, 2] \<and>
   mset (topNInsert (\<lambda>x::nat. x) 2 [5, 3, 1]) = add_mset 2 (mset (butlast [5, 3, 1]))"
proof -
  let ?U = "collectUidIoPerfDataLocked sampleSources bootState emptyUidIoPerfData"
  let ?P = "collectProcessIoPerfDataLocked sampleSources bootState emptyProcessIoPerfData"
  let ?usage = "[\<lparr>uid = 1001234, ios = mkIoUsage 3000 0 500 0 20 0\<rparr>,
            \<lparr>uid = 1009, ios = mkIoUsage 0 0 0 30000 0 300\<rparr>]"
  note t = topN_rankings [where src = sampleSources and s = bootState and r = "fst ?U"
      and s' = "fst (snd ?U)" and uidIo = "snd (snd ?U)" and p = bootState and r' = "fst ?P"
      and p' = "fst (snd ?P)" and proc = "snd (snd ?P)" and key = "\<lambda>x::nat. x"
      and xs = "[5, 3, 1]" and cur = 2 and usage = ?usage]
  have e: "mUidIoStatsEnabled bootState"
    by (simp add: topN_bootState)
  have u: "uidIoStatsCollect sampleSources = Inr ?usage"
    by (simp add: sampleSources_def)
  have 1: "length (topNReads (snd (snd ?U))) \<le> mTopNStatsPerCategory bootState"
    using t by simp
  have 2: "length (topNMajorFaults (snd (snd ?P))) \<le> mTopNStatsPerCategory bootState"
    using t by simp
  have 3: "mset (topNInsert (\<lambda>x::nat. x) 2 [5, 3, 1]) = add_mset 2 (mset (butlast [5, 3, 1]))"
    using t by simp
  have "\<exists>rs. topNReads (snd (snd ?U))
          = map (uidIoStats READ_BYTES (mUidToPackageNameMapping (fst (snd ?U)))) rs \<and>
        length rs = min (mTopNStatsPerCategory bootState)
          (length (filter (\<lambda>u. \<not> isZero (ios u)) ?usage))"
    using t e u unfolding prod.collapse by blast
  then have 7: "length (topNReads (snd (snd ?U))) = min (mTopNStatsPerCategory bootState)
          (length (filter (\<lambda>u. \<not> isZero (ios u)) ?usage))"
    by (metis length_map)
  have 4: "map bytes (topNReads (snd (snd ?U))) = [(3000, 0), (0, 0)]"
    "map bytes (topNWrites (snd (snd ?U))) = [(0, 30000), (500, 0)]"
    by (simp_all add: uid_eval)
  have 5: "map count (topNMajorFaults (snd (snd ?P))) = [600, 220]"
    "map count (topNIoBlockedUids (snd (snd ?P))) = [1]"
    by (simp_all add: proc_eval)
  have 6: "topNInsert (\<lambda>x::nat. x) 2 [5, 3, 1] = [5, 3, 2]"
    by simp
  from 1 2 3 4 5 6 7 e u show ?thesis
    by blast
qed

text \<open>
  Claim C3 as stated fails: a UID that has written 30000 bytes in the background and has
  read nothing is listed among the top readers, with 0 bytes read.
\<close>

theorem zero_valued_top_reader_counterexample:
  "uidIoStatsCollect writeOnlySources = Inr [\<lparr>uid = 1009, ios = mkIoUsage 0 0 0 30000 0 0\<rparr>] \<and>
   sumReadBytes (mkIoUsage 0 0 0 30000 0 0) = 0 \<and>
   fst (collectUidIoPerfDataLocked writeOnlySources bootState emptyUidIoPerfData) = Inr () \<and>
   map bytes (topNReads (snd (snd
     (collectUidIoPerfDataLocked writeOnlySources bootState emptyUidIoPerfData)))) = [(0, 0)]"
  by (simp add: uid_eval writeOnlySources_def)

subsection \<open>Collectors that are disabled or fail\<close>

text \<open>What each enabled collector puts into the record, in terms of the sample it has read.\<close>

lemma isZero_metrics: "isZero u \<Longrightarrow> metrics u m st = 0"
  by (cases m; cases st) (simp_all add: isZero_def)

lemma uidIoUsageLoop_total:
  "accTotal (uidIoUsageLoop names usage acc) m st
     = accTotal acc m st + sum_list (map (\<lambda>u. metrics (ios u) m st) usage)"
  by (induction usage arbitrary: acc) (simp_all add: isZero_metrics add.assoc)

lemma uidProcessStatsLoop_total:
  "accTotalMajorFaults (uidProcessStatsLoop names stats acc)
     = accTotalMajorFaults acc + sum_list (map majorFaults stats)"
  by (induction stats arbitrary: acc) (simp_all add: add.assoc)

lemma collectSystem_sample:
  assumes "mProcStatEnabled s" and "procStatCollect src = Inr procStatInfo"
  shows "snd (collectSystemIoPerfDataLocked src s emptySystemIoPerfData)
           = \<lparr>cpuIoWaitTime = ioWaitTime procStatInfo,
              sysTotalCpuTime = totalCpuTime procStatInfo,
              sysIoBlockedProcessesCnt = ioBlockedProcessesCnt procStatInfo,
              sysTotalProcessesCnt = totalProcessesCnt procStatInfo\<rparr>"
  using assms by (simp add: collectSystemIoPerfDataLocked_def emptySystemIoPerfData_def)

lemma collectUid_sample:
  assumes "collectUidIoPerfDataLocked src s emptyUidIoPerfData = (r, s', out)"
    and "mUidIoStatsEnabled s" and "uidIoStatsCollect src = Inr usage"
  shows "out =
           \<lparr>total = (\<lambda>m st. sum_list (map (\<lambda>u. metrics (ios u) m st) usage)),
            topNReads = convertTopNUsage READ_BYTES (mUidToPackageNameMapping s')
              (fold (topNInsert (\<lambda>u. sumReadBytes (ios u)))
                 (filter (\<lambda>u. \<not> isZero (ios u)) usage)
                 (replicate (mTopNStatsPerCategory s) tempUsage)),
            topNWrites = convertTopNUsage WRITE_BYTES (mUidToPackageNameMapping s')
              (fold (topNInsert (\<lambda>u. sumWriteBytes (ios u)))
                 (filter (\<lambda>u. \<not> isZero (ios u)) usage)
                 (replicate (mTopNStatsPerCategory s) tempUsage))\<rparr>"
proof -
  let ?acc = "uidIoUsageLoop (mUidToPackageNameMapping s) usage
                 \<lparr>accTotal = (\<lambda>m st. 0),
                  accTopNReads = replicate (mTopNStatsPerCategory s) tempUsage,
                  accTopNWrites = replicate (mTopNStatsPerCategory s) tempUsage,
                  accUnmappedUids = []\<rparr>"
  have t: "accTotal ?acc = (\<lambda>m st. sum_list (map (\<lambda>u. metrics (ios u) m st) usage))"
    by (intro ext) (simp add: uidIoUsageLoop_total)
  from assms show ?thesis
    by (auto simp: collectUidIoPerfDataLocked_def Let_def emptyUidIoPerfData_def t
        uidIoUsageLoop_reads uidIoUsageLoop_writes)
qed

lemma collectProcess_sample:
  assumes "collectProcessIoPerfDataLocked src s emptyProcessIoPerfData = (r, s', out)"
    and "mProcPidStatEnabled s" and "procPidStatCollect src = Inr processStats"
  shows "out =
           \<lparr>topNIoBlockedUids = map fst
              (convertTopNIoBlockedUids (mUidToPackageNameMapping s')
                 (fold (topNInsert ioBlockedTasksCnt)
                    (map snd (iterationOrder src (getUidProcessStats processStats)))
                    (replicate (mTopNStatsPerCategory s) tempStats))),
            topNIoBlockedUidsTotalTaskCnt = map snd
              (convertTopNIoBlockedUids (mUidToPackageNameMapping s')
                 (fold (topNInsert ioBlockedTasksCnt)
                    (map snd (iterationOrder src (getUidProcessStats processStats)))
                    (replicate (mTopNStatsPerCategory s) tempStats))),
            topNMajorFaults = convertTopNMajorFaults (mUidToPackageNameMapping s')
              (fold (topNInsert majorFaults)
                 (map snd (iterationOrder src (getUidProcessStats processStats)))
                 (replicate (mTopNStatsPerCategory s) tempStats)),
            totalMajorFaults = sum_list (map majorFaults
              (map snd (iterationOrder src (getUidProcessStats processStats)))),
            majorFaultsPercentChange =
              (if mLastMajorFaults s = 0 then 0
               else dmul (ddiv (double_of_s64
                      (sum_list (map majorFaults
                         (map snd (iterationOrder src (getUidProcessStats processStats))))
                       - mLastMajorFaults s))
                    (double_of_u64 (mLastMajorFaults s))) 100)\<rparr>"
  using assms
  by (auto simp: collectProcessIoPerfDataLocked_def Let_def emptyProcessIoPerfData_def
      uidProcessStatsLoop_total uidProcessStatsLoop_blocked uidProcessStatsLoop_faults)

lemma tick_success_record:
  assumes "mCurrCollectionEvent s = event"
    and "(event, info) \<in> {(BOOT_TIME, BoottimeRef), (PERIODIC, PeriodicRef), (CUSTOM, CustomRef)}"
    and "maxCacheSize (deref info s) \<noteq> 0"
    and "kMinCollectionInterval K \<le> interval (deref info s)"
    and "\<not> isl (fst (collectLocked src info s))"
  shows "\<exists>sys p1 proc p2 uidIo.
           collectSystemIoPerfDataLocked src s emptySystemIoPerfData = (Inr (), sys) \<and>
           collectProcessIoPerfDataLocked src s emptyProcessIoPerfData = (Inr (), p1, proc) \<and>
           collectUidIoPerfDataLocked src p1 emptyUidIoPerfData = (Inr (), p2, uidIo) \<and>
           mUidIoStatsEnabled p1 = mUidIoStatsEnabled s \<and>
           mTopNStatsPerCategory p1 = mTopNStatsPerCategory s \<and>
           mUidToPackageNameMapping (handleMessage K src now (CollectionWhat event) s)
             = mUidToPackageNameMapping p2 \<and>
           mCurrCollectionEvent (handleMessage K src now (CollectionWhat event) s) = event \<and>
           records (deref info (handleMessage K src now (CollectionWhat event) s))
             = (if length (records (deref info s)) > maxCacheSize (deref info s)
                then tl (records (deref info s)) else records (deref info s))
               @ [\<lparr>time = wallClock src, uidIoPerfData = uidIo, systemIoPerfData = sys,
                   processIoPerfData = proc\<rparr>]"
proof -
  obtain r s1 where c: "collectLocked src info s = (r, s1)"
    by (cases "collectLocked src info s")
  with assms(5) have r: "r = Inr ()"
    by (cases r) auto
  from collectLocked_success [OF c [unfolded r]] obtain sys p1 proc p2 uidIo where
    sys: "collectSystemIoPerfDataLocked src s emptySystemIoPerfData = (Inr (), sys)" and
    proc: "collectProcessIoPerfDataLocked src s emptyProcessIoPerfData = (Inr (), p1, proc)" and
    uidIo: "collectUidIoPerfDataLocked src p1 emptyUidIoPerfData = (Inr (), p2, uidIo)" and
    s1: "s1 = assign info
                  (cacheRecord
                     \<lparr>time = wallClock src, uidIoPerfData = uidIo, systemIoPerfData = sys,
                      processIoPerfData = proc\<rparr> (deref info p2)) p2"
    by blast
  let ?rcd = "\<lparr>time = wallClock src, uidIoPerfData = uidIo, systemIoPerfData = sys,
                      processIoPerfData = proc\<rparr>"
  have p1: "p1 = s\<lparr>mUidToPackageNameMapping := mUidToPackageNameMapping p1,
            mLastMajorFaults := mLastMajorFaults p1\<rparr>"
    by (rule collectProcess_state [OF proc])
  have p2: "p2 = p1\<lparr>mUidToPackageNameMapping := mUidToPackageNameMapping p2\<rparr>"
    by (rule collectUid_state [OF uidIo])
  have p2': "p2 = s\<lparr>mUidToPackageNameMapping := mUidToPackageNameMapping p2,
            mLastMajorFaults := mLastMajorFaults p1\<rparr>"
    by (subst p2, subst p1) simp
  have d: "deref info p2 = deref info s"
    by (subst p2') simp
  have e1: "mUidIoStatsEnabled p1 = mUidIoStatsEnabled s"
    by (rule collectProcess_enabled [OF proc])
  have n1: "mTopNStatsPerCategory p1 = mTopNStatsPerCategory s"
    by (subst p1) simp
  have "processCollectionEvent K src event info s
      = (Inr (), sendMessageAtTime
          (int64_add (lastCollectionUptime (deref info s1)) (interval (deref info s1)))
          (CollectionWhat event)
          (assign info ((deref info s1)\<lparr>lastCollectionUptime :=
             int64_add (lastCollectionUptime (deref info s1)) (interval (deref info s1))\<rparr>) s1))"
    using assms(1,3,4) c r by (simp add: processCollectionEvent_def Let_def)
  then have "handleMessage K src now (CollectionWhat event) s
      = sendMessageAtTime
          (int64_add (lastCollectionUptime (deref info s1)) (interval (deref info s1)))
          (CollectionWhat event)
          (assign info ((deref info s1)\<lparr>lastCollectionUptime :=
             int64_add (lastCollectionUptime (deref info s1)) (interval (deref info s1))\<rparr>) s1)"
    by (simp add: handleMessage_tick [OF assms(2)])
  also have "\<dots> = (assign info
                  ((cacheRecord ?rcd (deref info s))
                     \<lparr>lastCollectionUptime :=
                        int64_add (lastCollectionUptime (deref info s))
                          (interval (deref info s))\<rparr>) s)
                \<lparr>mUidToPackageNameMapping := mUidToPackageNameMapping p2,
                 mLastMajorFaults := mLastMajorFaults p1,
                 looperMessages :=
                   enqueueMessage
                     (int64_add (lastCollectionUptime (deref info s)) (interval (deref info s)))
                     (CollectionWhat event) (looperMessages s)\<rparr>"
    unfolding s1 d by (subst (1 2 3 4) p2', cases info) (simp_all add: sendMessageAtTime_def)
  finally have eq: "handleMessage K src now (CollectionWhat event) s
      = (assign info
                  ((cacheRecord ?rcd (deref info s))
                     \<lparr>lastCollectionUptime :=
                        int64_add (lastCollectionUptime (deref info s))
                          (interval (deref info s))\<rparr>) s)
                \<lparr>mUidToPackageNameMapping := mUidToPackageNameMapping p2,
                 mLastMajorFaults := mLastMajorFaults p1,
                 looperMessages :=
                   enqueueMessage
                     (int64_add (lastCollectionUptime (deref info s)) (interval (deref info s)))
                     (CollectionWhat event) (looperMessages s)\<rparr>" .
  have m: "mUidToPackageNameMapping (handleMessage K src now (CollectionWhat event) s)
             = mUidToPackageNameMapping p2"
    unfolding eq by simp
  have ev: "mCurrCollectionEvent (handleMessage K src now (CollectionWhat event) s) = event"
    unfolding eq using assms(1) by simp
  have rc: "records (deref info (handleMessage K src now (CollectionWhat event) s))
      = (if length (records (deref info s)) > maxCacheSize (deref info s)
         then tl (records (deref info s)) else records (deref info s)) @ [?rcd]"
    unfolding eq by (cases info) (simp_all add: records_cacheRecord)
  from sys proc uidIo e1 n1 m ev rc show ?thesis
    by blast
qed

lemma bootState_facts:
  "mCurrCollectionEvent bootState = BOOT_TIME"
  "maxCacheSize (mBoottimeCollection bootState) = 18446744073709551615"
  "interval (mBoottimeCollection bootState) = 1000000000"
  "records (mBoottimeCollection bootState) = []"
  "mUidIoStatsEnabled bootState" "mProcStatEnabled bootState" "mProcPidStatEnabled bootState"
  by (simp_all add: sample_states)

text \<open>
  Claim C2, as amended. When the message of the current collection event is handled and
  the configuration is valid (the size of the cache is not 0 and the interval is at least
  \<^verbatim>\<open>kMinCollectionInterval\<close>), a collector that is disabled is tolerated: if at least one
  collector is enabled and every enabled collector reads its sample, the collection goes
  on and one record is cached. Its time is the wall clock's; the data of each disabled
  collector are the defaults; the data of each enabled collector are made from the sample
  it has read: the four counters of \<^verbatim>\<open>/proc/stat\<close>, the sums and the two rankings of the
  usage records of the UIDs, and the sum, the two rankings and the change in percent of
  the major faults of the processes. A read failure of an enabled collector is not
  tolerated: like the case of no enabled collector it ends the collection (the event
  becomes \<open>TERMINATED\<close>) and no record is cached.
\<close>

theorem only_disabled_collectors_are_tolerated:
  assumes "mCurrCollectionEvent s = event"
    and "(event, info) \<in> {(BOOT_TIME, BoottimeRef), (PERIODIC, PeriodicRef), (CUSTOM, CustomRef)}"
    and "maxCacheSize (deref info s) \<noteq> 0"
    and "kMinCollectionInterval K \<le> interval (deref info s)"
  shows "((\<not> mUidIoStatsEnabled s \<and> \<not> mProcStatEnabled s \<and> \<not> mProcPidStatEnabled s) \<or>
          (mProcStatEnabled s \<and> isl (procStatCollect src)) \<or>
          (mProcPidStatEnabled s \<and> isl (procPidStatCollect src)) \<or>
          (mUidIoStatsEnabled s \<and> isl (uidIoStatsCollect src)) \<longrightarrow>
            mCurrCollectionEvent (handleMessage K src now (CollectionWhat event) s) = TERMINATED \<and>
            mBoottimeCollection (handleMessage K src now (CollectionWhat event) s)
              = mBoottimeCollection s \<and>
            mPeriodicCollection (handleMessage K src now (CollectionWhat event) s)
              = mPeriodicCollection s \<and>
            mCustomCollection (handleMessage K src now (CollectionWhat event) s)
              = mCustomCollection s) \<and>
         ((mUidIoStatsEnabled s \<or> mProcStatEnabled s \<or> mProcPidStatEnabled s) \<and>
          (mProcStatEnabled s \<longrightarrow> \<not> isl (procStatCollect src)) \<and>
          (mProcPidStatEnabled s \<longrightarrow> \<not> isl (procPidStatCollect src)) \<and>
          (mUidIoStatsEnabled s \<longrightarrow> \<not> isl (uidIoStatsCollect src)) \<longrightarrow>
            mCurrCollectionEvent (handleMessage K src now (CollectionWhat event) s) = event \<and>
            (\<exists>rcd. records (deref info (handleMessage K src now (CollectionWhat event) s))
                     = (if length (records (deref info s)) > maxCacheSize (deref info s)
                        then tl (records (deref info s)) else records (deref info s)) @ [rcd] \<and>
                   time rcd = wallClock src \<and>
                   (\<not> mProcStatEnabled s \<longrightarrow> systemIoPerfData rcd = emptySystemIoPerfData) \<and>
                   (\<not> mProcPidStatEnabled s \<longrightarrow>
                      processIoPerfData rcd = emptyProcessIoPerfData) \<and>
                   (\<not> mUidIoStatsEnabled s \<longrightarrow> uidIoPerfData rcd = emptyUidIoPerfData) \<and>
                   (mProcStatEnabled s \<and> procStatCollect src = Inr procStatInfo \<longrightarrow>
                      systemIoPerfData rcd =
                        \<lparr>cpuIoWaitTime = ioWaitTime procStatInfo,
                         sysTotalCpuTime = totalCpuTime procStatInfo,
                         sysIoBlockedProcessesCnt = ioBlockedProcessesCnt procStatInfo,
                         sysTotalProcessesCnt = totalProcessesCnt procStatInfo\<rparr>) \<and>
                   (mProcPidStatEnabled s \<and> procPidStatCollect src = Inr processStats \<longrightarrow>
                      processIoPerfData rcd =
                        \<lparr>topNIoBlockedUids = map fst
                           (convertTopNIoBlockedUids
                              (mUidToPackageNameMapping (fst (snd
                                 (collectProcessIoPerfDataLocked src s emptyProcessIoPerfData))))
                              (fold (topNInsert ioBlockedTasksCnt)
                                 (map snd (iterationOrder src (getUidProcessStats processStats)))
                                 (replicate (mTopNStatsPerCategory s) tempStats))),
                         topNIoBlockedUidsTotalTaskCnt = map snd
                           (convertTopNIoBlockedUids
                              (mUidToPackageNameMapping (fst (snd
                                 (collectProcessIoPerfDataLocked src s emptyProcessIoPerfData))))
                              (fold (topNInsert ioBlockedTasksCnt)
                                 (map snd (iterationOrder src (getUidProcessStats processStats)))
                                 (replicate (mTopNStatsPerCategory s) tempStats))),
                         topNMajorFaults = convertTopNMajorFaults
                           (mUidToPackageNameMapping (fst (snd
                              (collectProcessIoPerfDataLocked src s emptyProcessIoPerfData))))
                           (fold (topNInsert majorFaults)
                              (map snd (iterationOrder src (getUidProcessStats processStats)))
                              (replicate (mTopNStatsPerCategory s) tempStats)),
                         totalMajorFaults = sum_list (map majorFaults
                           (map snd (iterationOrder src (getUidProcessStats processStats)))),
                         majorFaultsPercentChange =
                           (if mLastMajorFaults s = 0 then 0
                            else dmul (ddiv (double_of_s64
                                   (sum_list (map majorFaults
                                      (map snd (iterationOrder src
                                         (getUidProcessStats processStats))))
                                    - mLastMajorFaults s))
                                 (double_of_u64 (mLastMajorFaults s))) 100)\<rparr>) \<and>
                   (mUidIoStatsEnabled s \<and> uidIoStatsCollect src = Inr usage \<longrightarrow>
                      uidIoPerfData rcd =
                        \<lparr>total = (\<lambda>m st. sum_list (map (\<lambda>u. metrics (ios u) m st) usage)),
                         topNReads = convertTopNUsage READ_BYTES
                           (mUidToPackageNameMapping
                              (handleMessage K src now (CollectionWhat event) s))
                           (fold (topNInsert (\<lambda>u. sumReadBytes (ios u)))
                              (filter (\<lambda>u. \<not> isZero (ios u)) usage)
                              (replicate (mTopNStatsPerCategory s) tempUsage)),
                         topNWrites = convertTopNUsage WRITE_BYTES
                           (mUidToPackageNameMapping
                              (handleMessage K src now (CollectionWhat event) s))
                           (fold (topNInsert (\<lambda>u. sumWriteBytes (ios u)))
                              (filter (\<lambda>u. \<not> isZero (ios u)) usage)
                              (replicate (mTopNStatsPerCategory s) tempUsage))\<rparr>)))"
proof (intro conjI impI)
  assume "(\<not> mUidIoStatsEnabled s \<and> \<not> mProcStatEnabled s \<and> \<not> mProcPidStatEnabled s) \<or>
          (mProcStatEnabled s \<and> isl (procStatCollect src)) \<or>
          (mProcPidStatEnabled s \<and> isl (procPidStatCollect src)) \<or>
          (mUidIoStatsEnabled s \<and> isl (uidIoStatsCollect src))"
  then have "isl (fst (collectLocked src info s))"
    by (simp only: collectLocked_isl)
  from tick_failure_state [OF assms this, of now] obtain names faults where
    eq: "handleMessage K src now (CollectionWhat event) s
           = s\<lparr>mUidToPackageNameMapping := names, mLastMajorFaults := faults,
               mCurrCollectionEvent := TERMINATED, looperMessages := [],
               looperWakes := Suc (looperWakes s)\<rparr>"
    by blast
  show "mCurrCollectionEvent (handleMessage K src now (CollectionWhat event) s) = TERMINATED"
    "mBoottimeCollection (handleMessage K src now (CollectionWhat event) s)
       = mBoottimeCollection s"
    "mPeriodicCollection (handleMessage K src now (CollectionWhat event) s)
       = mPeriodicCollection s"
    "mCustomCollection (handleMessage K src now (CollectionWhat event) s) = mCustomCollection s"
    unfolding eq by simp_all
next
  let ?h = "handleMessage K src now (CollectionWhat event) s"
  assume "(mUidIoStatsEnabled s \<or> mProcStatEnabled s \<or> mProcPidStatEnabled s) \<and>
          (mProcStatEnabled s \<longrightarrow> \<not> isl (procStatCollect src)) \<and>
          (mProcPidStatEnabled s \<longrightarrow> \<not> isl (procPidStatCollect src)) \<and>
          (mUidIoStatsEnabled s \<longrightarrow> \<not> isl (uidIoStatsCollect src))"
  then have "\<not> isl (fst (collectLocked src info s))"
    unfolding collectLocked_isl by blast
  from tick_success_record [OF assms this, of now] obtain sys p1 proc p2 uidIo where
    sys: "collectSystemIoPerfDataLocked src s emptySystemIoPerfData = (Inr (), sys)" and
    proc: "collectProcessIoPerfDataLocked src s emptyProcessIoPerfData = (Inr (), p1, proc)" and
    uidIo: "collectUidIoPerfDataLocked src p1 emptyUidIoPerfData = (Inr (), p2, uidIo)" and
    e1: "mUidIoStatsEnabled p1 = mUidIoStatsEnabled s" and
    n1: "mTopNStatsPerCategory p1 = mTopNStatsPerCategory s" and
    m: "mUidToPackageNameMapping ?h = mUidToPackageNameMapping p2" and
    ev: "mCurrCollectionEvent ?h = event" and
    rc: "records (deref info ?h)
      = (if length (records (deref info s)) > maxCacheSize (deref info s)
         then tl (records (deref info s)) else records (deref info s))
        @ [\<lparr>time = wallClock src, uidIoPerfData = uidIo, systemIoPerfData = sys,
            processIoPerfData = proc\<rparr>]"
    by blast
  show "mCurrCollectionEvent ?h = event"
    by (rule ev)
  have d1: "\<not> mProcStatEnabled s \<longrightarrow> sys = emptySystemIoPerfData"
    using disabled_collectors_leave_defaults(1) [OF _ sys] by blast
  have d2: "\<not> mProcPidStatEnabled s \<longrightarrow> proc = emptyProcessIoPerfData"
    using disabled_collectors_leave_defaults(2) [OF _ proc] by blast
  have d3: "\<not> mUidIoStatsEnabled s \<longrightarrow> uidIo = emptyUidIoPerfData"
    using disabled_collectors_leave_defaults(3) [OF _ uidIo] e1 by blast
  have x1: "mProcStatEnabled s \<and> procStatCollect src = Inr procStatInfo \<longrightarrow>
      sys = \<lparr>cpuIoWaitTime = ioWaitTime procStatInfo,
             sysTotalCpuTime = totalCpuTime procStatInfo,
             sysIoBlockedProcessesCnt = ioBlockedProcessesCnt procStatInfo,
             sysTotalProcessesCnt = totalProcessesCnt procStatInfo\<rparr>"
    using collectSystem_sample [of s src procStatInfo] sys by simp
  have f: "fst (snd (collectProcessIoPerfDataLocked src s emptyProcessIoPerfData)) = p1"
    by (simp add: proc)
  have x2: "mProcPidStatEnabled s \<and> procPidStatCollect src = Inr processStats \<longrightarrow>
      proc = \<lparr>topNIoBlockedUids = map fst
                 (convertTopNIoBlockedUids
                    (mUidToPackageNameMapping (fst (snd
                       (collectProcessIoPerfDataLocked src s emptyProcessIoPerfData))))
                    (fold (topNInsert ioBlockedTasksCnt)
                       (map snd (iterationOrder src (getUidProcessStats processStats)))
                       (replicate (mTopNStatsPerCategory s) tempStats))),
               topNIoBlockedUidsTotalTaskCnt = map snd
                 (convertTopNIoBlockedUids
                    (mUidToPackageNameMapping (fst (snd
                       (collectProcessIoPerfDataLocked src s emptyProcessIoPerfData))))
                    (fold (topNInsert ioBlockedTasksCnt)
                       (map snd (iterationOrder src (getUidProcessStats processStats)))
                       (replicate (mTopNStatsPerCategory s) tempStats))),
               topNMajorFaults = convertTopNMajorFaults
                 (mUidToPackageNameMapping (fst (snd
                    (collectProcessIoPerfDataLocked src s emptyProcessIoPerfData))))
                 (fold (topNInsert majorFaults)
                    (map snd (iterationOrder src (getUidProcessStats processStats)))
                    (replicate (mTopNStatsPerCategory s) tempStats)),
               totalMajorFaults = sum_list (map majorFaults
                 (map snd (iterationOrder src (getUidProcessStats processStats)))),
               majorFaultsPercentChange =
                 (if mLastMajorFaults s = 0 then 0
                  else dmul (ddiv (double_of_s64
                         (sum_list (map majorFaults
                            (map snd (iterationOrder src
                               (getUidProcessStats processStats))))
                          - mLastMajorFaults s))
                       (double_of_u64 (mLastMajorFaults s))) 100)\<rparr>"
    unfolding f using collectProcess_sample [OF proc, of processStats] by blast
  have x3: "mUidIoStatsEnabled s \<and> uidIoStatsCollect src = Inr usage \<longrightarrow>
      uidIo = \<lparr>total = (\<lambda>m st. sum_list (map (\<lambda>u. metrics (ios u) m st) usage)),
                topNReads = convertTopNUsage READ_BYTES (mUidToPackageNameMapping ?h)
                  (fold (topNInsert (\<lambda>u. sumReadBytes (ios u)))
                     (filter (\<lambda>u. \<not> isZero (ios u)) usage)
                     (replicate (mTopNStatsPerCategory s) tempUsage)),
                topNWrites = convertTopNUsage WRITE_BYTES (mUidToPackageNameMapping ?h)
                  (fold (topNInsert (\<lambda>u. sumWriteBytes (ios u)))
                     (filter (\<lambda>u. \<not> isZero (ios u)) usage)
                     (replicate (mTopNStatsPerCategory s) tempUsage))\<rparr>"
    unfolding m n1 [symmetric] using collectUid_sample [OF uidIo, of usage] e1 by blast
  let ?rcd = "\<lparr>time = wallClock src, uidIoPerfData = uidIo, systemIoPerfData = sys,
            processIoPerfData = proc\<rparr>"
  have sel: "time ?rcd = wallClock src" "systemIoPerfData ?rcd = sys"
    "processIoPerfData ?rcd = proc" "uidIoPerfData ?rcd = uidIo"
    by simp_all
  show "\<exists>rcd. records (deref info ?h)
                     = (if length (records (deref info s)) > maxCacheSize (deref info s)
                        then tl (records (deref info s)) else records (deref info s)) @ [rcd] \<and>
                   time rcd = wallClock src \<and>
                   (\<not> mProcStatEnabled s \<longrightarrow> systemIoPerfData rcd = emptySystemIoPerfData) \<and>
                   (\<not> mProcPidStatEnabled s \<longrightarrow>
                      processIoPerfData rcd = emptyProcessIoPerfData) \<and>
                   (\<not> mUidIoStatsEnabled s \<longrightarrow> uidIoPerfData rcd = emptyUidIoPerfData) \<and>
                   (mProcStatEnabled s \<and> procStatCollect src = Inr procStatInfo \<longrightarrow>
                      systemIoPerfData rcd =
                        \<lparr>cpuIoWaitTime = ioWaitTime procStatInfo,
                         sysTotalCpuTime = totalCpuTime procStatInfo,
                         sysIoBlockedProcessesCnt = ioBlockedProcessesCnt procStatInfo,
                         sysTotalProcessesCnt = totalProcessesCnt procStatInfo\<rparr>) \<and>
                   (mProcPidStatEnabled s \<and> procPidStatCollect src = Inr processStats \<longrightarrow>
                      processIoPerfData rcd =
                        \<lparr>topNIoBlockedUids = map fst
                           (convertTopNIoBlockedUids
                              (mUidToPackageNameMapping (fst (snd
                                 (collectProcessIoPerfDataLocked src s emptyProcessIoPerfData))))
                              (fold (topNInsert ioBlockedTasksCnt)
                                 (map snd (iterationOrder src (getUidProcessStats processStats)))
                                 (replicate (mTopNStatsPerCategory s) tempStats))),
                         topNIoBlockedUidsTotalTaskCnt = map snd
                           (convertTopNIoBlockedUids
                              (mUidToPackageNameMapping (fst (snd
                                 (collectProcessIoPerfDataLocked src s emptyProcessIoPerfData))))
                              (fold (topNInsert ioBlockedTasksCnt)
                                 (map snd (iterationOrder src (getUidProcessStats processStats)))
                                 (replicate (mTopNStatsPerCategory s) tempStats))),
                         topNMajorFaults = convertTopNMajorFaults
                           (mUidToPackageNameMapping (fst (snd
                              (collectProcessIoPerfDataLocked src s emptyProcessIoPerfData))))
                           (fold (topNInsert majorFaults)
                              (map snd (iterationOrder src (getUidProcessStats processStats)))
                              (replicate (mTopNStatsPerCategory s) tempStats)),
                         totalMajorFaults = sum_list (map majorFaults
                           (map snd (iterationOrder src (getUidProcessStats processStats)))),
                         majorFaultsPercentChange =
                           (if mLastMajorFaults s = 0 then 0
                            else dmul (ddiv (double_of_s64
                                   (sum_list (map majorFaults
                                      (map snd (iterationOrder src
                                         (getUidProcessStats processStats))))
                                    - mLastMajorFaults s))
                                 (double_of_u64 (mLastMajorFaults s))) 100)\<rparr>) \<and>
                   (mUidIoStatsEnabled s \<and> uidIoStatsCollect src = Inr usage \<longrightarrow>
                      uidIoPerfData rcd =
                        \<lparr>total = (\<lambda>m st. sum_list (map (\<lambda>u. metrics (ios u) m st) usage)),
                         topNReads = convertTopNUsage READ_BYTES
                           (mUidToPackageNameMapping ?h)
                           (fold (topNInsert (\<lambda>u. sumReadBytes (ios u)))
                              (filter (\<lambda>u. \<not> isZero (ios u)) usage)
                              (replicate (mTopNStatsPerCategory s) tempUsage)),
                         topNWrites = convertTopNUsage WRITE_BYTES
                           (mUidToPackageNameMapping ?h)
                           (fold (topNInsert (\<lambda>u. sumWriteBytes (ios u)))
                              (filter (\<lambda>u. \<not> isZero (ios u)) usage)
                              (replicate (mTopNStatsPerCategory s) tempUsage))\<rparr>)"
    apply (rule exI [of _ ?rcd])
    apply (simp only: sel)
    using rc d1 d2 d3 x1 x2 x3 apply blast
    done
qed

theorem only_disabled_collectors_are_tolerated_witness:
  "\<not> mProcPidStatEnabled partialState \<and> mProcStatEnabled partialState \<and>
   mUidIoStatsEnabled partialState \<and>
   mCurrCollectionEvent
     (handleMessage sampleConstants sampleSources 0 (CollectionWhat BOOT_TIME) partialState)
     = BOOT_TIME \<and>
   length (records (mBoottimeCollection
     (handleMessage sampleConstants sampleSources 0 (CollectionWhat BOOT_TIME) partialState))) = 1 \<and>
   processIoPerfData (last (records (mBoottimeCollection
     (handleMessage sampleConstants sampleSources 0 (CollectionWhat BOOT_TIME) partialState))))
     = emptyProcessIoPerfData \<and>
   systemIoPerfData (last (records (mBoottimeCollection
     (handleMessage sampleConstants sampleSources 0 (CollectionWhat BOOT_TIME) partialState))))
     = \<lparr>cpuIoWaitTime = 1100, sysTotalCpuTime = 26900, sysIoBlockedProcessesCnt = 5,
        sysTotalProcessesCnt = 22\<rparr> \<and>
   total (uidIoPerfData (last (records (mBoottimeCollection
     (handleMessage sampleConstants sampleSources 0 (CollectionWhat BOOT_TIME) partialState)))))
     WRITE_BYTES BACKGROUND = 30000 \<and>
   mProcPidStatEnabled bootState \<and>
   totalMajorFaults (processIoPerfData (last (records (mBoottimeCollection
     (handleMessage sampleConstants sampleSources 0 (CollectionWhat BOOT_TIME) bootState)))))
     = 820 \<and>
   isl (procStatCollect failingSources) \<and>
   mCurrCollectionEvent
     (handleMessage sampleConstants failingSources 0 (CollectionWhat BOOT_TIME) partialState)
     = TERMINATED \<and>
   records (mBoottimeCollection
     (handleMessage sampleConstants failingSources 0 (CollectionWhat BOOT_TIME) partialState)) = []"
proof -
  let ?ok = "handleMessage sampleConstants sampleSources 0 (CollectionWhat BOOT_TIME) partialState"
  let ?all = "handleMessage sampleConstants sampleSources 0 (CollectionWhat BOOT_TIME) bootState"
  let ?bad = "handleMessage sampleConstants failingSources 0 (CollectionWhat BOOT_TIME) partialState"
  let ?info = "\<lparr>ioWaitTime = 1100, totalCpuTime = 26900, ioBlockedProcessesCnt = 5,
             totalProcessesCnt = 22\<rparr> :: ProcStatInfo"
  let ?usage = "[\<lparr>uid = 1001234, ios = mkIoUsage 3000 0 500 0 20 0\<rparr>,
             \<lparr>uid = 1009, ios = mkIoUsage 0 0 0 30000 0 300\<rparr>]"
  let ?stats = "[\<lparr>puid = 1001234, processMajorFaults = 220, threads = [''D'', ''S'']\<rparr>,
             \<lparr>puid = 1009, processMajorFaults = 600, threads = [''S'']\<rparr>]"
  have cfg: "maxCacheSize (deref BoottimeRef partialState) \<noteq> 0"
    "kMinCollectionInterval sampleConstants \<le> interval (deref BoottimeRef partialState)"
    by (simp_all add: partialState_facts sampleConstants_def)
  have cfg': "maxCacheSize (deref BoottimeRef bootState) \<noteq> 0"
    "kMinCollectionInterval sampleConstants \<le> interval (deref BoottimeRef bootState)"
    by (simp_all add: bootState_facts sampleConstants_def)
  have pair: "(BOOT_TIME, BoottimeRef)
      \<in> {(BOOT_TIME, BoottimeRef), (PERIODIC, PeriodicRef), (CUSTOM, CustomRef)}"
    by simp
  have src: "procStatCollect sampleSources = Inr ?info"
    "uidIoStatsCollect sampleSources = Inr ?usage"
    "procPidStatCollect sampleSources = Inr ?stats"
    by (simp_all add: sampleSources_def)
  note ok = only_disabled_collectors_are_tolerated
    [OF partialState_facts(1) pair cfg, of sampleSources 0 ?info ?stats ?usage]
  note bad = only_disabled_collectors_are_tolerated
    [OF partialState_facts(1) pair cfg, of failingSources 0 ?info ?stats ?usage]
  note all = only_disabled_collectors_are_tolerated
    [OF bootState_facts(1) pair cfg', of sampleSources 0 ?info ?stats ?usage]
  have f: "isl (procStatCollect failingSources)"
    by (simp add: failingSources_def)
  from ok obtain rcd where
    ev: "mCurrCollectionEvent ?ok = BOOT_TIME" and
    r: "records (mBoottimeCollection ?ok) = [rcd]" and
    p: "processIoPerfData rcd = emptyProcessIoPerfData" and
    y: "systemIoPerfData rcd = \<lparr>cpuIoWaitTime = 1100, sysTotalCpuTime = 26900,
          sysIoBlockedProcessesCnt = 5, sysTotalProcessesCnt = 22\<rparr>" and
    u: "total (uidIoPerfData rcd)
          = (\<lambda>m st. sum_list (map (\<lambda>u. metrics (ios u) m st) ?usage))"
    by (auto simp: partialState_facts sampleSources_succeed src)
  have 1: "length (records (mBoottimeCollection ?ok)) = 1"
    "processIoPerfData (last (records (mBoottimeCollection ?ok))) = emptyProcessIoPerfData"
    "systemIoPerfData (last (records (mBoottimeCollection ?ok)))
       = \<lparr>cpuIoWaitTime = 1100, sysTotalCpuTime = 26900, sysIoBlockedProcessesCnt = 5,
          sysTotalProcessesCnt = 22\<rparr>"
    "total (uidIoPerfData (last (records (mBoottimeCollection ?ok)))) WRITE_BYTES BACKGROUND
       = 30000"
    unfolding r using p y u by (simp_all add: mkIoUsage_def)
  from all obtain rcd' where
    r': "records (mBoottimeCollection ?all) = [rcd']" and
    t': "totalMajorFaults (processIoPerfData rcd') = sum_list (map majorFaults
           (map snd (iterationOrder sampleSources (getUidProcessStats ?stats))))"
    by (auto simp: bootState_facts sampleSources_succeed src)
  have "sum_list (map majorFaults
           (map snd (iterationOrder sampleSources (getUidProcessStats ?stats)))) = 820"
    by (simp add: sampleSources_def getUidProcessStats_def tempStats_def)
  then have 2: "totalMajorFaults (processIoPerfData (last (records (mBoottimeCollection ?all))))
      = 820"
    unfolding r' using t' by simp
  from bad f have 3: "mCurrCollectionEvent ?bad = TERMINATED"
    "records (mBoottimeCollection ?bad) = []"
    by (auto simp: partialState_facts)
  from ev 1 2 3 f show ?thesis
    by (simp add: partialState_facts bootState_facts del: handleMessage.simps)
qed

text \<open>
  Claim C2 as stated fails: with the three collectors enabled, a failure of the collector
  of \<^verbatim>\<open>/proc/stat\<close> during a boot-time collection ends the collection and caches no
  record.
\<close>

theorem read_failure_terminates_counterexample:
  "mCurrCollectionEvent bootState = BOOT_TIME \<and>
   mUidIoStatsEnabled bootState \<and> mProcStatEnabled bootState \<and> mProcPidStatEnabled bootState \<and>
   procStatCollect failingSources = Inl ''read failed'' \<and>
   mCurrCollectionEvent
     (handleMessage sampleConstants failingSources 0 (CollectionWhat BOOT_TIME) bootState)
     = TERMINATED \<and>
   records (mBoottimeCollection
     (handleMessage sampleConstants failingSources 0 (CollectionWhat BOOT_TIME) bootState)) = []"
  by (simp add: failingSources_def sample_states sampleConstants_def processCollectionEvent_def
      collectLocked_def collectSystemIoPerfDataLocked_def wake_def removeMessages_def)

subsection \<open>Stale messages\<close>

text \<open>
  Claim C4. A collection message whose event is not the current collection event is
  dropped: \<^verbatim>\<open>processCollectionEvent\<close> returns success and the object is as it was, so
  nothing is collected, no record is cached and nothing is scheduled; handling the
  message of a boot-time, periodic or custom collection therefore changes nothing and
  does not terminate the collection.
\<close>

theorem stale_tick_dropped:
  assumes "mCurrCollectionEvent s \<noteq> event"
  shows "processCollectionEvent K src event info s = (Inr (), s) \<and>
         (event \<in> {BOOT_TIME, PERIODIC, CUSTOM} \<longrightarrow>
            handleMessage K src now (CollectionWhat event) s = s)"
  using assms by (auto simp: processCollectionEvent_def)

theorem stale_tick_dropped_witness:
  "mCurrCollectionEvent periodicState \<noteq> BOOT_TIME \<and>
   processCollectionEvent sampleConstants sampleSources BOOT_TIME BoottimeRef periodicState
     = (Inr (), periodicState) \<and>
   handleMessage sampleConstants sampleSources 6000000000 (CollectionWhat BOOT_TIME) periodicState
     = periodicState"
proof -
  have "mCurrCollectionEvent periodicState \<noteq> BOOT_TIME"
    by (simp add: sample_states)
  then show ?thesis
    using stale_tick_dropped [of periodicState BOOT_TIME] by simp
qed

subsection \<open>The end of a custom collection\<close>

text \<open>
  Claim C5. When the message \<open>END_CUSTOM_COLLECTION\<close> is handled and the current event
  is \<open>CUSTOM\<close>, the custom collection is reset (it has no records), the event becomes
  \<open>PERIODIC\<close>, and the only pending message is a periodic collection, due at once; when
  the current event is not \<open>CUSTOM\<close>, nothing changes. The message is the one that
  \<^verbatim>\<open>startCustomCollection\<close> queues for the time of the call plus the maximum duration
  (their 64-bit sum, which is their sum as integers whenever that is a 64-bit value), or
  the one that \<^verbatim>\<open>endCustomCollection\<close> queues for the present.
\<close>

theorem end_custom_collection_switches_to_periodic:
  "(mCurrCollectionEvent s = CUSTOM \<longrightarrow>
      handleMessage K src now (SwitchWhat END_CUSTOM_COLLECTION) s
        = s\<lparr>mCustomCollection := emptyCollectionInfo, mCurrCollectionEvent := PERIODIC,
            mPeriodicCollection := (mPeriodicCollection s)\<lparr>lastCollectionUptime := now\<rparr>,
            looperMessages := [(now, CollectionWhat PERIODIC)]\<rparr> \<and>
      length (records (mCustomCollection
        (handleMessage K src now (SwitchWhat END_CUSTOM_COLLECTION) s))) = 0) \<and>
   (mCurrCollectionEvent s \<noteq> CUSTOM \<longrightarrow>
      handleMessage K src now (SwitchWhat END_CUSTOM_COLLECTION) s = s) \<and>
   (startCustomCollection K now ival maxDuration s = (Inr (), s') \<longrightarrow>
      mCurrCollectionEvent s' = CUSTOM \<and>
      (int64_add now maxDuration, SwitchWhat END_CUSTOM_COLLECTION)
        \<in> set (looperMessages s') \<and>
      (- (2 ^ 63) \<le> now + maxDuration \<and> now + maxDuration < 2 ^ 63 \<longrightarrow>
         (now + maxDuration, SwitchWhat END_CUSTOM_COLLECTION) \<in> set (looperMessages s'))) \<and>
   (mCurrCollectionEvent s = CUSTOM \<longrightarrow>
      looperMessages (snd (endCustomCollection now fdWritable s))
        = [(now, SwitchWhat END_CUSTOM_COLLECTION)])"
  by (auto simp: sendMessage_def sendMessageAtTime_def removeMessages_def emptyCollectionInfo_def
      startCustomCollection_def endCustomCollection_def Let_def int64_add_in_range
      split: sum.splits if_splits)

theorem end_custom_collection_switches_to_periodic_witness:
  "mCurrCollectionEvent customState1 = CUSTOM \<and>
   length (records (mCustomCollection customState1)) = 1 \<and>
   mCurrCollectionEvent (handleMessage sampleConstants sampleSources 67000000000
     (SwitchWhat END_CUSTOM_COLLECTION) customState1) = PERIODIC \<and>
   length (records (mCustomCollection (handleMessage sampleConstants sampleSources 67000000000
     (SwitchWhat END_CUSTOM_COLLECTION) customState1))) = 0 \<and>
   looperMessages (handleMessage sampleConstants sampleSources 67000000000
     (SwitchWhat END_CUSTOM_COLLECTION) customState1)
     = [(67000000000, CollectionWhat PERIODIC)] \<and>
   mCurrCollectionEvent periodicState \<noteq> CUSTOM \<and>
   handleMessage sampleConstants sampleSources 67000000000
     (SwitchWhat END_CUSTOM_COLLECTION) periodicState = periodicState \<and>
   startCustomCollection sampleConstants 7000000000 2000000000 60000000000 periodicState
     = (Inr (), customState) \<and>
   (67000000000, SwitchWhat END_CUSTOM_COLLECTION) \<in> set (looperMessages customState) \<and>
   looperMessages (snd (endCustomCollection 9000000000 True customState1))
     = [(9000000000, SwitchWhat END_CUSTOM_COLLECTION)]"
proof -
  have p: "mCurrCollectionEvent periodicState \<noteq> CUSTOM"
    by (simp add: sample_states)
  have st: "startCustomCollection sampleConstants 7000000000 2000000000 60000000000 periodicState
     = (Inr (), customState)"
    by (simp add: customState_def startCustomCollection_def sampleConstants_def sample_states)
  note custom = end_custom_collection_switches_to_periodic
    [where s = customState1 and K = sampleConstants and src = sampleSources
      and now = 67000000000 and ival = 2000000000 and maxDuration = 60000000000
      and s' = customState1 and fdWritable = True]
  note ended = end_custom_collection_switches_to_periodic
    [where s = customState1 and K = sampleConstants and src = sampleSources
      and now = 9000000000 and ival = 2000000000 and maxDuration = 60000000000
      and s' = customState1 and fdWritable = True]
  note periodic = end_custom_collection_switches_to_periodic
    [where s = periodicState and K = sampleConstants and src = sampleSources
      and now = 67000000000 and ival = 2000000000 and maxDuration = 60000000000
      and s' = customState and fdWritable = True]
  note started = end_custom_collection_switches_to_periodic
    [where s = periodicState and K = sampleConstants and src = sampleSources
      and now = 7000000000 and ival = 2000000000 and maxDuration = 60000000000
      and s' = customState and fdWritable = True]
  from custom customState1_records(1) have h:
    "handleMessage sampleConstants sampleSources 67000000000
       (SwitchWhat END_CUSTOM_COLLECTION) customState1
     = customState1\<lparr>mCustomCollection := emptyCollectionInfo,
         mCurrCollectionEvent := PERIODIC,
         mPeriodicCollection :=
           (mPeriodicCollection customState1)\<lparr>lastCollectionUptime := 67000000000\<rparr>,
         looperMessages := [(67000000000, CollectionWhat PERIODIC)]\<rparr>"
    by blast
  from ended customState1_records(1) have e:
    "looperMessages (snd (endCustomCollection 9000000000 True customState1))
      = [(9000000000, SwitchWhat END_CUSTOM_COLLECTION)]"
    by blast
  from periodic p have q:
    "handleMessage sampleConstants sampleSources 67000000000
       (SwitchWhat END_CUSTOM_COLLECTION) periodicState = periodicState"
    by blast
  have "- (2 ^ 63) \<le> (7000000000 :: int) + 60000000000 \<and>
      (7000000000 :: int) + 60000000000 < 2 ^ 63"
    by simp
  with started st have
    "(7000000000 + 60000000000, SwitchWhat END_CUSTOM_COLLECTION)
       \<in> set (looperMessages customState)"
    by blast
  then have g:
    "(67000000000, SwitchWhat END_CUSTOM_COLLECTION) \<in> set (looperMessages customState)"
    by simp
  from p st e q g customState1_records(1,2) show ?thesis
    unfolding h by (simp add: emptyCollectionInfo_def)
qed

subsection \<open>Invalid configuration\<close>

text \<open>
  Claim C6. When the message of the current collection event is handled and the
  collection's maximum cache size is 0 or its interval is below
  \<^verbatim>\<open>kMinCollectionInterval\<close>, \<^verbatim>\<open>processCollectionEvent\<close> returns an error without touching
  the object (no collection runs), and \<^verbatim>\<open>handleMessage\<close> ends the collection: the event
  becomes \<open>TERMINATED\<close>, the pending messages are removed and the looper is woken; nothing
  else changes.
\<close>

theorem invalid_configuration_is_fatal:
  assumes "mCurrCollectionEvent s = event"
    and "(event, info) \<in> {(BOOT_TIME, BoottimeRef), (PERIODIC, PeriodicRef), (CUSTOM, CustomRef)}"
    and "maxCacheSize (deref info s) = 0 \<or> interval (deref info s) < kMinCollectionInterval K"
  shows "isl (fst (processCollectionEvent K src event info s)) \<and>
         snd (processCollectionEvent K src event info s) = s \<and>
         handleMessage K src now (CollectionWhat event) s
           = s\<lparr>mCurrCollectionEvent := TERMINATED, looperMessages := [],
               looperWakes := Suc (looperWakes s)\<rparr>"
proof -
  from assms(1,3) have "processCollectionEvent K src event info s = (Inl (MaxCacheSizeZero event), s)
      \<or> processCollectionEvent K src event info s = (Inl (IntervalTooShort event), s)"
    by (auto simp: processCollectionEvent_def)
  with assms(2) show ?thesis
    by (auto simp: wake_def removeMessages_def)
qed

theorem invalid_configuration_is_fatal_witness:
  "mCurrCollectionEvent zeroCacheState = PERIODIC \<and>
   maxCacheSize (mPeriodicCollection zeroCacheState) = 0 \<and>
   isl (fst (processCollectionEvent sampleConstants sampleSources PERIODIC PeriodicRef
     zeroCacheState)) \<and>
   mCurrCollectionEvent (handleMessage sampleConstants sampleSources 5000000000
     (CollectionWhat PERIODIC) zeroCacheState) = TERMINATED \<and>
   mPeriodicCollection (handleMessage sampleConstants sampleSources 5000000000
     (CollectionWhat PERIODIC) zeroCacheState) = mPeriodicCollection zeroCacheState"
proof -
  have m: "mCurrCollectionEvent zeroCacheState = PERIODIC"
    by (simp add: zeroCacheState_unfold sample_states)
  have z: "maxCacheSize (deref PeriodicRef zeroCacheState) = 0
      \<or> interval (deref PeriodicRef zeroCacheState) < kMinCollectionInterval sampleConstants"
    by (simp add: zeroCacheState_unfold)
  from invalid_configuration_is_fatal [OF m _ z, of sampleSources 5000000000] m show ?thesis
    by (simp add: zeroCacheState_unfold)
qed

subsection \<open>Calls out of sequence\<close>

text \<open>
  Claim C7. A call out of sequence returns an error and leaves the object as it was:
  \<^verbatim>\<open>start()\<close> when the event is not \<open>INIT\<close> or the thread already exists,
  \<^verbatim>\<open>onBootFinished()\<close> when the event is not \<open>BOOT_TIME\<close>, \<^verbatim>\<open>startCustomCollection\<close> when
  the event is not \<open>PERIODIC\<close>, \<^verbatim>\<open>endCustomCollection\<close> when the event is not \<open>CUSTOM\<close>.
  The object holds the event, the three collections and the pending messages, so none
  of them changes.
\<close>

theorem out_of_sequence_calls_rejected:
  "(mCurrCollectionEvent s \<noteq> INIT \<or> mCollectionThreadJoinable s \<longrightarrow>
      start K s = (Inl CannotStartMoreThanOnce, s)) \<and>
   (mCurrCollectionEvent s \<noteq> BOOT_TIME \<longrightarrow>
      onBootFinished now s = (Inl (NotBoottimeEvent (mCurrCollectionEvent s)), s)) \<and>
   (mCurrCollectionEvent s \<noteq> PERIODIC \<longrightarrow>
      isl (fst (startCustomCollection K now ival maxDuration s)) \<and>
      snd (startCustomCollection K now ival maxDuration s) = s) \<and>
   (mCurrCollectionEvent s \<noteq> CUSTOM \<longrightarrow>
      endCustomCollection now fdWritable s = (Inl NoCustomCollectionRunning, s))"
  by (simp add: start_def onBootFinished_def startCustomCollection_def endCustomCollection_def)

theorem out_of_sequence_calls_rejected_witness:
  "mCurrCollectionEvent periodicState = PERIODIC \<and>
   start sampleConstants periodicState = (Inl CannotStartMoreThanOnce, periodicState) \<and>
   onBootFinished 6000000000 periodicState = (Inl (NotBoottimeEvent PERIODIC), periodicState) \<and>
   endCustomCollection 6000000000 True periodicState
     = (Inl NoCustomCollectionRunning, periodicState) \<and>
   mCurrCollectionEvent customState = CUSTOM \<and>
   startCustomCollection sampleConstants 8000000000 2000000000 60000000000 customState
     = (Inl (NotPeriodicEvent CUSTOM), customState)"
proof -
  have p: "mCurrCollectionEvent periodicState = PERIODIC"
    by (simp add: sample_states)
  have c: "mCurrCollectionEvent customState = CUSTOM"
    by (simp add: sample_states)
  have "startCustomCollection sampleConstants 8000000000 2000000000 60000000000 customState
     = (Inl (NotPeriodicEvent CUSTOM), customState)"
    using out_of_sequence_calls_rejected
      [of customState sampleConstants 8000000000 2000000000 60000000000] c
    by (simp add: startCustomCollection_def sampleConstants_def)
  then show ?thesis
    using out_of_sequence_calls_rejected [of periodicState sampleConstants 6000000000] p c
    by simp
qed

subsection \<open>The next collection\<close>

text \<open>
  Claim C8. After a collection that succeeded, the last collection uptime of the
  collection has grown by exactly its interval, and the message of the next collection
  of the same event is queued for that time. The sum is the 64-bit sum of the stored
  uptime and the interval, which is their sum as integers whenever that is a 64-bit
  value. The time is computed from the stored uptime alone:
  \<^verbatim>\<open>processCollectionEvent\<close> does not read the clock.
\<close>

theorem next_tick_by_accumulation:
  assumes "mCurrCollectionEvent s = event"
    and "processCollectionEvent K src event info s = (Inr (), s')"
  shows "lastCollectionUptime (deref info s')
           = int64_add (lastCollectionUptime (deref info s)) (interval (deref info s)) \<and>
         looperMessages s'
           = enqueueMessage
               (int64_add (lastCollectionUptime (deref info s)) (interval (deref info s)))
               (CollectionWhat event) (looperMessages s) \<and>
         - (2 ^ 63) \<le> lastCollectionUptime (deref info s') \<and>
         lastCollectionUptime (deref info s') < 2 ^ 63 \<and>
         (- (2 ^ 63) \<le> lastCollectionUptime (deref info s) + interval (deref info s) \<and>
          lastCollectionUptime (deref info s) + interval (deref info s) < 2 ^ 63 \<longrightarrow>
            lastCollectionUptime (deref info s')
              = lastCollectionUptime (deref info s) + interval (deref info s) \<and>
            looperMessages s'
              = enqueueMessage (lastCollectionUptime (deref info s) + interval (deref info s))
                  (CollectionWhat event) (looperMessages s))"
proof -
  obtain r s1 where c: "collectLocked src info s = (r, s1)"
    by (cases "collectLocked src info s")
  let ?t = "int64_add (lastCollectionUptime (deref info s1)) (interval (deref info s1))"
  from assms c have s': "s' = sendMessageAtTime ?t (CollectionWhat event)
      (assign info ((deref info s1)\<lparr>lastCollectionUptime := ?t\<rparr>) s1)"
    by (auto simp: processCollectionEvent_def Let_def split: if_splits sum.splits)
  have "deref info s' = (deref info s1)\<lparr>lastCollectionUptime := ?t\<rparr>"
    by (cases info) (simp_all add: s' sendMessageAtTime_def)
  moreover have "looperMessages s' = enqueueMessage ?t (CollectionWhat event) (looperMessages s1)"
    by (simp add: s' sendMessageAtTime_def)
  ultimately have
    "lastCollectionUptime (deref info s')
       = int64_add (lastCollectionUptime (deref info s)) (interval (deref info s))"
    "looperMessages s'
       = enqueueMessage
           (int64_add (lastCollectionUptime (deref info s)) (interval (deref info s)))
           (CollectionWhat event) (looperMessages s)"
    using collectLocked_frame [OF c] by simp_all
  then show ?thesis
    using int64_add_bounds [of "lastCollectionUptime (deref info s)" "interval (deref info s)"]
    by (simp add: int64_add_in_range)
qed

theorem next_tick_by_accumulation_witness:
  "mCurrCollectionEvent bootState = BOOT_TIME \<and>
   fst (processCollectionEvent sampleConstants sampleSources BOOT_TIME BoottimeRef bootState)
     = Inr () \<and>
   lastCollectionUptime (mBoottimeCollection bootState) = 0 \<and>
   interval (mBoottimeCollection bootState) = 1000000000 \<and>
   lastCollectionUptime (mBoottimeCollection
      (snd (processCollectionEvent sampleConstants sampleSources BOOT_TIME BoottimeRef bootState)))
     = 1000000000 \<and>
   looperMessages
      (snd (processCollectionEvent sampleConstants sampleSources BOOT_TIME BoottimeRef bootState))
     = [(0, CollectionWhat BOOT_TIME), (1000000000, CollectionWhat BOOT_TIME)]"
proof -
  have m: "mCurrCollectionEvent bootState = BOOT_TIME"
    by (simp add: sample_states)
  have "\<not> isl (fst (collectLocked sampleSources BoottimeRef bootState))"
    by (simp add: collectLocked_isl sample_states sampleSources_def)
  then have ok: "fst (processCollectionEvent sampleConstants sampleSources BOOT_TIME BoottimeRef
      bootState) = Inr ()"
    by (intro tick_succeeds) (simp_all add: sample_states sampleConstants_def)
  then have "processCollectionEvent sampleConstants sampleSources BOOT_TIME BoottimeRef bootState
      = (Inr (), snd (processCollectionEvent sampleConstants sampleSources BOOT_TIME BoottimeRef
          bootState))"
    by (metis prod.collapse)
  from next_tick_by_accumulation [OF m this] m ok show ?thesis
    by (simp add: sample_states)
qed

subsection \<open>Percentages\<close>

text \<open>
  The rounding on a few values: a number with a short significand is kept, a third is
  rounded to 53 bits, and an integer halfway between two doubles goes to the one with
  the even significand.
\<close>

lemma floor_divide_rat_numeral:
  "\<lfloor>(numeral a :: rat) / numeral b\<rfloor> = numeral a div numeral b"
  using floor_divide_of_int_eq [of "numeral a" "numeral b", where ?'a = rat] by simp

lemma fl_representable: "fl 50 = 50" "fl (1 / 4) = 1 / 4"
  by code_simp+

lemma fl_third: "fl (1 / 3) = 6004799503160661 / 18014398509481984"
  by code_simp

lemma binade_tie: "binade 9007199254740993 = 53" "binade 9007199254740995 = 53"
  by (simp_all add: binade_def pow2_def compute_floorlog Let_def)

lemma fl_ties_to_even:
  "fl 9007199254740993 = 9007199254740992" "fl 9007199254740995 = 9007199254740996"
  by (simp_all add: fl_def binade_tie pow2_def roundHalfEven_def Let_def
      floor_divide_rat_numeral)

text \<open>
  The rounding is accurate: a double differs from the number it was rounded from by at
  most that number divided by \<open>2 ^ 53\<close>.
\<close>

lemma pow2_powi: "pow2 z = 2 powi z"
  by (simp add: pow2_def power_int_def inverse_eq_divide power_one_over)

lemma pow2_pos [simp]: "0 < pow2 z"
  by (simp add: pow2_powi)

lemma pow2_nonzero [simp]: "pow2 z \<noteq> 0"
  by (simp add: pow2_powi)

lemma pow2_nonneg [simp]: "0 \<le> pow2 z"
  by (simp add: pow2_powi)

lemma pow2_diff: "pow2 (a - b) = pow2 a / pow2 b"
  by (simp add: pow2_powi power_int_diff)

lemma pow2_nat: "pow2 (int n) = 2 ^ n"
  by (simp add: pow2_powi)

lemma binade_le:
  assumes "x \<noteq> 0"
  shows "pow2 (binade x) \<le> \<bar>x\<bar>"
proof -
  obtain p q where pq: "quotient_of \<bar>x\<bar> = (p, q)"
    by (cases "quotient_of \<bar>x\<bar>")
  have q: "0 < q"
    by (rule quotient_of_denom_pos [OF pq])
  have x: "\<bar>x\<bar> = of_int p / of_int q"
    by (rule quotient_of_div [OF pq])
  have "0 < \<bar>x\<bar>"
    using assms by simp
  then have p: "0 < p"
    using q by (simp add: x zero_less_divide_iff)
  let ?fp = "floorlog 2 (nat p)" and ?fq = "floorlog 2 (nat q)"
  let ?d = "int ?fp - int ?fq"
  have bp: "2 ^ (?fp - 1) \<le> nat p"
    using floorlog_bounds [of "nat p" 2] p by simp
  have bq: "nat q < 2 ^ ?fq"
    using floorlog_bounds [of "nat q" 2] q by simp
  have fp1: "1 \<le> ?fp"
    using p by (simp add: floorlog_def)
  show ?thesis
  proof (cases "pow2 ?d \<le> \<bar>x\<bar>")
    case True
    then show ?thesis
      by (simp add: binade_def pq Let_def)
  next
    case False
    then have b: "binade x = ?d - 1"
      by (simp add: binade_def pq Let_def)
    have "?d - 1 = int (?fp - 1) - int ?fq"
      using fp1 by simp
    then have "pow2 (?d - 1) = 2 ^ (?fp - 1) / 2 ^ ?fq"
      by (simp only: pow2_diff pow2_nat)
    also have "\<dots> \<le> of_int p / of_int q"
    proof (rule frac_le)
      have "(of_nat (2 ^ (?fp - 1)) :: rat) \<le> of_nat (nat p)"
        using bp by (simp only: of_nat_le_iff)
      then show "(2::rat) ^ (?fp - 1) \<le> of_int p"
        using p by simp
      have "(of_nat (nat q) :: rat) < of_nat (2 ^ ?fq)"
        using bq by (simp only: of_nat_less_iff)
      then show "(of_int q :: rat) \<le> 2 ^ ?fq"
        using q by simp
      show "(0::rat) \<le> of_int p"
        using p by simp
      show "(0::rat) < of_int q"
        using q by simp
    qed
    finally show ?thesis
      by (simp add: b x)
  qed
qed

lemma roundHalfEven_error: "\<bar>of_int (roundHalfEven q) - q\<bar> \<le> 1 / 2"
proof -
  let ?n = "\<lfloor>q\<rfloor>"
  let ?r = "q - of_int ?n"
  have r: "0 \<le> ?r" "?r < 1"
    by linarith+
  consider (down) "?r < 1 / 2" | (up) "1 / 2 < ?r" | (tie) "?r = 1 / 2"
    by linarith
  then show ?thesis
  proof cases
    case down
    then have "roundHalfEven q = ?n"
      by (simp add: roundHalfEven_def Let_def)
    with down r show ?thesis
      by simp
  next
    case up
    then have "roundHalfEven q = ?n + 1"
      by (simp add: roundHalfEven_def Let_def)
    with up r show ?thesis
      by simp
  next
    case tie
    then have "roundHalfEven q = ?n \<or> roundHalfEven q = ?n + 1"
      by (simp add: roundHalfEven_def Let_def)
    with tie show ?thesis
      by auto
  qed
qed

lemma fl_abs_error:
  assumes "x \<noteq> 0"
  shows "\<bar>fl x - x\<bar> \<le> pow2 (binade x - 52) / 2"
proof -
  let ?ulp = "pow2 (binade x - 52)"
  let ?n = "roundHalfEven (\<bar>x\<bar> / ?ulp)"
  have ulp: "0 < ?ulp"
    by simp
  have nz: "?ulp \<noteq> 0"
    by simp
  have "fl x - x = sgn x * (of_int ?n * ?ulp - \<bar>x\<bar>)"
    using assms by (simp add: fl_def Let_def right_diff_distrib mult.assoc sgn_mult_abs)
  then have "\<bar>fl x - x\<bar> = \<bar>of_int ?n * ?ulp - \<bar>x\<bar>\<bar>"
    using assms by (simp add: abs_mult abs_sgn_eq)
  also have "of_int ?n * ?ulp - \<bar>x\<bar> = (of_int ?n - \<bar>x\<bar> / ?ulp) * ?ulp"
    using nz by (simp add: left_diff_distrib)
  also have "\<bar>(of_int ?n - \<bar>x\<bar> / ?ulp) * ?ulp\<bar> = \<bar>of_int ?n - \<bar>x\<bar> / ?ulp\<bar> * ?ulp"
    using ulp by (simp only: abs_mult abs_of_pos)
  also have "\<dots> \<le> 1 / 2 * ?ulp"
    using roundHalfEven_error [of "\<bar>x\<bar> / ?ulp"] ulp
    by (intro mult_right_mono) simp_all
  finally show ?thesis
    by simp
qed

lemma pow2_52: "pow2 52 = 2 ^ 52"
  by (simp add: pow2_def)

text \<open>The relative error of a rounding is at most \<open>2 ^ - 53\<close>.\<close>

lemma fl_rel_error: "\<bar>fl x - x\<bar> \<le> \<bar>x\<bar> / 2 ^ 53"
proof (cases "x = 0")
  case True
  then show ?thesis
    by (simp add: fl_def)
next
  case False
  have "pow2 (binade x - 52) / 2 = pow2 (binade x) / 2 ^ 53"
    by (simp add: pow2_diff pow2_52)
  also have "\<dots> \<le> \<bar>x\<bar> / 2 ^ 53"
    using binade_le [OF False] by (simp add: divide_right_mono)
  finally show ?thesis
    using fl_abs_error [OF False] by simp
qed

text \<open>Four roundings in a row, of which the last three carry the error of the one before.\<close>

lemma fl_bounds:
  assumes "0 \<le> x"
  shows "x * (1 - 1 / 2 ^ 53) \<le> fl x" and "fl x \<le> x * (1 + 1 / 2 ^ 53)"
proof -
  have "\<bar>fl x - x\<bar> \<le> x / 2 ^ 53"
    using fl_rel_error [of x] assms by simp
  then have "x - x / 2 ^ 53 \<le> fl x" "fl x \<le> x + x / 2 ^ 53"
    by linarith+
  then show "x * (1 - 1 / 2 ^ 53) \<le> fl x" and "fl x \<le> x * (1 + 1 / 2 ^ 53)"
    by (simp_all add: right_diff_distrib distrib_left)
qed

lemma rounding_chain:
  fixes v t a b q r L U :: rat
  assumes "0 \<le> v" "0 < t" "0 < L" "L \<le> U"
    and a: "v * L \<le> a" "a \<le> v * U"
    and b: "t * L \<le> b" "b \<le> t * U"
    and q: "a / b * L \<le> q" "q \<le> a / b * U"
    and r: "q * 100 * L \<le> r" "r \<le> q * 100 * U"
  shows "v / t * 100 * (L * L * L / U) \<le> r" and "r \<le> v / t * 100 * (U * U * U / L)"
proof -
  have U: "0 < U"
    using assms(3,4) by linarith
  have tL: "0 < t * L"
    using assms(2,3) by simp
  then have bpos: "0 < b"
    using b(1) by linarith
  have a0: "0 \<le> a"
    using a(1) assms(1,3) by (meson mult_nonneg_nonneg less_imp_le order_trans)
  have ab_hi: "a / b \<le> (v * U) / (t * L)"
    using a0 a(2) tL b(1) by (intro frac_le) (auto intro: order_trans)
  have ab_lo: "(v * L) / (t * U) \<le> a / b"
    using a0 a(1) bpos b(2) by (intro frac_le) auto
  have ab0: "0 \<le> a / b"
    using a0 bpos by simp
  have q0: "0 \<le> q"
    using q(1) ab0 assms(3) by (meson mult_nonneg_nonneg less_imp_le order_trans)
  have "q \<le> (v * U) / (t * L) * U"
    using q(2) ab_hi U by (meson mult_right_mono less_imp_le order_trans)
  then have "q * 100 * U \<le> (v * U) / (t * L) * U * 100 * U"
    using U by (intro mult_right_mono) simp_all
  with r(2) have hi: "r \<le> (v * U) / (t * L) * U * 100 * U"
    by linarith
  have "(v * L) / (t * U) * L \<le> q"
    using q(1) ab_lo assms(3) by (meson mult_right_mono less_imp_le order_trans)
  then have "(v * L) / (t * U) * L * 100 * L \<le> q * 100 * L"
    using assms(3) by (intro mult_right_mono) simp_all
  with r(1) have lo: "(v * L) / (t * U) * L * 100 * L \<le> r"
    by linarith
  have "(v * U) / (t * L) * U * 100 * U = v / t * 100 * (U * U * U / L)"
    by (simp add: mult_ac)
  then show "r \<le> v / t * 100 * (U * U * U / L)"
    using hi by (simp only:)
  have "(v * L) / (t * U) * L * 100 * L = v / t * 100 * (L * L * L / U)"
    by (simp add: mult_ac)
  then show "v / t * 100 * (L * L * L / U) \<le> r"
    using lo by (simp only:)
qed

lemma rounding_constants:
  "(1 + 1 / 2 ^ 53) * (1 + 1 / 2 ^ 53) * (1 + 1 / 2 ^ 53) / (1 - 1 / 2 ^ 53)
     \<le> (1 + 1 / 2 ^ 50 :: rat)"
  "(1 - 1 / 2 ^ 50 :: rat)
     \<le> (1 - 1 / 2 ^ 53) * (1 - 1 / 2 ^ 53) * (1 - 1 / 2 ^ 53) / (1 + 1 / 2 ^ 53)"
  by simp_all

lemma percentage_accuracy:
  assumes "denom \<noteq> 0"
  shows "\<bar>percentage numer denom - of_nat (unat numer) / of_nat (unat denom) * 100\<bar>
           \<le> of_nat (unat numer) / of_nat (unat denom) * 100 / 2 ^ 50"
proof -
  let ?v = "of_nat (unat numer) :: rat" and ?t = "of_nat (unat denom) :: rat"
  let ?L = "1 - 1 / 2 ^ 53 :: rat" and ?U = "1 + 1 / 2 ^ 53 :: rat"
  let ?a = "fl ?v" and ?b = "fl ?t"
  let ?q = "fl (?a / ?b)"
  let ?r = "fl (?q * 100)"
  let ?E = "?v / ?t * 100"
  have v: "0 \<le> ?v"
    by (simp only: of_nat_0_le_iff)
  have "0 < unat denom"
    using assms by (simp add: unat_gt_0)
  then have t: "0 < ?t"
    by (simp only: of_nat_0_less_iff)
  have L: "0 < ?L" "?L \<le> ?U"
    by simp_all
  note a = fl_bounds [OF v]
  have t0: "0 \<le> ?t"
    using t by simp
  note b = fl_bounds [OF t0]
  have "0 < ?t * ?L"
    using t L(1) by (rule mult_pos_pos)
  then have bpos: "0 < ?b"
    using b(1) by linarith
  have "0 \<le> ?v * ?L"
    using v L(1) by (intro mult_nonneg_nonneg) simp_all
  then have a0: "0 \<le> ?a"
    using a(1) by linarith
  have ab0: "0 \<le> ?a / ?b"
    using a0 bpos by simp
  note q = fl_bounds [OF ab0]
  have "0 \<le> ?a / ?b * ?L"
    using ab0 L(1) by (intro mult_nonneg_nonneg) simp_all
  then have q0: "0 \<le> ?q * 100"
    using q(1) by linarith
  note r = fl_bounds [OF q0]
  note c = rounding_chain [OF v t L a b q r]
  have "0 \<le> ?v / ?t"
    using v t by (rule divide_nonneg_pos)
  then have E: "0 \<le> ?E"
    by (rule mult_nonneg_nonneg) simp
  have "?r \<le> ?E * (1 + 1 / 2 ^ 50)"
    using c(2) mult_left_mono [OF rounding_constants(1) E] by linarith
  moreover have "?E * (1 - 1 / 2 ^ 50) \<le> ?r"
    using c(1) mult_left_mono [OF rounding_constants(2) E] by linarith
  ultimately have "\<bar>?r - ?E\<bar> \<le> ?E / 2 ^ 50"
    by (simp add: abs_le_iff right_diff_distrib distrib_left)
  moreover have "percentage numer denom = ?r"
    using assms by (simp add: percentage_def dmul_def ddiv_def double_of_u64_def)
  ultimately show ?thesis
    by simp
qed

text \<open>
  Claim C9. \<^verbatim>\<open>percentage(numer, denom)\<close> is 0 when \<^verbatim>\<open>denom\<close> is zero, whatever
  \<^verbatim>\<open>numer\<close> is, and otherwise \<^verbatim>\<open>numer / denom * 100\<close> computed in doubles: both operands
  are converted, then divided, and the quotient is multiplied by 100, each of the four
  steps rounding to the nearest double. The result differs from the exact value of
  \<open>numer / denom * 100\<close> by at most that value divided by \<open>2 ^ 50\<close>. So
  \<^verbatim>\<open>percentage(0, 0)\<close> is 0 and \<^verbatim>\<open>percentage(50, 200)\<close> is 25.
\<close>

theorem percentage_value:
  "percentage numer denom
     = (if denom = 0 then 0
        else dmul (ddiv (double_of_u64 numer) (double_of_u64 denom)) 100) \<and>
   percentage numer 0 = 0 \<and>
   percentage 0 0 = 0 \<and>
   percentage 50 200 = 25 \<and>
   (denom \<noteq> 0 \<longrightarrow>
      percentage numer denom
        = fl (fl (fl (of_nat (unat numer)) / fl (of_nat (unat denom))) * 100) \<and>
      \<bar>percentage numer denom - of_nat (unat numer) / of_nat (unat denom) * 100\<bar>
        \<le> of_nat (unat numer) / of_nat (unat denom) * 100 / 2 ^ 50)"
proof -
  have 1: "percentage 50 200 = 25"
    by code_simp
  have 2: "percentage numer denom
     = (if denom = 0 then 0
        else dmul (ddiv (double_of_u64 numer) (double_of_u64 denom)) 100)"
    by (simp only: percentage_def)
  have 3: "percentage numer 0 = 0" "percentage 0 0 = 0"
    by (simp_all add: percentage_def)
  have 4: "denom \<noteq> 0 \<longrightarrow> percentage numer denom
        = fl (fl (fl (of_nat (unat numer)) / fl (of_nat (unat denom))) * 100)"
    by (simp add: percentage_def dmul_def ddiv_def double_of_u64_def)
  have 5: "denom \<noteq> 0 \<longrightarrow>
      \<bar>percentage numer denom - of_nat (unat numer) / of_nat (unat denom) * 100\<bar>
        \<le> of_nat (unat numer) / of_nat (unat denom) * 100 / 2 ^ 50"
    using percentage_accuracy [of denom numer] by blast
  from 1 2 3 4 5 show ?thesis
    by blast
qed

theorem percentage_value_witness:
  "(200 :: u64) \<noteq> 0 \<and> (3 :: u64) \<noteq> 0 \<and>
   percentage 50 200 = 25 \<and>
   \<bar>percentage 50 200 - 50 / 200 * 100\<bar> \<le> 50 / 200 * 100 / 2 ^ 50 \<and>
   \<bar>percentage 1 3 - 1 / 3 * 100\<bar> \<le> 1 / 3 * 100 / 2 ^ 50"
proof -
  have u: "unat (50 :: u64) = 50" "unat (200 :: u64) = 200" "unat (1 :: u64) = 1"
    "unat (3 :: u64) = 3"
    by simp_all
  have "(200 :: u64) \<noteq> 0"
    by simp
  then have "\<bar>percentage 50 200 - of_nat (unat (50 :: u64)) / of_nat (unat (200 :: u64)) * 100\<bar>
        \<le> of_nat (unat (50 :: u64)) / of_nat (unat (200 :: u64)) * 100 / 2 ^ 50"
    using percentage_value [of 50 200] by blast
  then have 1: "\<bar>percentage 50 200 - 50 / 200 * 100\<bar> \<le> 50 / 200 * 100 / 2 ^ 50"
    by (simp only: u of_nat_numeral)
  have "(3 :: u64) \<noteq> 0"
    by simp
  then have "\<bar>percentage 1 3 - of_nat (unat (1 :: u64)) / of_nat (unat (3 :: u64)) * 100\<bar>
        \<le> of_nat (unat (1 :: u64)) / of_nat (unat (3 :: u64)) * 100 / 2 ^ 50"
    using percentage_value [of 1 3] by blast
  then have 2: "\<bar>percentage 1 3 - 1 / 3 * 100\<bar> \<le> 1 / 3 * 100 / 2 ^ 50"
    by (simp only: u of_nat_numeral of_nat_1)
  have 3: "percentage 50 200 = 25"
    using percentage_value [of 50 200] by blast
  have 4: "(200 :: u64) \<noteq> 0" "(3 :: u64) \<noteq> 0"
    by simp_all
  from 1 2 3 4 show ?thesis
    by blast
qed

subsection \<open>Termination\<close>

text \<open>
  Claim C10. \<^verbatim>\<open>terminate()\<close> on a collection that is already terminated returns the
  object as it is: no message is removed, the looper is not woken and the thread is not
  joined. Terminating twice is therefore the same as terminating once.
\<close>

theorem terminate_idempotent:
  "(mCurrCollectionEvent s = TERMINATED \<longrightarrow> terminate s = s) \<and>
   terminate (terminate s) = terminate s"
  by (simp add: terminate_def wake_def removeMessages_def Let_def)

theorem terminate_idempotent_witness:
  "mCurrCollectionEvent (terminate periodicState) = TERMINATED \<and>
   terminate (terminate periodicState) = terminate periodicState \<and>
   looperWakes (terminate (terminate periodicState)) = 1"
  using terminate_idempotent [of "terminate periodicState"]
  by (simp add: terminate_def wake_def removeMessages_def Let_def sample_states)

end
